(* ===== verification/Prelude.thy ===== *)
theory Prelude
  imports Main "HOL-Library.Word" "HOL-Library.Sublist"
begin

text \<open>
  Shared vocabulary of the development: the machine integers of the Rust sources, the
  \<open>?\<close> operator on results, generic list and map lemmas, the collections that the
  component proofs simplify with, and the two generic interfaces every stateful component
  is put through (\<open>step_system\<close> for guarded step functions, \<open>byte_equality\<close> for the
  accumulating byte comparisons).
\<close>

section \<open>Machine integers and results\<close>

type_synonym u8 = "8 word"
type_synonym u16 = "16 word"
type_synonym u32 = "32 word"
type_synonym u64 = "64 word"
type_synonym i32 = "32 word"

text \<open>
  \<open>text_eval\<close> collects the equations that evaluate string literals and character classes,
  \<open>rust_defs\<close> the definitions of small source helpers that proofs unfold together.
\<close>

named_theorems text_eval
named_theorems rust_defs
named_theorems inv_intros

text \<open>The two families of targets the sources select with \<open>cfg\<close>.\<close>

datatype platform = Unix | Windows

text \<open>A Rust \<open>Result<T, E>\<close> is \<open>'e + 'a\<close>, with \<open>Inl\<close> for \<open>Err\<close>; \<open>rbind\<close> is the
  \<open>?\<close> operator followed by the rest of the function.\<close>

definition rbind :: "'e + 'a \<Rightarrow> ('a \<Rightarrow> 'e + 'b) \<Rightarrow> 'e + 'b" where
  "rbind r f = (case r of Inl e \<Rightarrow> Inl e | Inr x \<Rightarrow> f x)"

definition ok_or :: "'e \<Rightarrow> 'a option \<Rightarrow> 'e + 'a" where
  "ok_or e m = (case m of None \<Rightarrow> Inl e | Some x \<Rightarrow> Inr x)"

lemma rbind_simps [simp]:
  "rbind (Inl e) f = Inl e"
  "rbind (Inr x) f = f x"
  by (simp_all add: rbind_def)

lemma rbind_eq_Inr [simp]:
  "rbind r f = Inr y \<longleftrightarrow> (\<exists>x. r = Inr x \<and> f x = Inr y)"
  by (cases r) auto

lemma rbind_split:
  "P (rbind r f) \<longleftrightarrow> (\<forall>e. r = Inl e \<longrightarrow> P (Inl e)) \<and> (\<forall>x. r = Inr x \<longrightarrow> P (f x))"
  by (cases r) auto

lemma ok_or_simps [simp]:
  "ok_or e None = Inl e"
  "ok_or e (Some x) = Inr x"
  "ok_or e m = Inr x \<longleftrightarrow> m = Some x"
  by (auto simp: ok_or_def split: option.splits)

text \<open>Collecting a fallible map, as a \<open>for\<close> loop with \<open>?\<close> in its body.\<close>

fun rmap :: "('a \<Rightarrow> 'e + 'b) \<Rightarrow> 'a list \<Rightarrow> 'e + 'b list" where
  "rmap f [] = Inr []"
| "rmap f (x # xs) = rbind (f x) (\<lambda>y. rbind (rmap f xs) (\<lambda>ys. Inr (y # ys)))"

lemma rmap_Inr: "rmap f xs = Inr ys \<longleftrightarrow> list_all2 (\<lambda>x y. f x = Inr y) xs ys"
  by (induction xs arbitrary: ys) (auto simp: list_all2_Cons1)

lemma rmap_length: "rmap f xs = Inr ys \<Longrightarrow> length ys = length xs"
  by (simp add: rmap_Inr list_all2_lengthD)

section \<open>Lists and maps\<close>

lemma dropWhile_all: "\<forall>x \<in> set xs. P x \<Longrightarrow> dropWhile P xs = []"
  by simp

lemma takeWhile_append_stop:
  "\<forall>x \<in> set xs. P x \<Longrightarrow> \<not> P y \<Longrightarrow> takeWhile P (xs @ y # ys) = xs"
  by (induction xs) auto

lemma dropWhile_append_stop:
  "\<forall>x \<in> set xs. P x \<Longrightarrow> \<not> P y \<Longrightarrow> dropWhile P (xs @ y # ys) = y # ys"
  by (induction xs) auto

lemma take_eq_prefix: "take (length p) s = p \<longleftrightarrow> prefix p s"
  by (metis append_eq_conv_conj prefix_def)

lemma foldl_snoc_concat: "foldl (\<lambda>acc x. acc @ f x) a xs = a @ concat (map f xs)"
  by (induction xs arbitrary: a) auto

section \<open>Fallible actions on a state\<close>

text \<open>A call that can fail and changes a state: the state is kept up to the failure.\<close>

type_synonym ('e, 's, 'a) act = "'s \<Rightarrow> ('e + 'a) \<times> 's"

definition areturn :: "'a \<Rightarrow> ('e, 's, 'a) act" where "areturn x s = (Inr x, s)"

definition abail :: "'e \<Rightarrow> ('e, 's, 'a) act" where "abail e s = (Inl e, s)"

definition abind :: "('e, 's, 'a) act \<Rightarrow> ('a \<Rightarrow> ('e, 's, 'b) act) \<Rightarrow> ('e, 's, 'b) act" where
  "abind m f s = (case m s of (Inl e, s') \<Rightarrow> (Inl e, s') | (Inr x, s') \<Rightarrow> f x s')"

lemma abind_Inr: "abind m f s = (Inr y, s') \<longleftrightarrow> (\<exists>x s1. m s = (Inr x, s1) \<and> f x s1 = (Inr y, s'))"
  by (auto simp: abind_def split: prod.splits sum.splits)

lemma act_Inr [simp]:
  "areturn x s = (Inr y, s') \<longleftrightarrow> y = x \<and> s' = s" "\<not> abail e s = (Inr y, s')"
  by (auto simp: areturn_def abail_def)

section \<open>Guarded step systems\<close>

text \<open>
  The stateful components are deterministic step functions driven by events whose order the
  environment chooses. \<open>run_ok\<close> says that every event of a sequence arrives in a state
  that admits it; a step system has an invariant that each admitted step keeps, and the
  locale gives it for whole runs and for every state on the way.
\<close>

fun run_ok :: "('s \<Rightarrow> 'e \<Rightarrow> bool) \<Rightarrow> ('s \<Rightarrow> 'e \<Rightarrow> 's) \<Rightarrow> 's \<Rightarrow> 'e list \<Rightarrow> bool" where
  "run_ok adm step s [] = True"
| "run_ok adm step s (e # es) = (adm s e \<and> run_ok adm step (step s e) es)"

lemma run_ok_append:
  "run_ok adm step s (xs @ ys) \<longleftrightarrow> run_ok adm step s xs \<and> run_ok adm step (foldl step s xs) ys"
  by (induction xs arbitrary: s) auto

lemma run_ok_all: "run_ok (\<lambda>s e. True) step s es"
  by (induction es arbitrary: s) auto

locale step_system =
  fixes adm :: "'s \<Rightarrow> 'e \<Rightarrow> bool"
    and step :: "'s \<Rightarrow> 'e \<Rightarrow> 's"
    and inv :: "'s \<Rightarrow> bool"
  assumes step_inv: "inv s \<Longrightarrow> adm s e \<Longrightarrow> inv (step s e)"
begin

lemma run_inv: "inv s \<Longrightarrow> run_ok adm step s es \<Longrightarrow> inv (foldl step s es)"
proof (induction es arbitrary: s)
  case Nil
  then show ?case by simp
next
  case (Cons e es)
  then have "inv (step s e)" and "run_ok adm step (step s e) es"
    by (auto intro: step_inv)
  then show ?case by (auto intro: Cons.IH)
qed

lemma run_inv_along:
  "inv s \<Longrightarrow> run_ok adm step s (xs @ ys) \<Longrightarrow> inv (foldl step s xs)"
  by (auto simp: run_ok_append intro: run_inv)

end

text \<open>A measure that no admitted step lowers never falls over a run.\<close>

locale monotone_system = step_system adm step inv
  for adm :: "'s \<Rightarrow> 'e \<Rightarrow> bool" and step :: "'s \<Rightarrow> 'e \<Rightarrow> 's" and inv :: "'s \<Rightarrow> bool" +
  fixes level :: "'s \<Rightarrow> nat"
  assumes step_mono: "inv s \<Longrightarrow> adm s e \<Longrightarrow> level s \<le> level (step s e)"
begin

lemma run_mono: "inv s \<Longrightarrow> run_ok adm step s es \<Longrightarrow> level s \<le> level (foldl step s es)"
proof (induction es arbitrary: s)
  case Nil
  then show ?case by simp
next
  case (Cons e es)
  then have "level s \<le> level (step s e)" and "inv (step s e)" and "run_ok adm step (step s e) es"
    by (auto intro: step_mono step_inv)
  then show ?case using Cons.IH [of "step s e"] by simp
qed

end

text \<open>
  The processes that share something (a lock, named events, a heap) are step relations with
  arbitrary interleavings. Their invariant holds in every state that a start state reaches, and a
  property that the steps keep while a condition lasts is kept as long as it lasts.
\<close>

locale reachable_system =
  fixes step :: "'s \<Rightarrow> 's \<Rightarrow> bool"
    and start :: "'s \<Rightarrow> bool"
    and inv :: "'s \<Rightarrow> bool"
  assumes start_inv: "start s \<Longrightarrow> inv s"
    and step_keeps: "step s s' \<Longrightarrow> inv s \<Longrightarrow> inv s'"
begin

lemma reached_inv: "start s \<Longrightarrow> step\<^sup>*\<^sup>* s s' \<Longrightarrow> inv s'"
  by (rotate_tac, induction rule: rtranclp_induct) (auto intro: start_inv step_keeps)

lemma reached_while:
  assumes "step\<^sup>*\<^sup>* s s'" and "P s" and "\<not> over s'"
    and "\<And>s s'. step s s' \<Longrightarrow> over s \<Longrightarrow> over s'"
    and "\<And>s s'. step s s' \<Longrightarrow> P s \<Longrightarrow> \<not> over s' \<Longrightarrow> P s'"
  shows "P s'"
  using assms(1-3) by (induction rule: rtranclp_induct) (use assms(4,5) in blast)+

end

section \<open>Comparing byte strings without early exit\<close>

text \<open>
  Two places compare secrets by folding the exclusive or of the bytes: the password check of
  \<open>auth.rs\<close> and the capability check of \<open>devtunnel/client.rs\<close>. Their contract is that the
  comparison decides equality; clients of the contract reason about equality only.
\<close>

unbundle bit_operations_syntax

lemma word_or_eq_0: "(a OR b = 0) \<longleftrightarrow> a = 0 \<and> b = (0 :: 'a :: len word)"
  by (metis or.right_neutral or.left_neutral or_eq_0_iff)

lemma word_xor_eq_0: "(a XOR b = 0) \<longleftrightarrow> a = (b :: 'a :: len word)"
  by (metis xor_self_eq xor.assoc xor.right_neutral xor.left_neutral)

lemma fold_or_xor_0:
  assumes "length xs = length ys"
  shows "foldl (\<lambda>d (x, y). d OR (x XOR y)) d (zip xs ys) = (0 :: 'a :: len word)
    \<longleftrightarrow> d = 0 \<and> xs = ys"
  using assms
  by (induction xs ys arbitrary: d rule: list_induct2) (auto simp: word_or_eq_0 word_xor_eq_0)

locale byte_equality =
  fixes same :: "'a \<Rightarrow> 'a \<Rightarrow> bool"
    and bytes :: "'a \<Rightarrow> u8 list"
  assumes same_bytes: "same a b \<longleftrightarrow> bytes a = bytes b"
begin

lemma same_refl: "same a a"
  by (simp add: same_bytes)

lemma same_sym: "same a b \<longleftrightarrow> same b a"
  by (auto simp: same_bytes)

lemma same_length: "same a b \<Longrightarrow> length (bytes a) = length (bytes b)"
  by (simp add: same_bytes)

lemma same_iff_eq: "inj_on bytes A \<Longrightarrow> a \<in> A \<Longrightarrow> b \<in> A \<Longrightarrow> same a b \<longleftrightarrow> a = b"
  by (auto simp: same_bytes dest: inj_onD)

end

end
