(* ===== verification/Text.thy ===== *)
theory Text
  imports Prelude
begin

text \<open>
  Rust strings. A \<open>str\<close> is the list of its Unicode scalar values (a Rust \<open>char\<close> is a
  natural number below \<open>0x110000\<close> that is not a surrogate), so character classes, \<open>chars()\<close>
  and \<open>trim\<close> mean what they mean in the standard library; \<open>as_bytes\<close> and \<open>len\<close> go through
  the UTF-8 encoding. \<open>lit\<close> writes an ASCII literal. File system paths, environment values
  and command lines are such strings too.
\<close>

section \<open>Characters and literals\<close>

type_synonym ch = nat
type_synonym str = "nat list"

definition lit :: "string \<Rightarrow> str" where
  [text_eval]: "lit s = map of_char s"

definition is_whitespace :: "ch \<Rightarrow> bool" where
  [text_eval]: "is_whitespace c \<longleftrightarrow>
     (9 \<le> c \<and> c \<le> 13) \<or> c = 32 \<or> c = 0x85 \<or> c = 0xA0 \<or> c = 0x1680 \<or>
     (0x2000 \<le> c \<and> c \<le> 0x200A) \<or> c = 0x2028 \<or> c = 0x2029 \<or> c = 0x202F \<or>
     c = 0x205F \<or> c = 0x3000"

definition is_control :: "ch \<Rightarrow> bool" where
  [text_eval]: "is_control c \<longleftrightarrow> c < 32 \<or> (127 \<le> c \<and> c < 160)"

definition is_ascii_digit :: "ch \<Rightarrow> bool" where
  [text_eval]: "is_ascii_digit c \<longleftrightarrow> 48 \<le> c \<and> c \<le> 57"

definition is_ascii_lowercase :: "ch \<Rightarrow> bool" where
  [text_eval]: "is_ascii_lowercase c \<longleftrightarrow> 97 \<le> c \<and> c \<le> 122"

definition is_ascii_uppercase :: "ch \<Rightarrow> bool" where
  [text_eval]: "is_ascii_uppercase c \<longleftrightarrow> 65 \<le> c \<and> c \<le> 90"

definition is_ascii_alphanumeric :: "ch \<Rightarrow> bool" where
  [text_eval]: "is_ascii_alphanumeric c \<longleftrightarrow>
     is_ascii_lowercase c \<or> is_ascii_uppercase c \<or> is_ascii_digit c"

definition to_ascii_lower :: "ch \<Rightarrow> ch" where
  [text_eval]: "to_ascii_lower c = (if is_ascii_uppercase c then c + 32 else c)"

definition to_ascii_lowercase :: "str \<Rightarrow> str" where
  [text_eval]: "to_ascii_lowercase s = map to_ascii_lower s"

definition eq_ignore_ascii_case :: "str \<Rightarrow> str \<Rightarrow> bool" where
  [text_eval]: "eq_ignore_ascii_case a b \<longleftrightarrow> to_ascii_lowercase a = to_ascii_lowercase b"

lemma to_ascii_lower_idem [simp]: "to_ascii_lower (to_ascii_lower c) = to_ascii_lower c"
  by (auto simp: to_ascii_lower_def is_ascii_uppercase_def)

lemma to_ascii_lowercase_idem [simp]:
  "to_ascii_lowercase (to_ascii_lowercase s) = to_ascii_lowercase s"
  by (simp add: to_ascii_lowercase_def)

lemma is_whitespace_lower: "is_whitespace (to_ascii_lower c) = is_whitespace c"
  by (auto simp: to_ascii_lower_def is_ascii_uppercase_def is_whitespace_def)

section \<open>Trimming, splitting, searching\<close>

definition trim_start :: "str \<Rightarrow> str" where
  [text_eval]: "trim_start s = dropWhile is_whitespace s"

definition trim_end :: "str \<Rightarrow> str" where
  [text_eval]: "trim_end s = rev (dropWhile is_whitespace (rev s))"

definition trim :: "str \<Rightarrow> str" where
  [text_eval]: "trim s = trim_end (trim_start s)"

definition starts_with :: "str \<Rightarrow> str \<Rightarrow> bool" where
  [text_eval]: "starts_with s p \<longleftrightarrow> take (length p) s = p"

definition ends_with :: "str \<Rightarrow> str \<Rightarrow> bool" where
  [text_eval]: "ends_with s p \<longleftrightarrow> starts_with (rev s) (rev p)"

definition strip_prefix :: "str \<Rightarrow> str \<Rightarrow> str option" where
  [text_eval]: "strip_prefix p s = (if starts_with s p then Some (drop (length p) s) else None)"

definition strip_suffix :: "str \<Rightarrow> str \<Rightarrow> str option" where
  [text_eval]: "strip_suffix p s =
     (if ends_with s p then Some (take (length s - length p) s) else None)"

fun contains :: "str \<Rightarrow> str \<Rightarrow> bool" where
  "contains [] p = (p = [])"
| "contains (c # s) p = (starts_with (c # s) p \<or> contains s p)"

text \<open>\<open>split_pred\<close> is \<open>str::split\<close> with a character predicate: always at least one piece.\<close>

fun split_pred :: "(ch \<Rightarrow> bool) \<Rightarrow> str \<Rightarrow> str list" where
  "split_pred P [] = [[]]"
| "split_pred P (c # s) =
     (if P c then [] # split_pred P s
      else (case split_pred P s of [] \<Rightarrow> [[c]] | w # ws \<Rightarrow> (c # w) # ws))"

definition split_char :: "ch \<Rightarrow> str \<Rightarrow> str list" where
  [text_eval]: "split_char c s = split_pred (\<lambda>x. x = c) s"

definition split_whitespace :: "str \<Rightarrow> str list" where
  [text_eval]: "split_whitespace s = filter (\<lambda>w. w \<noteq> []) (split_pred is_whitespace s)"

text \<open>\<open>split_once\<close> with a predicate, \<open>split_once\<close> with a string, \<open>rsplit_once\<close>.\<close>

definition split_once_pred :: "(ch \<Rightarrow> bool) \<Rightarrow> str \<Rightarrow> (str \<times> str) option" where
  [text_eval]: "split_once_pred P s =
     (case dropWhile (\<lambda>c. \<not> P c) s of
        [] \<Rightarrow> None
      | _ # rest \<Rightarrow> Some (takeWhile (\<lambda>c. \<not> P c) s, rest))"

fun split_once_str :: "str \<Rightarrow> str \<Rightarrow> (str \<times> str) option" where
  "split_once_str p [] = (if p = [] then Some ([], []) else None)"
| "split_once_str p (c # s) =
     (if starts_with (c # s) p then Some ([], drop (length p) (c # s))
      else map_option (\<lambda>(a, b). (c # a, b)) (split_once_str p s))"

definition rsplit_once :: "ch \<Rightarrow> str \<Rightarrow> (str \<times> str) option" where
  [text_eval]: "rsplit_once c s =
     map_option (\<lambda>(a, b). (rev b, rev a)) (split_once_pred (\<lambda>x. x = c) (rev s))"

text \<open>\<open>str::lines\<close>: split after each newline, then drop the newline and one carriage
  return before it.\<close>

fun split_inclusive_nl :: "str \<Rightarrow> str list" where
  "split_inclusive_nl [] = []"
| "split_inclusive_nl (c # s) =
     (if c = 10 then [c] # split_inclusive_nl s
      else (case split_inclusive_nl s of [] \<Rightarrow> [[c]] | w # ws \<Rightarrow> (c # w) # ws))"

definition strip_line_end :: "str \<Rightarrow> str" where
  [text_eval]: "strip_line_end l =
     (case strip_suffix [10] l of
        None \<Rightarrow> l
      | Some l' \<Rightarrow> (case strip_suffix [13] l' of None \<Rightarrow> l' | Some l'' \<Rightarrow> l''))"

definition str_lines :: "str \<Rightarrow> str list" where
  [text_eval]: "str_lines s = map strip_line_end (split_inclusive_nl s)"

fun join_with :: "str \<Rightarrow> str list \<Rightarrow> str" where
  "join_with sep [] = []"
| "join_with sep [w] = w"
| "join_with sep (w # ws) = w @ sep @ join_with sep ws"

lemma split_pred_nonempty [simp]: "split_pred P s \<noteq> []"
  by (induction s) (auto split: list.splits)

lemma split_pred_no_sep: "w \<in> set (split_pred P s) \<Longrightarrow> c \<in> set w \<Longrightarrow> \<not> P c"
  by (induction s arbitrary: w) (fastforce split: list.splits if_splits)+

lemma split_pred_word: "\<forall>c \<in> set w. \<not> P c \<Longrightarrow> split_pred P w = [w]"
  by (induction w) auto

lemma split_pred_append:
  "\<forall>c \<in> set w. \<not> P c \<Longrightarrow> P x \<Longrightarrow> split_pred P (w @ x # s) = w # split_pred P s"
  by (induction w) auto

lemma join_with_Cons_hd: "join_with sep ((c # w) # ws) = c # join_with sep (w # ws)"
  by (cases ws) auto

lemma join_split_char: "join_with [c] (split_char c s) = s"
  unfolding split_char_def
  by (induction s) (auto simp: join_with_Cons_hd neq_Nil_conv split: list.splits)

lemma split_whitespace_words:
  "w \<in> set (split_whitespace s) \<Longrightarrow> w \<noteq> [] \<and> (\<forall>c \<in> set w. \<not> is_whitespace c)"
  by (auto simp: split_whitespace_def dest: split_pred_no_sep)

lemma starts_with_iff_prefix: "starts_with s p \<longleftrightarrow> prefix p s"
  by (simp add: starts_with_def take_eq_prefix)

lemma strip_prefix_Some: "strip_prefix p s = Some r \<longleftrightarrow> s = p @ r"
  by (auto simp: strip_prefix_def starts_with_def) (metis append_take_drop_id)

lemma strip_suffix_Some: "strip_suffix p s = Some r \<longleftrightarrow> s = r @ p"
proof
  assume "strip_suffix p s = Some r"
  then have "prefix (rev p) (rev s)" and r: "r = take (length s - length p) s"
    by (auto simp: strip_suffix_def ends_with_def starts_with_iff_prefix split: if_splits)
  then obtain t where "rev s = rev p @ t" by (auto simp: prefix_def)
  then have "s = rev t @ p" by (metis rev_append rev_rev_ident)
  with r show "s = r @ p" by simp
next
  assume "s = r @ p"
  then show "strip_suffix p s = Some r"
    by (simp add: strip_suffix_def ends_with_def starts_with_def)
qed

lemma contains_iff: "contains s p \<longleftrightarrow> (\<exists>a b. s = a @ p @ b)"
proof (induction s)
  case Nil
  then show ?case by auto
next
  case (Cons c s)
  have "(\<exists>a b. c # s = a @ p @ b) \<longleftrightarrow> (\<exists>b. c # s = p @ b) \<or> (\<exists>a b. s = a @ p @ b)"
    by (metis append_Cons append_Nil list.exhaust_sel list.sel(1) list.sel(3))
  then show ?case using Cons by (auto simp: starts_with_iff_prefix prefix_def)
qed

section \<open>Numbers\<close>

text \<open>\<open>str::parse\<close> for an unsigned type with \<open>bound\<close> values: one optional plus sign, at
  least one decimal digit, nothing else, and no overflow.\<close>

definition digits_value :: "str \<Rightarrow> nat" where
  [text_eval]: "digits_value s = foldl (\<lambda>n c. 10 * n + (c - 48)) 0 s"

definition parse_uint :: "nat \<Rightarrow> str \<Rightarrow> nat option" where
  [text_eval]: "parse_uint bound s =
     (let ds = (case s of [] \<Rightarrow> [] | c # r \<Rightarrow> if c = 43 then r else s)
      in if ds \<noteq> [] \<and> list_all is_ascii_digit ds \<and> digits_value ds < bound
         then Some (digits_value ds) else None)"

definition parse_u16 :: "str \<Rightarrow> u16 option" where
  [text_eval]: "parse_u16 s = map_option of_nat (parse_uint (2 ^ 16) s)"

definition parse_u32 :: "str \<Rightarrow> u32 option" where
  [text_eval]: "parse_u32 s = map_option of_nat (parse_uint (2 ^ 32) s)"

definition parse_u64 :: "str \<Rightarrow> u64 option" where
  [text_eval]: "parse_u64 s = map_option of_nat (parse_uint (2 ^ 64) s)"

text \<open>\<open>to_string\<close> of an unsigned number.\<close>

fun show_nat :: "nat \<Rightarrow> str" where
  "show_nat n = (if n < 10 then [48 + n] else show_nat (n div 10) @ [48 + n mod 10])"

declare show_nat.simps [simp del]

lemma digits_value_snoc: "digits_value (s @ [c]) = 10 * digits_value s + (c - 48)"
  by (simp add: digits_value_def)

lemma show_nat_digits: "list_all is_ascii_digit (show_nat n)"
proof (induction n rule: show_nat.induct)
  case (1 n)
  have d: "k < 10 \<Longrightarrow> is_ascii_digit (48 + k)" for k
    by (simp add: is_ascii_digit_def)
  from 1 show ?case by (subst show_nat.simps) (simp add: d)
qed

lemma show_nat_nonempty [simp]: "show_nat n \<noteq> []"
  by (subst show_nat.simps) simp

lemma digits_value_show [simp]: "digits_value (show_nat n) = n"
proof (induction n rule: show_nat.induct)
  case (1 n)
  show ?case
  proof (cases "n < 10")
    case True
    then show ?thesis by (subst show_nat.simps) (simp add: digits_value_def)
  next
    case False
    with 1 show ?thesis by (subst show_nat.simps) (simp add: digits_value_snoc)
  qed
qed

lemma show_nat_inj: "show_nat m = show_nat n \<longleftrightarrow> m = n"
  by (metis digits_value_show)

lemma show_nat_no_plus: "show_nat n = c # r \<Longrightarrow> c \<noteq> 43"
  using show_nat_digits [of n] by (auto simp: is_ascii_digit_def)

lemma parse_uint_show: "n < bound \<Longrightarrow> parse_uint bound (show_nat n) = Some n"
proof -
  assume "n < bound"
  moreover have "(case show_nat n of [] \<Rightarrow> [] | c # r \<Rightarrow> if c = 43 then r else show_nat n) = show_nat n"
    using show_nat_no_plus [of n] by (auto split: list.splits)
  ultimately show ?thesis
    by (simp add: parse_uint_def show_nat_digits)
qed

lemma parse_uint_bound: "parse_uint bound s = Some n \<Longrightarrow> n < bound"
  by (auto simp: parse_uint_def Let_def split: if_splits)

end
