(* ===== verification/Net.thy ===== *)
theory Net
  imports Text "HOL-Library.Monad_Syntax"
begin

text \<open>
  The address types of \<open>std::net\<close> and their parsers, which the configuration file
  (\<open>ListenAddress\<close>), the command line (\<open>--bind\<close>) and the connector output lines use. The
  parsers follow the standard library's recursive descent: each reader either consumes a
  prefix or fails without consuming anything, and a parse must use the whole string.
\<close>

section \<open>Addresses\<close>

datatype ip_addr =
    V4 u8 u8 u8 u8
  | V6 "u16 list"

record socket_addr =
  sa_ip :: ip_addr
  sa_port :: u16
  sa_scope :: u32

definition ipv4_localhost :: ip_addr where
  "ipv4_localhost = V4 127 0 0 1"

fun is_loopback :: "ip_addr \<Rightarrow> bool" where
  "is_loopback (V4 a b c d) = (a = 127)"
| "is_loopback (V6 gs) = (gs = [0, 0, 0, 0, 0, 0, 0, 1])"

fun is_unspecified :: "ip_addr \<Rightarrow> bool" where
  "is_unspecified (V4 a b c d) = (a = 0 \<and> b = 0 \<and> c = 0 \<and> d = 0)"
| "is_unspecified (V6 gs) = (gs = [0, 0, 0, 0, 0, 0, 0, 0])"

fun is_ipv4 :: "ip_addr \<Rightarrow> bool" where
  "is_ipv4 (V4 a b c d) = True"
| "is_ipv4 (V6 gs) = False"

text \<open>A V6 value has exactly eight groups.\<close>

fun wf_ip :: "ip_addr \<Rightarrow> bool" where
  "wf_ip (V4 a b c d) = True"
| "wf_ip (V6 gs) = (length gs = 8)"

section \<open>Readers\<close>

definition digit_of :: "nat \<Rightarrow> ch \<Rightarrow> nat option" where
  [text_eval]: "digit_of radix c =
     (let d = (if is_ascii_digit c then c - 48
               else if 97 \<le> c \<and> c \<le> 122 then c - 87
               else if 65 \<le> c \<and> c \<le> 90 then c - 55
               else 36)
      in if d < radix then Some d else None)"

text \<open>\<open>read_number\<close>: all digits that follow, at most \<open>maxd\<close> of them when a limit is given, no
  leading zero unless allowed, and a value the target type can hold.\<close>

definition read_number :: "nat \<Rightarrow> nat option \<Rightarrow> bool \<Rightarrow> nat \<Rightarrow> str \<Rightarrow> (nat \<times> str) option" where
  [text_eval]: "read_number radix maxd zero_prefix bound s =
     (let ds = takeWhile (\<lambda>c. digit_of radix c \<noteq> None) s;
          v = foldl (\<lambda>n c. radix * n + the (digit_of radix c)) 0 ds
      in if ds = [] then None
         else if (case maxd of None \<Rightarrow> False | Some m \<Rightarrow> m < length ds) then None
         else if \<not> zero_prefix \<and> hd ds = 48 \<and> 1 < length ds then None
         else if v < bound then Some (v, drop (length ds) s) else None)"

definition read_given_char :: "ch \<Rightarrow> str \<Rightarrow> str option" where
  [text_eval]: "read_given_char c s = (case s of x # r \<Rightarrow> if x = c then Some r else None | [] \<Rightarrow> None)"

text \<open>\<open>read_separator\<close>: the separator is required from the second element on.\<close>

definition read_separator ::
    "ch \<Rightarrow> nat \<Rightarrow> (str \<Rightarrow> ('a \<times> str) option) \<Rightarrow> str \<Rightarrow> ('a \<times> str) option" where
  [text_eval]: "read_separator sep i p s =
     (if i = 0 then p s else Option.bind (read_given_char sep s) p)"

definition read_octet :: "nat \<Rightarrow> str \<Rightarrow> (nat \<times> str) option" where
  [text_eval]: "read_octet i = read_separator 46 i (read_number 10 (Some 3) False 256)"

definition read_ipv4 :: "str \<Rightarrow> ((nat \<times> nat \<times> nat \<times> nat) \<times> str) option" where
  [text_eval]: "read_ipv4 s = do {
     (a, s) \<leftarrow> read_octet 0 s;
     (b, s) \<leftarrow> read_octet 1 s;
     (c, s) \<leftarrow> read_octet 2 s;
     (d, s) \<leftarrow> read_octet 3 s;
     Some ((a, b, c, d), s)
   }"

definition v4_of :: "nat \<times> nat \<times> nat \<times> nat \<Rightarrow> ip_addr" where
  [text_eval]: "v4_of q = (case q of (a, b, c, d) \<Rightarrow> V4 (of_nat a) (of_nat b) (of_nat c) (of_nat d))"

text \<open>\<open>read_groups i k s\<close>: up to \<open>k\<close> more groups after the \<open>i\<close> already read; an embedded
  IPv4 address ends the run and fills two groups.\<close>

fun read_groups :: "nat \<Rightarrow> nat \<Rightarrow> str \<Rightarrow> nat list \<Rightarrow> nat list \<times> bool \<times> str" where
  "read_groups i 0 s acc = (acc, False, s)"
| "read_groups i (Suc k) s acc =
     (case (if 1 \<le> k then read_separator 58 i read_ipv4 s else None) of
        Some ((a, b, c, d), s') \<Rightarrow> (acc @ [a * 256 + b, c * 256 + d], True, s')
      | None \<Rightarrow>
          (case read_separator 58 i (read_number 16 (Some 4) True 65536) s of
             Some (g, s') \<Rightarrow> read_groups (Suc i) k s' (acc @ [g])
           | None \<Rightarrow> (acc, False, s)))"

lemma read_groups_numeral [text_eval]:
  "read_groups i (numeral n) s acc =
     (let k = pred_numeral n
      in case (if 1 \<le> k then read_separator 58 i read_ipv4 s else None) of
        Some ((a, b, c, d), s') \<Rightarrow> (acc @ [a * 256 + b, c * 256 + d], True, s')
      | None \<Rightarrow>
          (case read_separator 58 i (read_number 16 (Some 4) True 65536) s of
             Some (g, s') \<Rightarrow> read_groups (Suc i) k s' (acc @ [g])
           | None \<Rightarrow> (acc, False, s)))"
  unfolding numeral_eq_Suc [of n] Let_def by (rule read_groups.simps)

lemma replicate_numeral [text_eval]:
  "replicate (numeral n) x = x # replicate (pred_numeral n) x"
  unfolding numeral_eq_Suc [of n] by simp

definition read_ipv6 :: "str \<Rightarrow> (nat list \<times> str) option" where
  [text_eval]: "read_ipv6 s =
     (case read_groups 0 8 s [] of (head, v4, s1) \<Rightarrow>
        if length head = 8 then Some (head, s1)
        else if v4 then None
        else do {
          s2 \<leftarrow> read_given_char 58 s1;
          s3 \<leftarrow> read_given_char 58 s2;
          (case read_groups 0 (7 - length head) s3 [] of (tail, _, s4) \<Rightarrow>
             Some (head @ replicate (8 - length head - length tail) 0 @ tail, s4))
        })"

definition read_ip :: "str \<Rightarrow> (ip_addr \<times> str) option" where
  [text_eval]: "read_ip s =
     (case read_ipv4 s of
        Some (q, s') \<Rightarrow> Some (v4_of q, s')
      | None \<Rightarrow> map_option (\<lambda>(gs, s'). (V6 (map of_nat gs), s')) (read_ipv6 s))"

definition read_port :: "str \<Rightarrow> (nat \<times> str) option" where
  [text_eval]: "read_port s = do { s \<leftarrow> read_given_char 58 s; read_number 10 None True 65536 s }"

definition read_scope :: "str \<Rightarrow> (nat \<times> str) option" where
  [text_eval]: "read_scope s =
     do { s \<leftarrow> read_given_char 37 s; read_number 10 None True (2 ^ 32) s }"

definition read_socket_v4 :: "str \<Rightarrow> (socket_addr \<times> str) option" where
  [text_eval]: "read_socket_v4 s = do {
     (q, s) \<leftarrow> read_ipv4 s;
     (p, s) \<leftarrow> read_port s;
     Some (\<lparr>sa_ip = v4_of q, sa_port = of_nat p, sa_scope = 0\<rparr>, s)
   }"

definition read_socket_v6 :: "str \<Rightarrow> (socket_addr \<times> str) option" where
  [text_eval]: "read_socket_v6 s = do {
     s \<leftarrow> read_given_char 91 s;
     (gs, s) \<leftarrow> read_ipv6 s;
     let (sc, s) = (case read_scope s of Some r \<Rightarrow> r | None \<Rightarrow> (0, s));
     s \<leftarrow> read_given_char 93 s;
     (p, s) \<leftarrow> read_port s;
     Some (\<lparr>sa_ip = V6 (map of_nat gs), sa_port = of_nat p, sa_scope = of_nat sc\<rparr>, s)
   }"

definition parse_all :: "(str \<Rightarrow> ('a \<times> str) option) \<Rightarrow> str \<Rightarrow> 'a option" where
  [text_eval]: "parse_all p s =
     (case p s of Some (x, r) \<Rightarrow> if r = [] then Some x else None | None \<Rightarrow> None)"

text \<open>\<open>str::parse::<IpAddr>()\<close> and \<open>str::parse::<SocketAddr>()\<close>.\<close>

definition parse_ip :: "str \<Rightarrow> ip_addr option" where
  [text_eval]: "parse_ip = parse_all read_ip"

definition parse_socket_addr :: "str \<Rightarrow> socket_addr option" where
  [text_eval]: "parse_socket_addr = parse_all
     (\<lambda>s. case read_socket_v4 s of Some r \<Rightarrow> Some r | None \<Rightarrow> read_socket_v6 s)"

section \<open>Well-formed results\<close>

lemma read_groups_length:
  "read_groups i k s acc = (gs, v4, r) \<Longrightarrow> length gs \<le> length acc + k"
  by (induction i k s acc rule: read_groups.induct)
     (fastforce split: option.splits prod.splits if_splits)+

lemma read_ipv6_length: "read_ipv6 s = Some (gs, r) \<Longrightarrow> length gs = 8"
  by (auto simp: read_ipv6_def split: prod.splits if_splits Option.bind_splits
      dest!: read_groups_length)

lemma parse_ip_wf: "parse_ip s = Some ip \<Longrightarrow> wf_ip ip"
  by (auto simp: parse_ip_def parse_all_def read_ip_def v4_of_def
      split: option.splits prod.splits if_splits dest: read_ipv6_length)

lemma parse_socket_addr_wf: "parse_socket_addr s = Some a \<Longrightarrow> wf_ip (sa_ip a)"
  by (auto simp: parse_socket_addr_def parse_all_def read_socket_v4_def read_socket_v6_def v4_of_def
      Let_def split: option.splits prod.splits if_splits Option.bind_splits
      dest: read_ipv6_length)

lemma ipv4_localhost_loopback [simp]: "is_loopback ipv4_localhost"
  by (simp add: ipv4_localhost_def)

end
