(* ===== verification/Paths.thy ===== *)
theory Paths
  imports Text
begin

text \<open>
  \<open>std::path\<close> on Unix, where a path is its text. \<open>components\<close> parses it as the standard
  library does (repeated separators and interior or trailing \<open>.\<close> vanish, a leading \<open>.\<close> of a
  relative path stays), and \<open>push\<close>, \<open>pop\<close>, \<open>starts_with\<close>, \<open>strip_prefix\<close>, \<open>parent\<close>,
  \<open>file_name\<close> and \<open>extension\<close> are defined on the text through it. The lemmas relate the text
  operations to component lists in canonical form.
\<close>

section \<open>Components\<close>

type_synonym path = str

datatype component = RootDir | CurDir | ParentDir | Normal str

abbreviation sep_ch :: ch where "sep_ch \<equiv> 47"
abbreviation dot :: str where "dot \<equiv> [46]"
abbreviation dotdot :: str where "dotdot \<equiv> [46, 46]"

definition has_root :: "path \<Rightarrow> bool" where
  [text_eval]: "has_root p \<longleftrightarrow> (case p of [] \<Rightarrow> False | c # _ \<Rightarrow> c = sep_ch)"

definition is_absolute :: "path \<Rightarrow> bool" where
  [text_eval]: "is_absolute p \<longleftrightarrow> has_root p"

definition skip_seg :: "str \<Rightarrow> bool" where
  [text_eval]: "skip_seg w \<longleftrightarrow> w = [] \<or> w = dot"

definition seg_comp :: "str \<Rightarrow> component" where
  [text_eval]: "seg_comp w = (if w = dotdot then ParentDir else Normal w)"

definition body_comps :: "str list \<Rightarrow> component list" where
  [text_eval]: "body_comps ws = map seg_comp (filter (\<lambda>w. \<not> skip_seg w) ws)"

definition components :: "path \<Rightarrow> component list" where
  [text_eval]: "components p =
     (let ws = split_char sep_ch p
      in if has_root p then RootDir # body_comps (tl ws)
         else if hd ws = dot then CurDir # body_comps (tl ws)
         else body_comps ws)"

section \<open>Operations\<close>

definition path_push :: "path \<Rightarrow> path \<Rightarrow> path" where
  [text_eval]: "path_push p q =
     (if is_absolute q then q
      else if p \<noteq> [] \<and> last p \<noteq> sep_ch then p @ [sep_ch] @ q
      else p @ q)"

abbreviation path_join :: "path \<Rightarrow> path \<Rightarrow> path" where
  "path_join p q \<equiv> path_push p q"

definition path_starts_with :: "path \<Rightarrow> path \<Rightarrow> bool" where
  [text_eval]: "path_starts_with p base \<longleftrightarrow>
     take (length (components base)) (components p) = components base"

text \<open>Dropping trailing segments that carry no component, keeping what precedes them.\<close>

definition rtrim_segs :: "str list \<Rightarrow> str list" where
  [text_eval]: "rtrim_segs ws = rev (dropWhile skip_seg (rev ws))"

text \<open>\<open>consume n ws\<close> passes \<open>n\<close> components of the segments \<open>ws\<close>.\<close>

fun consume :: "nat \<Rightarrow> str list \<Rightarrow> str list" where
  "consume 0 ws = ws"
| "consume (Suc n) [] = []"
| "consume (Suc n) (w # ws) = (if skip_seg w then consume (Suc n) ws else consume n ws)"

definition path_strip_prefix :: "path \<Rightarrow> path \<Rightarrow> path option" where
  [text_eval]: "path_strip_prefix p base =
     (let n = length (components base); ws = split_char sep_ch p
      in if \<not> path_starts_with p base then None
         else if n = 0 then
           Some (if has_root p then sep_ch # join_with [sep_ch] (rtrim_segs (tl ws))
                 else if hd ws = dot then join_with [sep_ch] (dot # rtrim_segs (tl ws))
                 else join_with [sep_ch] (rtrim_segs ws))
         else
           (let rest = (if has_root p \<or> hd ws = dot then consume (n - 1) (tl ws)
                        else consume n ws)
            in Some (join_with [sep_ch] (rtrim_segs (dropWhile skip_seg rest)))))"

text \<open>\<open>Path::parent\<close>: the text before the last component, if that is not the root.\<close>

definition path_parent :: "path \<Rightarrow> path option" where
  [text_eval]: "path_parent p =
     (let ws = split_char sep_ch p; cs = components p
      in if cs = [] \<or> last cs = RootDir then None
         else if has_root p then
           Some (sep_ch # join_with [sep_ch] (rtrim_segs (butlast (rtrim_segs (tl ws)))))
         else if hd ws = dot then
           (if length cs = 1 then Some []
            else Some (join_with [sep_ch] (dot # rtrim_segs (butlast (rtrim_segs (tl ws))))))
         else Some (join_with [sep_ch] (rtrim_segs (butlast (rtrim_segs ws)))))"

definition path_pop :: "path \<Rightarrow> path" where
  [text_eval]: "path_pop p = (case path_parent p of None \<Rightarrow> p | Some q \<Rightarrow> q)"

definition file_name :: "path \<Rightarrow> str option" where
  [text_eval]: "file_name p =
     (case components p of
        [] \<Rightarrow> None
      | cs \<Rightarrow> (case last cs of Normal w \<Rightarrow> Some w | _ \<Rightarrow> None))"

definition extension :: "path \<Rightarrow> str option" where
  [text_eval]: "extension p = Option.bind (file_name p)
     (\<lambda>f. Option.bind (rsplit_once 46 f)
       (\<lambda>(before, after). if before = [] then None else Some after))"

section \<open>Canonical texts\<close>

text \<open>A name that stands for itself as one component.\<close>

definition good_name :: "str \<Rightarrow> bool" where
  "good_name w \<longleftrightarrow> w \<noteq> [] \<and> w \<noteq> dot \<and> w \<noteq> dotdot \<and> sep_ch \<notin> set w"

fun plain :: "component \<Rightarrow> bool" where
  "plain (Normal w) = good_name w"
| "plain _ = False"

definition canonical :: "component list \<Rightarrow> bool" where
  "canonical cs \<longleftrightarrow> list_all plain (case cs of RootDir # r \<Rightarrow> r | _ \<Rightarrow> cs)"

fun comp_text :: "component \<Rightarrow> str" where
  "comp_text (Normal w) = w"
| "comp_text RootDir = [sep_ch]"
| "comp_text CurDir = dot"
| "comp_text ParentDir = dotdot"

definition render :: "component list \<Rightarrow> path" where
  "render cs =
     (case cs of
        RootDir # r \<Rightarrow> sep_ch # join_with [sep_ch] (map comp_text r)
      | _ \<Rightarrow> join_with [sep_ch] (map comp_text cs))"

lemma has_root_simps [simp]:
  "has_root [] = False"
  "has_root (c # s) = (c = sep_ch)"
  by (simp_all add: has_root_def)

lemma split_char_join:
  assumes "ws \<noteq> []" and "\<forall>w \<in> set ws. sep_ch \<notin> set w"
  shows "split_char sep_ch (join_with [sep_ch] ws) = ws"
  using assms
proof (induction "[sep_ch]" ws rule: join_with.induct)
  case (3 w v vs)
  have "\<forall>c \<in> set w. c \<noteq> sep_ch" using 3(3) by auto
  then show ?case
    using 3 by (simp add: split_char_def split_pred_append)
qed (auto simp: split_char_def intro!: split_pred_word)

lemma split_char_no_sep: "w \<in> set (split_char c s) \<Longrightarrow> c \<notin> set w"
  using split_pred_no_sep [of w "\<lambda>x. x = c" s c] by (auto simp: split_char_def)

lemma hd_split_root: "has_root p \<Longrightarrow> split_char sep_ch p = [] # split_char sep_ch (tl p)"
  by (cases p) (auto simp: split_char_def)

lemma components_plain:
  "c \<in> set (components p) \<Longrightarrow> plain c \<or> c \<in> {RootDir, CurDir, ParentDir}"
proof -
  have "plain c \<or> c = ParentDir" if "c \<in> set (body_comps ws)" "set ws \<subseteq> set (split_char sep_ch p)" for ws
    using that split_char_no_sep [of _ sep_ch p]
    by (auto simp: body_comps_def seg_comp_def skip_seg_def good_name_def)
  moreover have "set (tl (split_char sep_ch p)) \<subseteq> set (split_char sep_ch p)"
    by (cases "split_char sep_ch p") auto
  ultimately show "c \<in> set (components p) \<Longrightarrow> ?thesis"
    by (auto simp: components_def Let_def split: if_splits)
qed

text \<open>The root appears only in front.\<close>

lemma body_comps_no_root: "RootDir \<notin> set (body_comps ws)"
  by (auto simp: body_comps_def seg_comp_def)

lemma components_no_inner_root: "RootDir \<notin> set (tl (components p))"
  using body_comps_no_root [of "tl (split_char sep_ch p)"] body_comps_no_root [of "split_char sep_ch p"]
  by (cases "body_comps (split_char sep_ch p)") (auto simp: components_def Let_def)

lemma plain_text:
  "plain c \<Longrightarrow> seg_comp (comp_text c) = c \<and> \<not> skip_seg (comp_text c) \<and> sep_ch \<notin> set (comp_text c)"
  by (cases c) (auto simp: seg_comp_def skip_seg_def good_name_def)

lemma plain_texts:
  assumes "list_all plain cs"
  shows "body_comps (map comp_text cs) = cs"
    and "\<forall>w \<in> set (map comp_text cs). sep_ch \<notin> set w"
    and "rtrim_segs (map comp_text cs) = map comp_text cs"
    and "butlast (map comp_text cs) = map comp_text (butlast cs)"
proof -
  show "body_comps (map comp_text cs) = cs"
    using assms by (induction cs) (auto simp: body_comps_def plain_text)
  show "\<forall>w \<in> set (map comp_text cs). sep_ch \<notin> set w"
    using assms by (auto simp: list_all_iff plain_text)
  show "rtrim_segs (map comp_text cs) = map comp_text cs"
  proof (cases cs rule: rev_cases)
    case (snoc r c)
    then show ?thesis using assms plain_text [of c] by (simp add: rtrim_segs_def)
  qed (simp add: rtrim_segs_def)
qed (simp add: map_butlast)

lemma split_join_texts:
  assumes "list_all plain cs"
  shows "split_char sep_ch (join_with [sep_ch] (map comp_text cs)) =
    (if cs = [] then [[]] else map comp_text cs)"
  using split_char_join [of "map comp_text cs"] plain_texts(2) [OF assms]
  by (auto simp: split_char_def)

lemma join_texts_no_root:
  assumes "list_all plain cs"
  shows "\<not> has_root (join_with [sep_ch] (map comp_text cs))"
proof (cases cs)
  case (Cons c r)
  then have "comp_text c \<noteq> []" "sep_ch \<notin> set (comp_text c)"
    using assms plain_text [of c] by (auto simp: skip_seg_def)
  then show ?thesis using Cons
    by (cases r; cases "comp_text c") auto
qed simp

lemma canonical_cases:
  assumes "canonical cs"
  obtains (root) r where "cs = RootDir # r" "list_all plain r"
  | (rel) "list_all plain cs" "RootDir \<notin> set cs"
proof (cases "\<exists>r. cs = RootDir # r")
  case True
  then show ?thesis using assms that(1) by (auto simp: canonical_def)
next
  case False
  then have "list_all plain cs"
    using assms by (auto simp: canonical_def split: list.splits component.splits)
  moreover from this have "RootDir \<notin> set cs" by (auto simp: list_all_iff)
  ultimately show ?thesis using that(2) by blast
qed

lemma render_simps:
  "render (RootDir # r) = sep_ch # join_with [sep_ch] (map comp_text r)"
  "RootDir \<notin> set cs \<Longrightarrow> render cs = join_with [sep_ch] (map comp_text cs)"
  by (auto simp: render_def split: list.splits component.splits)

lemma components_render: "canonical cs \<Longrightarrow> components (render cs) = cs"
proof (erule canonical_cases)
  fix r assume r: "cs = RootDir # r" "list_all plain r"
  have "body_comps [[]] = []" by (simp add: body_comps_def skip_seg_def)
  with r show ?thesis
    by (auto simp: render_simps components_def Let_def hd_split_root split_join_texts plain_texts(1))
next
  assume r: "list_all plain cs" "RootDir \<notin> set cs"
  have "comp_text (hd cs) \<noteq> dot" if "cs \<noteq> []"
    using that r(1) plain_text [of "hd cs"] by (cases cs) (auto simp: skip_seg_def)
  moreover have "body_comps [[]] = []" by (simp add: body_comps_def skip_seg_def)
  ultimately show ?thesis using r
    by (auto simp: render_simps components_def Let_def join_texts_no_root split_join_texts
        plain_texts(1) list.map_sel(1))
qed

lemma join_with_snoc:
  "ws \<noteq> [] \<Longrightarrow> join_with sep (ws @ [w]) = join_with sep ws @ sep @ w"
  by (induction sep ws rule: join_with.induct) auto

lemma last_join_texts:
  assumes "list_all plain cs" "cs \<noteq> []"
  shows "join_with [sep_ch] (map comp_text cs) \<noteq> [] \<and>
    last (join_with [sep_ch] (map comp_text cs)) \<noteq> sep_ch"
proof -
  obtain r c where c: "cs = r @ [c]" using assms(2) by (cases cs rule: rev_cases) auto
  then have "comp_text c \<noteq> []" "sep_ch \<notin> set (comp_text c)"
    using assms(1) plain_text [of c] by (auto simp: skip_seg_def)
  then have "last (comp_text c) \<noteq> sep_ch" using last_in_set by fastforce
  then show ?thesis using c \<open>comp_text c \<noteq> []\<close> by (cases "r = []") (auto simp: join_with_snoc)
qed

lemma push_render:
  assumes "canonical cs" "good_name w"
  shows "path_push (render cs) w = render (cs @ [Normal w])"
  using assms(1)
proof (cases rule: canonical_cases)
  case (root r)
  have rel: "\<not> is_absolute w" using assms(2) by (cases w) (auto simp: is_absolute_def good_name_def)
  show ?thesis
    using root rel last_join_texts [of r]
    by (cases "r = []") (auto simp: render_simps path_push_def join_with_snoc)
next
  case rel
  have nr: "\<not> is_absolute w" using assms(2) by (cases w) (auto simp: is_absolute_def good_name_def)
  show ?thesis
    using rel nr last_join_texts [of cs]
    by (cases "cs = []") (auto simp: render_simps path_push_def join_with_snoc)
qed

lemma path_push_absolute: "is_absolute p \<Longrightarrow> is_absolute (path_push p q)"
  by (auto simp: path_push_def is_absolute_def has_root_def split: list.splits)

lemma push_root: "path_push p [sep_ch] = render [RootDir]"
  by (simp add: path_push_def is_absolute_def render_simps)

definition pop_comps :: "component list \<Rightarrow> component list" where
  "pop_comps cs = (if cs = [] \<or> last cs = RootDir then cs else butlast cs)"

lemma canonical_butlast: "canonical cs \<Longrightarrow> canonical (butlast cs)"
proof (erule canonical_cases)
  fix r assume "cs = RootDir # r" "list_all plain r"
  then show ?thesis by (auto simp: canonical_def list_all_iff dest: in_set_butlastD)
next
  assume "list_all plain cs" "RootDir \<notin> set cs"
  then have "list_all plain (butlast cs)" by (auto simp: list_all_iff dest: in_set_butlastD)
  moreover from this have "\<nexists>r. butlast cs = RootDir # r" by auto
  ultimately show ?thesis by (auto simp: canonical_def split: list.splits component.splits)
qed

lemma canonical_pop: "canonical cs \<Longrightarrow> canonical (pop_comps cs)"
  by (simp add: pop_comps_def canonical_butlast)

lemma pop_render: "canonical cs \<Longrightarrow> path_pop (render cs) = render (pop_comps cs)"
proof (erule canonical_cases)
  fix r assume r: "cs = RootDir # r" "list_all plain r"
  show ?thesis
  proof (cases "r = []")
    case True
    then show ?thesis using r components_render [of cs]
      by (simp add: path_pop_def path_parent_def pop_comps_def canonical_def Let_def)
  next
    case False
    have b: "list_all plain (butlast r)" using r(2) by (auto simp: list_all_iff dest: in_set_butlastD)
    have "components (render cs) = cs" using r by (intro components_render) (simp add: canonical_def)
    moreover have "last r \<noteq> RootDir" using False r(2) last_in_set by (fastforce simp: list_all_iff)
    ultimately show ?thesis using r False b
      by (simp add: path_pop_def path_parent_def pop_comps_def Let_def render_simps hd_split_root
          split_join_texts plain_texts)
  qed
next
  assume r: "list_all plain cs" "RootDir \<notin> set cs"
  have c: "components (render cs) = cs"
    using r by (intro components_render) (auto simp: canonical_def split: list.splits component.splits)
  show ?thesis
  proof (cases "cs = []")
    case True
    then show ?thesis using c by (simp add: path_pop_def path_parent_def pop_comps_def Let_def)
  next
    case False
    have b: "list_all plain (butlast cs)" "RootDir \<notin> set (butlast cs)"
      using r by (auto simp: list_all_iff dest: in_set_butlastD)
    have "last cs \<noteq> RootDir" using False r(2) last_in_set by fastforce
    moreover have "comp_text (hd cs) \<noteq> dot"
      using False r(1) plain_text [of "hd cs"] by (cases cs) (auto simp: skip_seg_def)
    ultimately show ?thesis using c r False b
      by (simp add: path_pop_def path_parent_def pop_comps_def Let_def render_simps
          join_texts_no_root split_join_texts plain_texts list.map_sel(1))
  qed
qed

section \<open>Joining a relative path and stripping a prefix\<close>

lemma split_pred_at: "P x \<Longrightarrow> split_pred P (s @ x # t) = split_pred P s @ split_pred P t"
proof (induction s)
  case (Cons c s)
  then show ?case by (cases "split_pred P s") (auto split: list.splits)
qed simp

lemma body_comps_append: "body_comps (xs @ ys) = body_comps xs @ body_comps ys"
  by (simp add: body_comps_def)

lemma body_comps_blank [simp]: "body_comps [[]] = []" "body_comps [] = []" "body_comps ([] # ws) = body_comps ws"
  by (simp_all add: body_comps_def skip_seg_def)

lemma components_root: "has_root p \<Longrightarrow> components p = RootDir # body_comps (split_char sep_ch p)"
  using hd_split_root [of p] by (simp add: components_def Let_def)

lemma has_root_append: "has_root p \<Longrightarrow> has_root (p @ q)"
  by (cases p) auto

lemma components_push_relative:
  assumes "has_root p" and "\<not> has_root q"
  shows "components (path_push p q) = components p @ body_comps (split_char sep_ch q)"
proof (cases "last p = sep_ch")
  case True
  then obtain p' where p: "p = p' @ [sep_ch]" using assms(1) by (cases p rule: rev_cases) auto
  have "path_push p q = p' @ sep_ch # q"
    using True assms(2) by (simp add: path_push_def is_absolute_def p)
  moreover have "has_root (p' @ sep_ch # q)"
    using assms(1) p has_root_append [of p q] by simp
  ultimately show ?thesis
    using assms(1) by (simp add: components_root p split_char_def split_pred_at body_comps_append)
next
  case False
  have "path_push p q = p @ sep_ch # q" using False assms by (auto simp: path_push_def is_absolute_def)
  moreover have "has_root (p @ sep_ch # q)" using assms(1) by (rule has_root_append)
  ultimately show ?thesis
    using assms(1) by (simp add: components_root split_char_def split_pred_at body_comps_append)
qed

lemma consume_texts:
  "list_all plain cs \<Longrightarrow> consume (length cs) (map comp_text cs @ ws) = ws"
  by (induction cs) (auto simp: plain_text)

lemma dropWhile_texts:
  "list_all plain cs \<Longrightarrow> dropWhile skip_seg (map comp_text cs) = map comp_text cs"
  by (cases cs) (auto simp: plain_text)

lemma path_starts_with_render:
  assumes "canonical cs" and "canonical (cs @ ds)"
  shows "path_starts_with (render (cs @ ds)) (render cs)"
  using assms by (simp add: path_starts_with_def components_render)

lemma strip_prefix_render:
  assumes "list_all plain r" and "list_all plain ds"
  shows "path_strip_prefix (render (RootDir # r @ ds)) (render (RootDir # r)) =
    Some (join_with [sep_ch] (map comp_text ds))"
proof -
  have can: "canonical (RootDir # r)" "canonical (RootDir # r @ ds)"
    using assms by (simp_all add: canonical_def)
  have root: "has_root (render (RootDir # r @ ds))" by (simp add: render_simps)
  have segs: "tl (split_char sep_ch (render (RootDir # r @ ds))) =
      (if r @ ds = [] then [[]] else map comp_text r @ map comp_text ds)"
    using assms split_join_texts [of "r @ ds"] by (simp add: render_simps hd_split_root)
  have rest: "dropWhile skip_seg (consume (length r) (tl (split_char sep_ch (render (RootDir # r @ ds))))) =
      map comp_text ds"
    using assms by (auto simp: segs consume_texts dropWhile_texts skip_seg_def)
  have "path_starts_with (render (RootDir # r @ ds)) (render (RootDir # r))"
    using path_starts_with_render [of "RootDir # r" ds] can by simp
  then show ?thesis
    using root rest components_render [OF can(1)] plain_texts(3) [OF assms(2)]
    by (simp add: path_strip_prefix_def Let_def)
qed

end
