(* ===== verification/Errors.thy ===== *)
theory Errors
  imports Net Paths
begin

text \<open>
  \<open>error.rs\<close>: the library's error type. An operating system error is its kind and its text;
  the message of a configuration file error keeps the parts the source formats into it.
\<close>

datatype io_kind = NotFound | PermissionDenied | Interrupted | OtherKind

datatype io_error = IoError io_kind str

fun io_error_kind :: "io_error \<Rightarrow> io_kind" where
  "io_error_kind (IoError k m) = k"

definition io_text :: "io_error \<Rightarrow> str" where
  "io_text e = (case e of IoError _ m \<Rightarrow> m)"

text \<open>The texts that can be the \<open>message\<close> of \<open>Error::ConfigFile\<close>.\<close>

datatype config_message =
    InvalidValue nat str str
  | RelativeKeysWithoutHome path
  | TomlUnsupported
  | ReadFailed io_error

datatype error =
    ErrIo io_error
  | ErrBind socket_addr io_error
  | ErrHostKeyLoad path str
  | ErrHostKeyGenerate str
  | ErrNoHostKey
  | ErrAuthorizedKeys path io_error
  | ErrPublicKey str
  | ErrConfig str
  | ErrConfigFile path config_message
  | ErrSsh str
  | ErrKey str

end
