(* ===== verification/Utf8.thy ===== *)
theory Utf8
  imports Text
begin

text \<open>
  UTF-8, as \<open>str::as_bytes\<close> and \<open>String::from_utf8_lossy\<close> use it: the encoder of scalar
  values, the decoder that replaces each maximal ill-formed part by U+FFFD, and the two facts
  the components rest on, that decoding inverts encoding and that encoding is injective.
\<close>

section \<open>Encoding\<close>

definition scalar :: "ch \<Rightarrow> bool" where
  [text_eval]: "scalar c \<longleftrightarrow> c < 0xD800 \<or> (0xE000 \<le> c \<and> c < 0x110000)"

definition valid_str :: "str \<Rightarrow> bool" where
  [text_eval]: "valid_str s \<longleftrightarrow> list_all scalar s"

definition enc_char :: "ch \<Rightarrow> nat list" where
  [text_eval]: "enc_char c =
     (if c < 0x80 then [c]
      else if c < 0x800 then [0xC0 + c div 64, 0x80 + c mod 64]
      else if c < 0x10000 then [0xE0 + c div 4096, 0x80 + (c div 64) mod 64, 0x80 + c mod 64]
      else [0xF0 + c div 262144, 0x80 + (c div 4096) mod 64, 0x80 + (c div 64) mod 64,
            0x80 + c mod 64])"

abbreviation utf8 :: "str \<Rightarrow> nat list" where
  "utf8 s \<equiv> concat (map enc_char s)"

definition as_bytes :: "str \<Rightarrow> u8 list" where
  [text_eval]: "as_bytes s = map of_nat (concat (map enc_char s))"

text \<open>\<open>str::len\<close>: the number of bytes.\<close>

definition str_len :: "str \<Rightarrow> nat" where
  [text_eval]: "str_len s = length (concat (map enc_char s))"

lemma str_len_simps [simp]:
  "str_len [] = 0"
  "str_len (s @ t) = str_len s + str_len t"
  by (simp_all add: str_len_def)

lemma length_as_bytes: "length (as_bytes s) = str_len s"
  by (simp add: as_bytes_def str_len_def)

lemma enc_char_ascii: "c < 0x80 \<Longrightarrow> enc_char c = [c]"
  by (simp add: enc_char_def)

lemma str_len_ascii: "\<forall>c \<in> set s. c < 0x80 \<Longrightarrow> str_len s = length s"
  by (induction s) (simp_all add: str_len_def enc_char_ascii)

lemma length_le_str_len: "length s \<le> str_len s"
  by (induction s) (auto simp: str_len_def enc_char_def)

lemma enc_char_byte: "c < 0x110000 \<Longrightarrow> b \<in> set (enc_char c) \<Longrightarrow> b < 256"
  by (auto simp: enc_char_def split: if_splits)

section \<open>Lossy decoding\<close>

definition cont :: "nat \<Rightarrow> bool" where
  [text_eval]: "cont b \<longleftrightarrow> 0x80 \<le> b \<and> b \<le> 0xBF"

text \<open>Which second bytes may follow the lead bytes of three and four byte sequences.\<close>

definition second3 :: "nat \<Rightarrow> nat \<Rightarrow> bool" where
  [text_eval]: "second3 b c \<longleftrightarrow>
     (if b = 0xE0 then 0xA0 \<le> c \<and> c \<le> 0xBF
      else if b = 0xED then 0x80 \<le> c \<and> c \<le> 0x9F
      else cont c)"

definition second4 :: "nat \<Rightarrow> nat \<Rightarrow> bool" where
  [text_eval]: "second4 b c \<longleftrightarrow>
     (if b = 0xF0 then 0x90 \<le> c \<and> c \<le> 0xBF
      else if b = 0xF4 then 0x80 \<le> c \<and> c \<le> 0x8F
      else cont c)"

text \<open>One step: the decoded character and how many bytes it used. An ill-formed sequence
  uses the longest prefix that could have started a well-formed one.\<close>

definition decode_step :: "nat \<Rightarrow> nat list \<Rightarrow> ch \<times> nat" where
  [text_eval]: "decode_step b bs =
     (if b < 0x80 then (b, 1)
      else if 0xC2 \<le> b \<and> b \<le> 0xDF then
        (case bs of
           c1 # _ \<Rightarrow> if cont c1 then ((b - 0xC0) * 64 + (c1 - 0x80), 2) else (0xFFFD, 1)
         | [] \<Rightarrow> (0xFFFD, 1))
      else if 0xE0 \<le> b \<and> b \<le> 0xEF then
        (case bs of
           c1 # r \<Rightarrow>
             if second3 b c1 then
               (case r of
                  c2 # _ \<Rightarrow>
                    if cont c2
                    then ((b - 0xE0) * 4096 + (c1 - 0x80) * 64 + (c2 - 0x80), 3)
                    else (0xFFFD, 2)
                | [] \<Rightarrow> (0xFFFD, 2))
             else (0xFFFD, 1)
         | [] \<Rightarrow> (0xFFFD, 1))
      else if 0xF0 \<le> b \<and> b \<le> 0xF4 then
        (case bs of
           c1 # r \<Rightarrow>
             if second4 b c1 then
               (case r of
                  c2 # r' \<Rightarrow>
                    if cont c2 then
                      (case r' of
                         c3 # _ \<Rightarrow>
                           if cont c3
                           then ((b - 0xF0) * 262144 + (c1 - 0x80) * 4096 + (c2 - 0x80) * 64
                                 + (c3 - 0x80), 4)
                           else (0xFFFD, 3)
                       | [] \<Rightarrow> (0xFFFD, 3))
                    else (0xFFFD, 2)
                | [] \<Rightarrow> (0xFFFD, 2))
             else (0xFFFD, 1)
         | [] \<Rightarrow> (0xFFFD, 1))
      else (0xFFFD, 1))"

function decode :: "nat list \<Rightarrow> str" where
  "decode [] = []"
| "decode (b # bs) = fst (decode_step b bs) # decode (drop (snd (decode_step b bs) - 1) bs)"
  by pat_completeness auto
termination
  by (relation "measure length") (auto simp: less_Suc_eq_le)

definition from_utf8_lossy :: "u8 list \<Rightarrow> str" where
  [text_eval]: "from_utf8_lossy bs = decode (map unat bs)"

section \<open>Round trip\<close>

lemma split_3x6: "(c::nat) div 4096 * 4096 + (c div 64) mod 64 * 64 + c mod 64 = c"
proof -
  have "c div 4096 = c div 64 div 64" by (simp add: div_mult2_eq [symmetric])
  then show ?thesis
    using div_mult_mod_eq [of c 64] div_mult_mod_eq [of "c div 64" 64] by linarith
qed

lemma split_4x6:
  "(c::nat) div 262144 * 262144 + (c div 4096) mod 64 * 4096 + (c div 64) mod 64 * 64 + c mod 64 = c"
proof -
  have "c div 262144 = c div 4096 div 64" by (simp add: div_mult2_eq [symmetric])
  then show ?thesis
    using split_3x6 [of c] div_mult_mod_eq [of "c div 4096" 64] by linarith
qed

lemma decode_step_enc:
  assumes "scalar c"
  shows "\<exists>b bs. enc_char c = b # bs \<and> decode_step b (bs @ rest) = (c, Suc (length bs))"
proof -
  consider "c < 0x80" | "0x80 \<le> c" "c < 0x800" | "0x800 \<le> c" "c < 0x10000" | "0x10000 \<le> c" "c < 0x110000"
    using assms unfolding scalar_def by linarith
  then show ?thesis
  proof cases
    case 1
    then show ?thesis by (simp add: enc_char_def decode_step_def)
  next
    case 2
    then have "2 \<le> c div 64" "c div 64 \<le> 31" by auto
    then show ?thesis using 2 by (simp add: enc_char_def decode_step_def cont_def)
  next
    case 3
    let ?a = "c div 4096" and ?b = "(c div 64) mod 64" and ?d = "c mod 64"
    note cb = split_3x6 [of c]
    have d: "?d < 64" by simp
    have "?a \<le> 15" using 3 by auto
    moreover have "?a = 0 \<Longrightarrow> 32 \<le> ?b" using 3 cb d by linarith
    moreover have "?a = 13 \<Longrightarrow> ?b \<le> 31" using 3 assms cb d unfolding scalar_def by linarith
    ultimately have "second3 (0xE0 + ?a) (0x80 + ?b)"
      by (auto simp: second3_def cont_def)
    with 3 cb \<open>?a \<le> 15\<close> show ?thesis
      by (simp add: enc_char_def decode_step_def cont_def)
  next
    case 4
    let ?a = "c div 262144" and ?b = "(c div 4096) mod 64" and ?d = "(c div 64) mod 64" and ?e = "c mod 64"
    note cb = split_4x6 [of c]
    have de: "?d < 64" "?e < 64" by simp_all
    have "?a \<le> 4" using 4 by auto
    moreover have "?a = 0 \<Longrightarrow> 16 \<le> ?b" using 4 cb de by linarith
    moreover have "?a = 4 \<Longrightarrow> ?b \<le> 15" using 4 cb de by linarith
    ultimately have "second4 (0xF0 + ?a) (0x80 + ?b)"
      by (auto simp: second4_def cont_def)
    moreover have "?d \<le> 63" "?e \<le> 63" using de by linarith+
    ultimately show ?thesis using 4 cb \<open>?a \<le> 4\<close>
      by (simp add: enc_char_def decode_step_def cont_def)
  qed
qed

lemma decode_enc_append: "scalar c \<Longrightarrow> decode (enc_char c @ rest) = c # decode rest"
  using decode_step_enc [of c rest] by auto

lemma decode_enc: "valid_str s \<Longrightarrow> decode (concat (map enc_char s)) = s"
  by (induction s) (auto simp: valid_str_def decode_enc_append)

lemma unat_as_bytes: "valid_str s \<Longrightarrow> map unat (as_bytes s) = concat (map enc_char s)"
proof -
  assume "valid_str s"
  then have b: "b < 256" if "c \<in> set s" "b \<in> set (enc_char c)" for b c
    using that by (intro enc_char_byte [of c b]) (auto simp: valid_str_def list_all_iff scalar_def)
  have "map (unat \<circ> (of_nat :: nat \<Rightarrow> u8)) (concat (map enc_char s)) = concat (map enc_char s)"
    by (rule map_idI) (auto simp: unat_of_nat dest: b)
  then show ?thesis by (simp add: as_bytes_def)
qed

lemma from_utf8_lossy_as_bytes: "valid_str s \<Longrightarrow> from_utf8_lossy (as_bytes s) = s"
  by (simp add: from_utf8_lossy_def unat_as_bytes decode_enc)

lemma as_bytes_inj: "inj_on as_bytes {s. valid_str s}"
  by (rule inj_onI) (metis from_utf8_lossy_as_bytes mem_Collect_eq)

lemma decode_ascii: "\<forall>b \<in> set bs. b < 0x80 \<Longrightarrow> decode bs = bs"
  by (induction bs) (auto simp: decode_step_def)

end
