(* ===== verification/Config.thy ===== *)
theory Config
  imports Errors Utf8
begin

text \<open>
  \<open>config.rs\<close>: the declarative server settings, their defaults, and the checks on the
  Dev Tunnels values (identifier, labels, setup timeout).
\<close>

section \<open>Settings\<close>

record dev_tunnel_config =
  dt_enabled :: bool
  dt_id :: "str option"
  dt_labels :: "str list"
  dt_bin :: "path option"
  dt_auto_create :: bool
  dt_timeout_secs :: u64

definition dev_tunnel_default :: dev_tunnel_config where
  "dev_tunnel_default = \<lparr>dt_enabled = False, dt_id = None, dt_labels = [], dt_bin = None,
     dt_auto_create = False, dt_timeout_secs = 30\<rparr>"

record config =
  cfg_dev_tunnel :: dev_tunnel_config
  cfg_bind :: ip_addr
  cfg_port :: u16
  cfg_host_keys :: "path list"
  cfg_host_key_passphrase :: "str option"
  cfg_password :: "str option"
  cfg_authorized_keys :: "path list"
  cfg_authorized_key_lines :: "str list"
  cfg_allow_anonymous :: bool
  cfg_shell :: "str option"
  cfg_sftp_root :: "path option"
  cfg_allow_tcp_forwarding :: bool
  cfg_login_grace_secs :: u64
  cfg_max_startups :: u32
  cfg_accept_env :: "str list"
  cfg_banner :: "str option"
  cfg_require_current_user :: bool
  cfg_allow_users :: "str list"

definition DEFAULT_PORT :: u16 where "DEFAULT_PORT = 2222"
definition DEFAULT_BIND :: ip_addr where "DEFAULT_BIND = ipv4_localhost"
definition DEFAULT_LOGIN_GRACE_SECS :: u64 where "DEFAULT_LOGIN_GRACE_SECS = 60"
definition DEFAULT_MAX_STARTUPS :: u32 where "DEFAULT_MAX_STARTUPS = 32"

definition default_accept_env :: "str list" where
  "default_accept_env = [lit ''TERM'', lit ''LANG'', lit ''LC_*'']"

definition config_default :: config where
  "config_default = \<lparr>cfg_dev_tunnel = dev_tunnel_default, cfg_bind = DEFAULT_BIND,
     cfg_port = DEFAULT_PORT, cfg_host_keys = [], cfg_host_key_passphrase = None,
     cfg_password = None, cfg_authorized_keys = [], cfg_authorized_key_lines = [],
     cfg_allow_anonymous = True, cfg_shell = None, cfg_sftp_root = None,
     cfg_allow_tcp_forwarding = True, cfg_login_grace_secs = DEFAULT_LOGIN_GRACE_SECS,
     cfg_max_startups = DEFAULT_MAX_STARTUPS, cfg_accept_env = default_accept_env,
     cfg_banner = None, cfg_require_current_user = False, cfg_allow_users = []\<rparr>"

definition has_explicit_auth :: "config \<Rightarrow> bool" where
  "has_explicit_auth c \<longleftrightarrow> cfg_password c \<noteq> None \<or> cfg_authorized_keys c \<noteq> [] \<or>
     cfg_authorized_key_lines c \<noteq> []"

section \<open>Tunnel identifiers\<close>

text \<open>The inner function \<open>label\<close> looks at the UTF-8 bytes.\<close>

definition tunnel_label :: "str \<Rightarrow> nat \<Rightarrow> nat \<Rightarrow> bool" where
  "tunnel_label value lo hi \<longleftrightarrow>
     (let bytes = utf8 value
      in lo \<le> length bytes \<and> length bytes \<le> hi \<and>
         bytes \<noteq> [] \<and> is_ascii_alphanumeric (hd bytes) \<and>
         is_ascii_alphanumeric (last bytes) \<and>
         list_all (\<lambda>b. is_ascii_lowercase b \<or> is_ascii_digit b \<or> b = 45) bytes)"

definition valid_tunnel_id :: "str \<Rightarrow> bool" where
  "valid_tunnel_id value =
     (case split_char 46 value of
        [] \<Rightarrow> tunnel_label [] 3 49
      | [name] \<Rightarrow> tunnel_label name 3 49
      | [name, region] \<Rightarrow> tunnel_label name 3 49 \<and> tunnel_label region 1 32
      | _ \<Rightarrow> False)"

definition validate_tunnel_id :: "str \<Rightarrow> str + unit" where
  "validate_tunnel_id value =
     (if valid_tunnel_id value then Inr ()
      else Inl (lit ''invalid Dev Tunnels ID; use lowercase letters, digits and hyphens''))"

section \<open>Setup timeouts\<close>

definition checked_mul_u64 :: "u64 \<Rightarrow> u64 \<Rightarrow> u64 option" where
  "checked_mul_u64 a b = (if unat a * unat b < 2 ^ 64 then Some (a * b) else None)"

text \<open>A unit suffix selects the multiplier; no suffix means seconds.\<close>

definition split_unit :: "str \<Rightarrow> str \<times> u64" where
  "split_unit value =
     (if value = [] then (value, 1)
      else if last value \<in> {115, 83} then (butlast value, 1)
      else if last value \<in> {109, 77} then (butlast value, 60)
      else if last value \<in> {104, 72} then (butlast value, 3600)
      else (value, 1))"

definition parse_tunnel_timeout :: "str \<Rightarrow> str + u64" where
  "parse_tunnel_timeout value =
     (case split_unit value of (digits, multiplier) \<Rightarrow>
        ok_or (lit ''timeout must be a positive duration such as 30s or 2m'')
          (Option.bind
            (Option.bind (parse_u64 digits) (\<lambda>n. checked_mul_u64 n multiplier))
            (\<lambda>n. if 0 < n then Some n else None)))"

section \<open>Validation\<close>

definition valid_label :: "str \<Rightarrow> bool" where
  "valid_label l \<longleftrightarrow> 1 \<le> str_len l \<and> str_len l \<le> 50 \<and>
     list_all (\<lambda>b. is_ascii_alphanumeric b \<or> b = 95 \<or> b = 45 \<or> b = 61) (utf8 l)"

definition validate_dev_tunnel :: "config \<Rightarrow> error + unit" where
  "validate_dev_tunnel c =
     (let dt = cfg_dev_tunnel c
      in if dt_timeout_secs dt = 0
         then Inl (ErrConfig (lit ''DevTunnelTimeout must be greater than zero''))
         else if (case dt_id dt of None \<Rightarrow> False | Some i \<Rightarrow> \<not> valid_tunnel_id i)
         then Inl (ErrConfig (lit ''invalid DevTunnelId''))
         else if list_ex (\<lambda>l. \<not> valid_label l) (dt_labels dt)
         then Inl (ErrConfig (lit ''DevTunnelLabel must contain 1 to 50 ASCII letters, digits, underscores, hyphens or equals signs''))
         else if 100 < length (remdups (dt_labels dt))
         then Inl (ErrConfig (lit ''DevTunnelLabel supports at most 100 unique labels''))
         else Inr ())"

lemma validate_dev_tunnel_ok:
  "validate_dev_tunnel c = Inr () \<longleftrightarrow>
     dt_timeout_secs (cfg_dev_tunnel c) \<noteq> 0 \<and>
     (\<forall>i. dt_id (cfg_dev_tunnel c) = Some i \<longrightarrow> valid_tunnel_id i) \<and>
     (\<forall>l \<in> set (dt_labels (cfg_dev_tunnel c)). valid_label l) \<and>
     card (set (dt_labels (cfg_dev_tunnel c))) \<le> 100"
  by (auto simp: validate_dev_tunnel_def Let_def list_ex_iff length_remdups_card_conv
      split: option.splits if_splits)

lemma validate_dev_tunnel_default: "validate_dev_tunnel config_default = Inr ()"
  by (simp add: validate_dev_tunnel_ok config_default_def dev_tunnel_default_def)

section \<open>What the checks accept\<close>

lemma enc_char_all_ascii:
  assumes "list_all P (utf8 s)" and "\<And>b. P b \<Longrightarrow> b < 128"
  shows "\<forall>c \<in> set s. c < 128"
proof
  fix c assume c: "c \<in> set s"
  show "c < 128"
  proof (rule ccontr)
    assume "\<not> c < 128"
    then have "\<exists>b \<in> set (enc_char c). 128 \<le> b" by (auto simp: enc_char_def)
    with c assms show False by (fastforce simp: list_all_iff)
  qed
qed

lemma utf8_ascii: "\<forall>c \<in> set s. c < 128 \<Longrightarrow> utf8 s = s"
  by (induction s) (auto simp: enc_char_ascii)

text \<open>The characters of an accepted name: lower case letters, digits and hyphens.\<close>

definition tunnel_char :: "ch \<Rightarrow> bool" where
  "tunnel_char c \<longleftrightarrow> is_ascii_lowercase c \<or> is_ascii_digit c \<or> c = 45"

lemma tunnel_char_ascii: "tunnel_char c \<Longrightarrow> c < 128"
  by (auto simp: tunnel_char_def is_ascii_lowercase_def is_ascii_digit_def)

lemma tunnel_label_iff:
  "tunnel_label v lo hi \<longleftrightarrow>
     lo \<le> length v \<and> length v \<le> hi \<and> v \<noteq> [] \<and> (\<forall>c \<in> set v. tunnel_char c) \<and>
     hd v \<noteq> 45 \<and> last v \<noteq> 45"
proof -
  have a: "tunnel_char c \<Longrightarrow> is_ascii_alphanumeric c \<longleftrightarrow> c \<noteq> 45" for c
    by (auto simp: tunnel_char_def is_ascii_alphanumeric_def is_ascii_lowercase_def
        is_ascii_uppercase_def is_ascii_digit_def)
  have l: "(\<lambda>b. is_ascii_lowercase b \<or> is_ascii_digit b \<or> b = 45) = tunnel_char"
    by (simp add: fun_eq_iff tunnel_char_def)
  have "list_all tunnel_char (utf8 v) \<longleftrightarrow> (\<forall>c \<in> set v. tunnel_char c)"
    using enc_char_all_ascii [of tunnel_char v] tunnel_char_ascii
    by (metis list_all_iff utf8_ascii)
  moreover have "utf8 v = v" if "\<forall>c \<in> set v. tunnel_char c"
    using that tunnel_char_ascii by (intro utf8_ascii) blast
  ultimately show ?thesis
    unfolding tunnel_label_def l Let_def
    by (metis a hd_in_set last_in_set)
qed

text \<open>
  Dev Tunnels identifiers: a value is accepted exactly when it is a name of 3 to 49
  characters, or such a name, one dot and a region of 1 to 32 characters, where name and
  region hold only lower case letters, digits and hyphens and neither start nor end with a
  hyphen. In particular an accepted identifier holds no path separator, no space and no
  non-ASCII character, which the lock and endpoint file names built from it rely on.
\<close>

theorem valid_tunnel_id_iff:
  "valid_tunnel_id v \<longleftrightarrow>
     (\<exists>name region.
        (v = name \<or> v = name @ [46] @ region \<and> 1 \<le> length region \<and> length region \<le> 32 \<and>
           (\<forall>c \<in> set region. tunnel_char c) \<and> hd region \<noteq> 45 \<and> last region \<noteq> 45) \<and>
        3 \<le> length name \<and> length name \<le> 49 \<and> (\<forall>c \<in> set name. tunnel_char c) \<and>
        hd name \<noteq> 45 \<and> last name \<noteq> 45)"
  (is "_ \<longleftrightarrow> (\<exists>name region. ?R name region)")
proof
  assume v: "valid_tunnel_id v"
  have "v = join_with [46] (split_char 46 v)" by (simp add: join_split_char)
  then consider name where "split_char 46 v = [name]" "v = name" "tunnel_label name 3 49"
    | name region where "v = name @ [46] @ region" "tunnel_label name 3 49" "tunnel_label region 1 32"
    using v by (auto simp: valid_tunnel_id_def tunnel_label_def split: list.splits)
  then show "\<exists>name region. ?R name region"
    by cases (auto simp: tunnel_label_iff)
next
  assume "\<exists>name region. ?R name region"
  then obtain name region where r: "?R name region" by blast
  have nd: "\<not> c = 46" if "tunnel_char c" for c
    using that by (auto simp: tunnel_char_def is_ascii_lowercase_def is_ascii_digit_def)
  have name: "tunnel_label name 3 49" using r by (auto simp: tunnel_label_iff)
  show "valid_tunnel_id v"
  proof (cases "v = name")
    case True
    moreover have "\<forall>c \<in> set name. \<not> c = 46" using r nd by blast
    ultimately have "split_char 46 v = [name]"
      by (simp add: split_char_def split_pred_word)
    with name show ?thesis by (simp add: valid_tunnel_id_def)
  next
    case False
    then have "tunnel_label region 1 32" and v: "v = name @ 46 # region" using r
      by (auto simp: tunnel_label_iff)
    moreover have "split_char 46 v = [name, region]"
    proof -
      have "split_pred (\<lambda>x. x = 46) region = [region]" "\<forall>c \<in> set name. \<not> c = 46"
        using r nd False by (auto intro!: split_pred_word)
      then show ?thesis
        using split_pred_append [of name "\<lambda>x. x = 46" 46 region] v by (simp add: split_char_def)
    qed
    ultimately show ?thesis using name by (simp add: valid_tunnel_id_def)
  qed
qed

section \<open>What the timeout parser accepts\<close>

lemma unat_of_nat_u64: "n < 2 ^ 64 \<Longrightarrow> unat (of_nat n :: u64) = n"
  by (simp add: unat_of_nat)

lemma checked_mul_u64_of_nat:
  "n < 2 ^ 64 \<Longrightarrow> m < 2 ^ 64 \<Longrightarrow>
   checked_mul_u64 (of_nat n) (of_nat m) = (if n * m < 2 ^ 64 then Some (of_nat (n * m)) else None)"
  by (simp add: checked_mul_u64_def unat_of_nat)

lemma parse_u64_show: "n < 2 ^ 64 \<Longrightarrow> parse_u64 (show_nat n) = Some (of_nat n)"
  by (simp add: parse_u64_def parse_uint_show)

lemma parse_u64_show_overflow: "2 ^ 64 \<le> n \<Longrightarrow> parse_u64 (show_nat n) = None"
  using show_nat_no_plus [of n]
  by (auto simp: parse_u64_def parse_uint_def Let_def not_less split: list.splits)
     (metis digits_value_show not_less)

text \<open>The unit names of the documentation with their length in seconds.\<close>

definition unit_secs :: "ch \<Rightarrow> nat" where
  "unit_secs u = (if u \<in> {104, 72} then 3600 else if u \<in> {109, 77} then 60 else 1)"

lemma split_unit_suffix:
  "u \<in> {115, 83, 109, 77, 104, 72} \<Longrightarrow> split_unit (s @ [u]) = (s, of_nat (unit_secs u))"
  by (auto simp: split_unit_def unit_secs_def)

text \<open>
  Setup timeouts: a decimal number of seconds, minutes or hours (lower or upper case
  suffix) is read as that many seconds whenever the product is positive and fits 64 bits,
  and is refused otherwise; the multiplication never wraps around.
\<close>

theorem parse_tunnel_timeout_suffix:
  assumes "u \<in> {115, 83, 109, 77, 104, 72}"
  shows "parse_tunnel_timeout (show_nat n @ [u]) =
     (if 0 < n * unit_secs u \<and> n * unit_secs u < 2 ^ 64 then Inr (of_nat (n * unit_secs u))
      else Inl (lit ''timeout must be a positive duration such as 30s or 2m''))"
proof (cases "n < 2 ^ 64")
  case True
  have m: "unit_secs u < 2 ^ 64" by (simp add: unit_secs_def)
  have "0 < (of_nat (n * unit_secs u) :: u64) \<longleftrightarrow> 0 < n * unit_secs u" if "n * unit_secs u < 2 ^ 64"
    using that unat_of_nat_u64 [OF that] by (simp only: word_less_nat_alt unat_0)
  then show ?thesis
    using True assms checked_mul_u64_of_nat [OF True m]
    by (simp add: parse_tunnel_timeout_def split_unit_suffix parse_u64_show)
next
  case False
  have "n \<le> n * unit_secs u" by (simp add: unit_secs_def)
  with False have "\<not> n * unit_secs u < 2 ^ 64" by (meson le_less_trans)
  with False assms show ?thesis
    by (simp add: parse_tunnel_timeout_def split_unit_suffix parse_u64_show_overflow)
qed

theorem parse_tunnel_timeout_suffix_witness:
  "parse_tunnel_timeout (show_nat 2 @ [109]) = Inr 120 \<and>
   parse_tunnel_timeout (show_nat 18446744073709551615 @ [104]) =
     Inl (lit ''timeout must be a positive duration such as 30s or 2m'')"
  using parse_tunnel_timeout_suffix [of 109 2]
    parse_tunnel_timeout_suffix [of 104 18446744073709551615]
  by (simp add: unit_secs_def)

lemma parse_tunnel_timeout_pos: "parse_tunnel_timeout s = Inr n \<Longrightarrow> n \<noteq> 0"
  by (auto simp: parse_tunnel_timeout_def split: prod.splits if_splits Option.bind_splits)

end
