(* ===== verification/SshdConfig.thy ===== *)
theory SshdConfig
  imports Config
begin

text \<open>
  \<open>sshd_config.rs\<close> and \<open>Config::load_file\<close>: the configuration file parser. \<open>directive\<close> is the
  body of the loop over the lines for one key and value, \<open>parse_loop\<close> the loop with the
  mutable variables of \<open>parse\<close> as its state, \<open>parse_config\<close> the whole function. Reading a file
  is the parameter \<open>read\<close>.
\<close>

section \<open>Values\<close>

type_synonym read_file = "path \<Rightarrow> io_error + str"

fun strip_comment_loop :: "bool \<Rightarrow> str \<Rightarrow> str" where
  "strip_comment_loop prev_ws [] = []"
| "strip_comment_loop prev_ws (c # s) =
     (if c = 35 \<and> prev_ws then [] else c # strip_comment_loop (is_whitespace c) s)"

definition strip_comment :: "str \<Rightarrow> str" where
  "strip_comment line = strip_comment_loop True line"

definition sshd_config_path :: path where
  "sshd_config_path = lit ''<sshd_config>''"

definition invalid :: "nat \<Rightarrow> str \<Rightarrow> str \<Rightarrow> error" where
  "invalid lineno key value = ErrConfigFile sshd_config_path (InvalidValue lineno key value)"

definition parse_yes_no :: "str \<Rightarrow> bool option" where
  "parse_yes_no value =
     (let l = to_ascii_lowercase value
      in if l = lit ''yes'' then Some True else if l = lit ''no'' then Some False else None)"

definition parse_listen_address :: "str \<Rightarrow> ip_addr option" where
  "parse_listen_address v =
     (let value = trim v
      in case strip_prefix [91] value of
           Some rest \<Rightarrow> parse_ip (hd (split_char 93 rest))
         | None \<Rightarrow>
             (case parse_ip value of
                Some addr \<Rightarrow> Some addr
              | None \<Rightarrow>
                  (case rsplit_once 58 value of
                     Some (host, _) \<Rightarrow> parse_ip host
                   | None \<Rightarrow> None)))"

definition parse_time :: "str \<Rightarrow> u64 option" where
  "parse_time v =
     (let value = trim v
      in case parse_u64 value of
           Some secs \<Rightarrow> Some secs
         | None \<Rightarrow>
             (if value = [] then None
              else if last value \<in> {115, 83, 109, 77, 104, 72} then
                (case split_unit value of (num, mult) \<Rightarrow>
                   Option.bind (parse_u64 (trim num)) (\<lambda>n. checked_mul_u64 n mult))
              else None))"

definition read_banner :: "read_file \<Rightarrow> str \<Rightarrow> str" where
  "read_banner read value = (case read value of Inr text \<Rightarrow> text | Inl _ \<Rightarrow> value)"

section \<open>The loop\<close>

record parse_state =
  ps_config :: config
  ps_accept_env_seen :: bool
  ps_password_disabled :: bool
  ps_pubkey_disabled :: bool

definition parse_init :: parse_state where
  "parse_init = \<lparr>ps_config = config_default, ps_accept_env_seen = False,
     ps_password_disabled = False, ps_pubkey_disabled = False\<rparr>"

abbreviation set_cfg :: "(config \<Rightarrow> config) \<Rightarrow> parse_state \<Rightarrow> parse_state" where
  "set_cfg f st \<equiv> st\<lparr>ps_config := f (ps_config st)\<rparr>"

abbreviation set_dt :: "(dev_tunnel_config \<Rightarrow> dev_tunnel_config) \<Rightarrow> parse_state \<Rightarrow> parse_state" where
  "set_dt f st \<equiv> set_cfg (\<lambda>c. c\<lparr>cfg_dev_tunnel := f (cfg_dev_tunnel c)\<rparr>) st"

definition directive :: "read_file \<Rightarrow> nat \<Rightarrow> str \<Rightarrow> str \<Rightarrow> parse_state \<Rightarrow> error + parse_state" where
  "directive read lineno lower value st =
     (if lower = lit ''port'' then
        rbind (ok_or (invalid lineno (lit ''Port'') value) (parse_u16 value))
          (\<lambda>p. Inr (set_cfg (\<lambda>c. c\<lparr>cfg_port := p\<rparr>) st))
      else if lower = lit ''listenaddress'' then
        rbind (ok_or (invalid lineno (lit ''ListenAddress'') value) (parse_listen_address value))
          (\<lambda>a. Inr (set_cfg (\<lambda>c. c\<lparr>cfg_bind := a\<rparr>) st))
      else if lower = lit ''hostkey'' then
        Inr (set_cfg (\<lambda>c. c\<lparr>cfg_host_keys := cfg_host_keys c @ [value]\<rparr>) st)
      else if lower = lit ''authorizedkeysfile'' then
        Inr (set_cfg (\<lambda>c. c\<lparr>cfg_authorized_keys :=
          cfg_authorized_keys c @ split_whitespace value\<rparr>) st)
      else if lower = lit ''passwordauthentication'' then
        (let enabled = parse_yes_no value;
             st1 = (if enabled \<noteq> None
                    then set_cfg (\<lambda>c. c\<lparr>cfg_allow_anonymous := False\<rparr>) st else st)
         in Inr (if enabled = Some False then st1\<lparr>ps_password_disabled := True\<rparr> else st1))
      else if lower = lit ''pubkeyauthentication'' then
        (let enabled = parse_yes_no value;
             st1 = (if enabled \<noteq> None
                    then set_cfg (\<lambda>c. c\<lparr>cfg_allow_anonymous := False\<rparr>) st else st)
         in Inr (st1\<lparr>ps_pubkey_disabled := ps_pubkey_disabled st1 \<or> enabled = Some False\<rparr>))
      else if lower = lit ''allowtcpforwarding'' then
        Inr (set_cfg (\<lambda>c. c\<lparr>cfg_allow_tcp_forwarding :=
          to_ascii_lowercase value \<noteq> lit ''no''\<rparr>) st)
      else if lower = lit ''logingracetime'' then
        rbind (ok_or (invalid lineno (lit ''LoginGraceTime'') value) (parse_time value))
          (\<lambda>t. Inr (set_cfg (\<lambda>c. c\<lparr>cfg_login_grace_secs := t\<rparr>) st))
      else if lower = lit ''maxstartups'' then
        rbind (ok_or (invalid lineno (lit ''MaxStartups'') value)
            (parse_u32 (hd (split_char 58 value))))
          (\<lambda>n. Inr (set_cfg (\<lambda>c. c\<lparr>cfg_max_startups := n\<rparr>) st))
      else if lower = lit ''acceptenv'' then
        (let st1 = (if \<not> ps_accept_env_seen st
                    then (set_cfg (\<lambda>c. c\<lparr>cfg_accept_env := []\<rparr>) st)\<lparr>ps_accept_env_seen := True\<rparr>
                    else st)
         in Inr (set_cfg (\<lambda>c. c\<lparr>cfg_accept_env := cfg_accept_env c @ split_whitespace value\<rparr>) st1))
      else if lower = lit ''devtunnelenable'' then
        rbind (ok_or (invalid lineno (lit ''DevTunnelEnable'') value) (parse_yes_no value))
          (\<lambda>b. Inr (set_dt (\<lambda>d. d\<lparr>dt_enabled := b\<rparr>) st))
      else if lower = lit ''devtunnelbin'' then
        (if value = [] then Inl (invalid lineno (lit ''DevTunnelBin'') value)
         else Inr (set_dt (\<lambda>d. d\<lparr>dt_bin := Some value\<rparr>) st))
      else if lower = lit ''devtunnelid'' then
        (if \<not> valid_tunnel_id value then Inl (invalid lineno (lit ''DevTunnelId'') value)
         else Inr (set_dt (\<lambda>d. d\<lparr>dt_id := Some value\<rparr>) st))
      else if lower = lit ''devtunnellabel'' then
        Inr (set_dt (\<lambda>d. d\<lparr>dt_labels := dt_labels d @ [value]\<rparr>) st)
      else if lower = lit ''devtunnelautocreate'' then
        rbind (ok_or (invalid lineno (lit ''DevTunnelAutoCreate'') value) (parse_yes_no value))
          (\<lambda>b. Inr (set_dt (\<lambda>d. d\<lparr>dt_auto_create := b\<rparr>) st))
      else if lower = lit ''devtunneltimeout'' then
        (case parse_tunnel_timeout value of
           Inl _ \<Rightarrow> Inl (invalid lineno (lit ''DevTunnelTimeout'') value)
         | Inr t \<Rightarrow> Inr (set_dt (\<lambda>d. d\<lparr>dt_timeout_secs := t\<rparr>) st))
      else if lower = lit ''shell'' \<or> lower = lit ''forcecommand'' then
        Inr (set_cfg (\<lambda>c. c\<lparr>cfg_shell := Some value\<rparr>) st)
      else if lower = lit ''banner'' then
        Inr (set_cfg (\<lambda>c. c\<lparr>cfg_banner := Some (read_banner read value)\<rparr>) st)
      else Inr st)"

definition split_directive :: "str \<Rightarrow> str \<times> str" where
  "split_directive line =
     (case split_once_pred is_whitespace line of
        Some (k, v) \<Rightarrow> (k, trim v)
      | None \<Rightarrow> (line, []))"

definition parse_line :: "read_file \<Rightarrow> nat \<Rightarrow> str \<Rightarrow> parse_state \<Rightarrow> error + parse_state" where
  "parse_line read lineno raw st =
     (let line = trim (strip_comment raw)
      in if line = [] then Inr st
         else case split_directive line of (key, value) \<Rightarrow>
           directive read lineno (to_ascii_lowercase key) value st)"

fun parse_loop :: "read_file \<Rightarrow> nat \<Rightarrow> str list \<Rightarrow> parse_state \<Rightarrow> error + parse_state" where
  "parse_loop read n [] st = Inr st"
| "parse_loop read n (raw # rest) st =
     rbind (parse_line read n raw st) (\<lambda>st'. parse_loop read (Suc n) rest st')"

text \<open>What happens after the loop.\<close>

definition parse_finish :: "parse_state \<Rightarrow> error + config" where
  "parse_finish st =
     (let c0 = ps_config st;
          c1 = (if ps_password_disabled st then c0\<lparr>cfg_password := None\<rparr> else c0);
          c2 = (if ps_pubkey_disabled st
                then c1\<lparr>cfg_authorized_keys := [], cfg_authorized_key_lines := []\<rparr> else c1)
      in rbind (validate_dev_tunnel c2) (\<lambda>_. Inr c2))"

definition parse_config :: "read_file \<Rightarrow> str \<Rightarrow> error + config" where
  "parse_config read input =
     rbind (parse_loop read 1 (str_lines input) parse_init) parse_finish"

definition home_relative :: "path option \<Rightarrow> path \<Rightarrow> error + path" where
  "home_relative home p =
     (if \<not> is_absolute p then
        (case home of
           None \<Rightarrow> Inl (ErrConfigFile sshd_config_path (RelativeKeysWithoutHome p))
         | Some h \<Rightarrow> Inr (path_join h p))
      else Inr p)"

definition parse_for_user :: "read_file \<Rightarrow> str \<Rightarrow> path option \<Rightarrow> error + config" where
  "parse_for_user read input home =
     rbind (parse_config read input) (\<lambda>c.
       rbind (rmap (home_relative home) (cfg_authorized_keys c)) (\<lambda>ks.
         Inr (c\<lparr>cfg_authorized_keys := ks\<rparr>)))"

definition with_path :: "path \<Rightarrow> error \<Rightarrow> error" where
  "with_path p e = (case e of ErrConfigFile _ m \<Rightarrow> ErrConfigFile p m | other \<Rightarrow> other)"

definition load_file :: "read_file \<Rightarrow> path option \<Rightarrow> path \<Rightarrow> error + config" where
  "load_file read home p =
     (if (case extension p of None \<Rightarrow> False | Some e \<Rightarrow> eq_ignore_ascii_case e (lit ''toml''))
      then Inl (ErrConfigFile p TomlUnsupported)
      else case read p of
             Inl e \<Rightarrow> Inl (ErrConfigFile p (ReadFailed e))
           | Inr content \<Rightarrow>
               (case parse_for_user read content home of
                  Inl e \<Rightarrow> Inl (with_path p e)
                | Inr c \<Rightarrow> Inr c))"

section \<open>One line\<close>

text \<open>The key (lower case) and value a line carries, if it carries any.\<close>

definition line_directive :: "str \<Rightarrow> (str \<times> str) option" where
  "line_directive raw =
     (let line = trim (strip_comment raw)
      in if line = [] then None
         else case split_directive line of (k, v) \<Rightarrow> Some (to_ascii_lowercase k, v))"

lemma parse_line_directive:
  "parse_line read n raw st =
     (case line_directive raw of None \<Rightarrow> Inr st | Some (k, v) \<Rightarrow> directive read n k v st)"
  by (simp add: parse_line_def line_directive_def Let_def split: prod.splits)

text \<open>The directives the parser knows.\<close>

definition known_directives :: "str list" where
  "known_directives = map lit [''port'', ''listenaddress'', ''hostkey'', ''authorizedkeysfile'',
     ''passwordauthentication'', ''pubkeyauthentication'', ''allowtcpforwarding'',
     ''logingracetime'', ''maxstartups'', ''acceptenv'', ''devtunnelenable'', ''devtunnelbin'',
     ''devtunnelid'', ''devtunnellabel'', ''devtunnelautocreate'', ''devtunneltimeout'',
     ''shell'', ''forcecommand'', ''banner'']"

lemma directive_unknown: "k \<notin> set known_directives \<Longrightarrow> directive read n k v st = Inr st"
  unfolding directive_def known_directives_def by simp

text \<open>Whether a line parses, and to which state, does not depend on its number.\<close>

lemma directive_lineno: "directive read n k v st = Inr st' \<longleftrightarrow> directive read m k v st = Inr st'"
  unfolding directive_def by (simp split: sum.split)

lemma parse_line_lineno: "parse_line read n raw st = Inr st' \<longleftrightarrow> parse_line read m raw st = Inr st'"
  using directive_lineno by (simp add: parse_line_directive split: option.split)

text \<open>A line that changes nothing: blank, a comment, or an unknown directive.\<close>

definition ignored_line :: "str \<Rightarrow> bool" where
  "ignored_line raw \<longleftrightarrow>
     (case line_directive raw of None \<Rightarrow> True | Some (k, v) \<Rightarrow> k \<notin> set known_directives)"

lemma parse_line_ignored: "ignored_line raw \<Longrightarrow> parse_line read n raw st = Inr st"
  by (auto simp: ignored_line_def parse_line_directive directive_unknown split: option.splits)

section \<open>What later lines keep\<close>

text \<open>No directive turns anonymous access back on, and none takes back that a method is
  disabled.\<close>

definition restricts :: "parse_state \<Rightarrow> parse_state \<Rightarrow> bool" where
  "restricts st st' \<longleftrightarrow>
     (cfg_allow_anonymous (ps_config st') \<longrightarrow> cfg_allow_anonymous (ps_config st)) \<and>
     (ps_password_disabled st \<longrightarrow> ps_password_disabled st') \<and>
     (ps_pubkey_disabled st \<longrightarrow> ps_pubkey_disabled st')"

lemma restricts_refl [simp]: "restricts st st"
  by (simp add: restricts_def)

lemma restricts_trans: "restricts a b \<Longrightarrow> restricts b c \<Longrightarrow> restricts a c"
  by (auto simp: restricts_def)

lemma directive_restricts: "directive read n k v st = Inr st' \<Longrightarrow> restricts st st'"
  unfolding directive_def restricts_def Let_def
  by (simp split: if_splits sum.splits) auto

lemma parse_line_restricts: "parse_line read n raw st = Inr st' \<Longrightarrow> restricts st st'"
  by (auto simp: parse_line_directive split: option.splits intro: directive_restricts)

lemma parse_loop_restricts: "parse_loop read n ls st = Inr st' \<Longrightarrow> restricts st st'"
  by (induction ls arbitrary: n st) (auto dest: parse_line_restricts intro: restricts_trans)

text \<open>A line of the loop takes effect: its state is restricted by the final state.\<close>

lemma parse_loop_line:
  assumes "parse_loop read n ls st = Inr st'" and "raw \<in> set ls"
  shows "\<exists>m s1 s2. parse_line read m raw s1 = Inr s2 \<and> restricts s2 st'"
  using assms
proof (induction ls arbitrary: n st)
  case (Cons l ls)
  from Cons.prems obtain s2 where s2: "parse_line read n l st = Inr s2" "parse_loop read (Suc n) ls s2 = Inr st'"
    by auto
  show ?case
  proof (cases "raw = l")
    case True
    with s2 show ?thesis using parse_loop_restricts by blast
  next
    case False
    with Cons.prems(2) have "raw \<in> set ls" by simp
    with s2(2) show ?thesis by (rule Cons.IH)
  qed
qed simp

lemma parse_config_Inr:
  "parse_config read input = Inr c \<longleftrightarrow>
     (\<exists>st. parse_loop read 1 (str_lines input) parse_init = Inr st \<and> parse_finish st = Inr c)"
  by (simp add: parse_config_def)

lemma parse_finish_Inr:
  assumes "parse_finish st = Inr c"
  shows "validate_dev_tunnel c = Inr ()"
    and "cfg_allow_anonymous c = cfg_allow_anonymous (ps_config st)"
    and "ps_pubkey_disabled st \<Longrightarrow> cfg_authorized_keys c = [] \<and> cfg_authorized_key_lines c = []"
    and "ps_password_disabled st \<Longrightarrow> cfg_password c = None"
  using assms by (auto simp: parse_finish_def Let_def split: if_splits)

section \<open>Properties of the parser\<close>

text \<open>A line that sets an authentication switch to \<open>yes\<close> or \<open>no\<close>.\<close>

definition auth_switch :: "string \<Rightarrow> bool \<Rightarrow> str \<Rightarrow> bool" where
  "auth_switch key b raw \<longleftrightarrow>
     (case line_directive raw of
        None \<Rightarrow> False
      | Some (k, v) \<Rightarrow> k = lit key \<and> parse_yes_no v = Some b)"

lemma password_switch:
  "auth_switch ''passwordauthentication'' b raw \<Longrightarrow> parse_line read n raw st = Inr st' \<Longrightarrow>
   \<not> cfg_allow_anonymous (ps_config st') \<and> (b \<or> ps_password_disabled st')"
  by (cases b) (auto simp: auth_switch_def parse_line_directive directive_def text_eval Let_def
      split: option.splits simp del: not_None_eq)

lemma pubkey_switch:
  "auth_switch ''pubkeyauthentication'' b raw \<Longrightarrow> parse_line read n raw st = Inr st' \<Longrightarrow>
   \<not> cfg_allow_anonymous (ps_config st') \<and> (b \<or> ps_pubkey_disabled st')"
  by (cases b) (auto simp: auth_switch_def parse_line_directive directive_def text_eval Let_def
      split: option.splits simp del: not_None_eq)

text \<open>Every line of an accepted file was accepted in a state whose restrictions the closing steps still see.\<close>

lemma parse_config_line:
  assumes "parse_config read input = Inr c" and "raw \<in> set (str_lines input)"
  shows "\<exists>m s1 s2 st. parse_line read m raw s1 = Inr s2 \<and> restricts s2 st \<and> parse_finish st = Inr c"
  using assms parse_loop_line by (fastforce simp: parse_config_Inr)

lemma auth_switch_line:
  assumes "auth_switch ''passwordauthentication'' b raw \<or> auth_switch ''pubkeyauthentication'' b raw"
    and "parse_line read m raw s1 = Inr s2"
  shows "\<not> cfg_allow_anonymous (ps_config s2)"
  using assms password_switch pubkey_switch by blast

lemma restricts_anonymous:
  "restricts s2 st \<Longrightarrow> parse_finish st = Inr c \<Longrightarrow> \<not> cfg_allow_anonymous (ps_config s2) \<Longrightarrow> \<not> cfg_allow_anonymous c"
  using parse_finish_Inr(2) by (auto simp: restricts_def)

text \<open>
  C8. Fail closed: a configuration file with a \<open>PasswordAuthentication\<close> or
  \<open>PubkeyAuthentication\<close> line that says yes or no, wherever the line stands and whatever else
  the file holds, never yields a configuration that allows anonymous access.
\<close>

theorem auth_directive_disables_anonymous:
  assumes "parse_config read input = Inr c" and "raw \<in> set (str_lines input)"
    and "auth_switch ''passwordauthentication'' b raw \<or> auth_switch ''pubkeyauthentication'' b raw"
  shows "\<not> cfg_allow_anonymous c"
  using parse_config_line [OF assms(1,2)] auth_switch_line [OF assms(3)] restricts_anonymous by blast

theorem auth_directive_disables_anonymous_witness:
  "\<exists>c. parse_config (\<lambda>_. Inl (IoError NotFound [])) (lit ''PasswordAuthentication No'') = Inr c \<and>
     \<not> cfg_allow_anonymous c"
proof -
  let ?r = "\<lambda>_. Inl (IoError NotFound [])" and ?i = "lit ''PasswordAuthentication No''"
  have "\<exists>c. parse_config ?r ?i = Inr c"
    by (simp add: parse_config_def parse_line_def strip_comment_def split_directive_def directive_def
        parse_yes_no_def parse_init_def parse_finish_def text_eval Let_def validate_dev_tunnel_def
        config_default_def dev_tunnel_default_def)
  then obtain c where c: "parse_config ?r ?i = Inr c" by blast
  moreover have "\<not> cfg_allow_anonymous c"
    by (rule auth_directive_disables_anonymous [OF c, of ?i False])
       (simp_all add: auth_switch_def line_directive_def strip_comment_def split_directive_def
         parse_yes_no_def text_eval Let_def)
  ultimately show ?thesis by blast
qed

text \<open>
  \<open>PubkeyAuthentication no\<close> revokes every key: wherever the line stands, before or after
  the \<open>AuthorizedKeysFile\<close> lines, the resulting configuration names no key file and no inline
  key.
\<close>

theorem pubkey_no_clears_keys:
  assumes "parse_config read input = Inr c" and "raw \<in> set (str_lines input)"
    and "auth_switch ''pubkeyauthentication'' False raw"
  shows "cfg_authorized_keys c = [] \<and> cfg_authorized_key_lines c = []"
proof -
  obtain m s1 s2 st where l: "parse_line read m raw s1 = Inr s2" "restricts s2 st" "parse_finish st = Inr c"
    using parse_config_line [OF assms(1,2)] by blast
  have "ps_pubkey_disabled st"
    using pubkey_switch [OF assms(3) l(1)] l(2) by (simp add: restricts_def)
  then show ?thesis by (rule parse_finish_Inr(3) [OF l(3)])
qed

theorem pubkey_no_clears_keys_witness:
  "\<exists>c. parse_config (\<lambda>_. Inl (IoError NotFound []))
      (lit ''pubkeyauthentication no'' @ 10 # lit ''AuthorizedKeysFile /k'') = Inr c \<and>
     cfg_authorized_keys c = []"
proof -
  let ?r = "\<lambda>_. Inl (IoError NotFound [])"
  let ?i = "lit ''pubkeyauthentication no'' @ 10 # lit ''AuthorizedKeysFile /k''"
  have "\<exists>c. parse_config ?r ?i = Inr c"
    by (simp add: parse_config_def parse_line_def strip_comment_def split_directive_def directive_def
        parse_yes_no_def parse_init_def parse_finish_def text_eval Let_def validate_dev_tunnel_def
        config_default_def dev_tunnel_default_def)
  then obtain c where c: "parse_config ?r ?i = Inr c" by blast
  moreover have "cfg_authorized_keys c = [] \<and> cfg_authorized_key_lines c = []"
    by (rule pubkey_no_clears_keys [OF c, of "lit ''pubkeyauthentication no''"])
       (simp_all add: auth_switch_def line_directive_def strip_comment_def split_directive_def
         parse_yes_no_def text_eval Let_def)
  ultimately show ?thesis by blast
qed

lemma parse_loop_lineno:
  "parse_loop read n ls st = Inr st' \<longleftrightarrow> parse_loop read m ls st = Inr st'"
proof (induction ls arbitrary: n m st)
  case (Cons l ls)
  have "parse_loop read (Suc n) ls x = Inr st' \<longleftrightarrow> parse_loop read (Suc m) ls x = Inr st'" for x
    by (rule Cons.IH)
  then show ?case
    using parse_line_lineno [of read n l st _ m] by (simp only: parse_loop.simps rbind_eq_Inr)
qed simp

text \<open>
  Unknown directives, comments and blank lines are harmless: taking them out of a file
  changes neither whether its lines are accepted nor the state they lead to.
\<close>

theorem ignored_lines_harmless:
  "parse_loop read 1 ls st = Inr st' \<longleftrightarrow>
   parse_loop read 1 (filter (\<lambda>l. \<not> ignored_line l) ls) st = Inr st'"
proof (induction ls arbitrary: st)
  case (Cons l ls)
  show ?case
  proof (cases "ignored_line l")
    case True
    then show ?thesis
      using Cons.IH [of st] parse_loop_lineno [of read "Suc 1" ls st st' 1]
      by (simp add: parse_line_ignored)
  next
    case False
    then show ?thesis
      using Cons.IH parse_loop_lineno [of read "Suc 1" _ _ st' 1] by simp
  qed
qed simp

section \<open>Key files\<close>

text \<open>The key files a line names.\<close>

definition key_files :: "str \<Rightarrow> str list" where
  "key_files raw =
     (case line_directive raw of
        None \<Rightarrow> []
      | Some (k, v) \<Rightarrow> if k = lit ''authorizedkeysfile'' then split_whitespace v else [])"

lemma directive_keys_other:
  assumes "directive read n k v st = Inr st'" and "k \<noteq> lit ''authorizedkeysfile''" and "k \<noteq> lit ''pubkeyauthentication''"
  shows "cfg_authorized_keys (ps_config st') = cfg_authorized_keys (ps_config st) \<and> ps_pubkey_disabled st' = ps_pubkey_disabled st"
  using assms(1) unfolding directive_def Let_def
  by (simp only: assms(2,3) if_False) (simp split: if_splits sum.splits; auto)

lemma directive_keys:
  assumes "directive read n k v st = Inr st'"
  shows "cfg_authorized_keys (ps_config st') =
       cfg_authorized_keys (ps_config st) @ (if k = lit ''authorizedkeysfile'' then split_whitespace v else []) \<and>
     (ps_pubkey_disabled st' \<longleftrightarrow>
       ps_pubkey_disabled st \<or> k = lit ''pubkeyauthentication'' \<and> parse_yes_no v = Some False)"
proof -
  consider "k = lit ''authorizedkeysfile''" | "k = lit ''pubkeyauthentication''"
    | "k \<noteq> lit ''authorizedkeysfile''" "k \<noteq> lit ''pubkeyauthentication''" by blast
  then show ?thesis
  proof cases
    case 1
    then show ?thesis using assms by (auto simp: directive_def text_eval)
  next
    case 2
    then show ?thesis using assms by (auto simp: directive_def text_eval Let_def split: if_splits)
  next
    case 3
    then show ?thesis using directive_keys_other [OF assms] by simp
  qed
qed

lemma parse_line_keys:
  "parse_line read n raw st = Inr st' \<Longrightarrow>
     cfg_authorized_keys (ps_config st') = cfg_authorized_keys (ps_config st) @ key_files raw \<and>
     (ps_pubkey_disabled st' \<longleftrightarrow> ps_pubkey_disabled st \<or> auth_switch ''pubkeyauthentication'' False raw)"
  by (auto simp: parse_line_directive key_files_def auth_switch_def dest!: directive_keys split: option.splits)

lemma parse_loop_keys:
  "parse_loop read n ls st = Inr st' \<Longrightarrow>
     cfg_authorized_keys (ps_config st') = cfg_authorized_keys (ps_config st) @ concat (map key_files ls) \<and>
     (ps_pubkey_disabled st' \<longleftrightarrow>
       ps_pubkey_disabled st \<or> (\<exists>raw \<in> set ls. auth_switch ''pubkeyauthentication'' False raw))"
  by (induction ls arbitrary: n st) (auto dest!: parse_line_keys)

text \<open>The key files of a file: none when public keys are switched off, otherwise all that its lines name.\<close>

definition named_key_files :: "str \<Rightarrow> str list" where
  "named_key_files content =
     (if list_ex (auth_switch ''pubkeyauthentication'' False) (str_lines content) then []
      else concat (map key_files (str_lines content)))"

lemma parse_config_keys:
  assumes "parse_config read content = Inr c"
  shows "cfg_authorized_keys c = named_key_files content"
proof -
  obtain st where st: "parse_loop read 1 (str_lines content) parse_init = Inr st" "parse_finish st = Inr c"
    using assms by (auto simp: parse_config_Inr)
  then show ?thesis
    using parse_loop_keys [OF st(1)] st(2)
    by (auto simp: named_key_files_def list_ex_iff parse_finish_def parse_init_def config_default_def Let_def
        split: if_splits)
qed

text \<open>
  C24. A configuration that loads is the one its file describes as far as keys and the tunnel go: its key
  files are exactly those the lines of the file name, in order, each as it is written when it is
  absolute and otherwise joined to the home directory, which then is known; there are none when a
  line switches public keys off; and the tunnel identifier, labels and timeout have passed their checks.
\<close>

theorem load_file_sound:
  assumes "load_file read home p = Inr c"
  shows "\<exists>content. read p = Inr content \<and> validate_dev_tunnel c = Inr () \<and>
    list_all2 (\<lambda>k k'. if is_absolute k then k' = k else \<exists>h. home = Some h \<and> k' = path_join h k)
      (named_key_files content) (cfg_authorized_keys c)"
proof -
  obtain content where r: "read p = Inr content" "parse_for_user read content home = Inr c"
    using assms(1) by (auto simp: load_file_def split: if_splits sum.splits)
  then obtain c0 ks where c0: "parse_config read content = Inr c0"
      and ks: "list_all2 (\<lambda>x y. home_relative home x = Inr y) (cfg_authorized_keys c0) ks"
      and c: "c = c0\<lparr>cfg_authorized_keys := ks\<rparr>"
    by (auto simp: parse_for_user_def rmap_Inr)
  have "validate_dev_tunnel c0 = Inr ()"
    using c0 parse_finish_Inr(1) by (auto simp: parse_config_Inr)
  moreover have "list_all2 (\<lambda>k k'. if is_absolute k then k' = k else \<exists>h. home = Some h \<and> k' = path_join h k)
      (named_key_files content) ks"
    using ks unfolding parse_config_keys [OF c0]
    by (rule list_all2_mono) (auto simp: home_relative_def split: if_splits option.splits)
  ultimately show ?thesis using r(1) by (simp add: c validate_dev_tunnel_def)
qed

theorem load_file_sound_witness:
  "\<exists>c. load_file (\<lambda>_. Inr (lit ''AuthorizedKeysFile k /m'')) (Some (lit ''/h'')) (lit ''/c'') = Inr c \<and>
     cfg_authorized_keys c = [lit ''/h/k'', lit ''/m'']"
proof -
  let ?r = "\<lambda>_. Inr (lit ''AuthorizedKeysFile k /m'')"
  have "\<exists>c. load_file ?r (Some (lit ''/h'')) (lit ''/c'') = Inr c"
    by (simp add: load_file_def parse_for_user_def home_relative_def parse_config_def parse_line_def
        strip_comment_def split_directive_def directive_def parse_init_def parse_finish_def text_eval
        Let_def validate_dev_tunnel_def config_default_def dev_tunnel_default_def)
  then obtain c where c: "load_file ?r (Some (lit ''/h'')) (lit ''/c'') = Inr c" by blast
  have "named_key_files (lit ''AuthorizedKeysFile k /m'') = [lit ''k'', lit ''/m'']"
    by (simp add: named_key_files_def key_files_def auth_switch_def line_directive_def strip_comment_def
        split_directive_def text_eval Let_def)
  then have "cfg_authorized_keys c = [lit ''/h/k'', lit ''/m'']"
    using load_file_sound [OF c] by (auto simp: list_all2_Cons1 text_eval)
  with c show ?thesis by blast
qed

end
