(* ===== verification/Auth.thy ===== *)
theory Auth
  imports SshdConfig
begin

text \<open>
  \<open>auth.rs\<close>: the authentication policy derived from a \<open>Config\<close>. Public keys belong to the
  \<open>russh\<close> library: their type is the parameter \<open>'k\<close>, reading one from its OpenSSH line is
  the parameter \<open>from_openssh\<close> and the part that is compared is \<open>key_data\<close>.
\<close>

section \<open>Requests and policy\<close>

datatype 'k auth_method = MNone | MPassword str | MPublicKey 'k

record 'k auth_request =
  req_user :: str
  req_method :: "'k auth_method"

datatype auth_result = AuthAccept | AuthReject | AuthPartial

datatype method_kind = KindNone | KindPublicKey | KindPassword

record 'k auth_config =
  ac_anonymous :: bool
  ac_password :: "str option"
  ac_authorized_keys :: "'k list"

section \<open>Building the policy\<close>

text \<open>Comment lines and lines that are no key are skipped; only reading can fail.\<close>

fun authorized_keys_lines :: "(str \<Rightarrow> str + 'k) \<Rightarrow> str list \<Rightarrow> 'k list \<Rightarrow> 'k list" where
  "authorized_keys_lines from_openssh [] out = out"
| "authorized_keys_lines from_openssh (raw # rest) out =
     (let line = trim raw
      in if line = [] \<or> starts_with line [35] then authorized_keys_lines from_openssh rest out
         else case from_openssh line of
                Inr key \<Rightarrow> authorized_keys_lines from_openssh rest (out @ [key])
              | Inl _ \<Rightarrow> authorized_keys_lines from_openssh rest out)"

definition load_authorized_keys_file ::
  "read_file \<Rightarrow> (str \<Rightarrow> str + 'k) \<Rightarrow> path \<Rightarrow> 'k list \<Rightarrow> error + 'k list" where
  "load_authorized_keys_file read from_openssh p out =
     (case read p of
        Inl source \<Rightarrow> Inl (ErrAuthorizedKeys p source)
      | Inr content \<Rightarrow> Inr (authorized_keys_lines from_openssh (str_lines content) out))"

definition parse_public_key_line :: "(str \<Rightarrow> str + 'k) \<Rightarrow> str \<Rightarrow> error + 'k" where
  "parse_public_key_line from_openssh line =
     (case from_openssh (trim line) of
        Inl e \<Rightarrow> Inl (ErrPublicKey (lit ''could not parse inline public key: '' @ e))
      | Inr k \<Rightarrow> Inr k)"

fun load_key_files ::
  "read_file \<Rightarrow> (str \<Rightarrow> str + 'k) \<Rightarrow> path list \<Rightarrow> 'k list \<Rightarrow> error + 'k list" where
  "load_key_files read from_openssh [] out = Inr out"
| "load_key_files read from_openssh (p # ps) out =
     rbind (load_authorized_keys_file read from_openssh p out)
       (\<lambda>out'. load_key_files read from_openssh ps out')"

fun push_key_lines :: "(str \<Rightarrow> str + 'k) \<Rightarrow> str list \<Rightarrow> 'k list \<Rightarrow> error + 'k list" where
  "push_key_lines from_openssh [] out = Inr out"
| "push_key_lines from_openssh (l # ls) out =
     rbind (parse_public_key_line from_openssh l)
       (\<lambda>k. push_key_lines from_openssh ls (out @ [k]))"

definition from_config :: "read_file \<Rightarrow> (str \<Rightarrow> str + 'k) \<Rightarrow> config \<Rightarrow> error + 'k auth_config" where
  "from_config read from_openssh cfg =
     rbind (load_key_files read from_openssh (cfg_authorized_keys cfg) []) (\<lambda>keys.
     rbind (push_key_lines from_openssh (cfg_authorized_key_lines cfg) keys) (\<lambda>keys'.
       Inr \<lparr>ac_anonymous = cfg_allow_anonymous cfg \<and> \<not> has_explicit_auth cfg,
            ac_password = cfg_password cfg,
            ac_authorized_keys = keys'\<rparr>))"

section \<open>Using the policy\<close>

definition method_set :: "'k auth_config \<Rightarrow> bool \<Rightarrow> method_kind list" where
  "method_set a has_hook =
     (if has_hook then [KindNone, KindPublicKey, KindPassword]
      else (if ac_anonymous a then [KindNone] else []) @
           (if ac_authorized_keys a \<noteq> [] then [KindPublicKey] else []) @
           (if ac_password a \<noteq> None then [KindPassword] else []))"

definition constant_time_eq :: "u8 list \<Rightarrow> u8 list \<Rightarrow> bool" where
  "constant_time_eq a b =
     (if length a \<noteq> length b then False
      else foldl (\<lambda>diff (x, y). diff OR (x XOR y)) 0 (zip a b) = 0)"

definition check_password :: "'k auth_config \<Rightarrow> str \<Rightarrow> bool" where
  "check_password a password =
     (case ac_password a of
        Some expected \<Rightarrow> constant_time_eq (as_bytes expected) (as_bytes password)
      | None \<Rightarrow> False)"

definition check_publickey :: "('k \<Rightarrow> 'd) \<Rightarrow> 'k auth_config \<Rightarrow> 'k \<Rightarrow> bool" where
  "check_publickey key_data a key =
     list_ex (\<lambda>k. key_data k = key_data key) (ac_authorized_keys a)"

section \<open>The comparison\<close>

lemma constant_time_eq_iff: "constant_time_eq a b \<longleftrightarrow> a = b"
  by (auto simp: constant_time_eq_def fold_or_xor_0)

text \<open>The password comparison meets the contract of \<open>byte_equality\<close>: on texts of Unicode
  scalar values it decides equality.\<close>

interpretation password_eq: byte_equality
  "\<lambda>a b. constant_time_eq (as_bytes a) (as_bytes b)" as_bytes
  by unfold_locales (rule constant_time_eq_iff)

lemma check_password_iff:
  assumes "valid_str p" and "\<forall>e. ac_password a = Some e \<longrightarrow> valid_str e"
  shows "check_password a p \<longleftrightarrow> ac_password a = Some p"
  using assms password_eq.same_iff_eq [OF as_bytes_inj]
  by (auto simp: check_password_def split: option.splits)

lemma check_publickey_iff:
  "check_publickey key_data a k \<longleftrightarrow> key_data k \<in> key_data ` set (ac_authorized_keys a)"
  by (auto simp: check_publickey_def list_ex_iff image_iff intro: sym)

section \<open>The keys of a policy\<close>

text \<open>The keys that one line of an \<open>authorized_keys\<close> file contributes.\<close>

definition line_keys :: "(str \<Rightarrow> str + 'k) \<Rightarrow> str \<Rightarrow> 'k list" where
  "line_keys from_openssh raw =
     (let line = trim raw
      in if line = [] \<or> starts_with line [35] then []
         else case from_openssh line of Inr key \<Rightarrow> [key] | Inl _ \<Rightarrow> [])"

lemma authorized_keys_lines_concat:
  "authorized_keys_lines fo ls out = out @ concat (map (line_keys fo) ls)"
  by (induction ls arbitrary: out)
     (simp_all add: line_keys_def Let_def split: sum.split)

lemma load_key_files_Inr:
  "load_key_files read fo ps out = Inr out' \<longleftrightarrow>
     (\<exists>cs. list_all2 (\<lambda>p c. read p = Inr c) ps cs \<and>
        out' = out @ concat (map (line_keys fo) (concat (map str_lines cs))))"
proof (induction ps arbitrary: out)
  case (Cons p ps)
  show ?case
    by (cases "read p")
       (auto simp: load_authorized_keys_file_def authorized_keys_lines_concat Cons.IH list_all2_Cons1)
qed auto

lemma push_key_lines_Inr:
  "push_key_lines fo ls out = Inr out' \<longleftrightarrow>
     (\<exists>ks. list_all2 (\<lambda>l k. fo (trim l) = Inr k) ls ks \<and> out' = out @ ks)"
proof (induction ls arbitrary: out)
  case (Cons l ls)
  show ?case
    by (cases "fo (trim l)")
       (auto simp: parse_public_key_line_def Cons.IH list_all2_Cons1)
qed auto

lemma from_config_Inr:
  assumes "from_config read fo cfg = Inr a"
  shows "ac_anonymous a \<longleftrightarrow> cfg_allow_anonymous cfg \<and> \<not> has_explicit_auth cfg"
    and "ac_password a = cfg_password cfg"
    and "load_key_files read fo (cfg_authorized_keys cfg) [] = Inr ks \<Longrightarrow>
      push_key_lines fo (cfg_authorized_key_lines cfg) ks = Inr (ac_authorized_keys a)"
  using assms by (auto simp: from_config_def)

text \<open>
  The keys a server accepts are exactly those of its configuration: a policy is built only
  when every \<open>authorized_keys\<close> file can be read and every inline key parses, and its keys are
  the parsable, uncommented lines of the files in order followed by the inline keys.
\<close>

theorem from_config_keys:
  "from_config read fo cfg = Inr a \<longleftrightarrow>
     (\<exists>contents inline.
        list_all2 (\<lambda>p c. read p = Inr c) (cfg_authorized_keys cfg) contents \<and>
        list_all2 (\<lambda>l k. fo (trim l) = Inr k) (cfg_authorized_key_lines cfg) inline \<and>
        a = \<lparr>ac_anonymous = cfg_allow_anonymous cfg \<and> \<not> has_explicit_auth cfg,
             ac_password = cfg_password cfg,
             ac_authorized_keys =
               concat (map (line_keys fo) (concat (map str_lines contents))) @ inline\<rparr>)"
  unfolding from_config_def rbind_eq_Inr load_key_files_Inr push_key_lines_Inr by auto

text \<open>
  Anonymous access and credentials exclude each other: a policy that admits anonymous
  clients has no password and no key, so it admits nobody by another method.
\<close>

theorem anonymous_excludes_credentials:
  assumes "from_config read fo cfg = Inr a" and "ac_anonymous a"
  shows "ac_password a = None \<and> ac_authorized_keys a = [] \<and> method_set a False = [KindNone]"
  using assms by (auto simp: from_config_def has_explicit_auth_def method_set_def)

theorem anonymous_excludes_credentials_witness:
  "\<exists>a. from_config (\<lambda>_. Inl (IoError NotFound [])) (\<lambda>_. Inl [] :: str + nat) config_default = Inr a \<and>
     method_set a False = [KindNone]"
proof -
  obtain a where a: "from_config (\<lambda>_. Inl (IoError NotFound [])) (\<lambda>_. Inl [] :: str + nat)
      config_default = Inr a" "ac_anonymous a"
    by (auto simp: from_config_def config_default_def has_explicit_auth_def)
  then show ?thesis using anonymous_excludes_credentials [OF a] by blast
qed

end
