(* ===== verification/Util.thy ===== *)
theory Util
  imports Text
begin

text \<open>
  \<open>util.rs\<close>: the command line splitter that turns \<open>--shell\<close> and \<open>ForceCommand\<close> values into
  a program and its arguments, and the lookup of the launching user's name. The environment
  is a function from variable names to values (\<open>None\<close>: unset or not valid text).
\<close>

section \<open>The current user\<close>

definition current_os_user :: "(str \<Rightarrow> str option) \<Rightarrow> str option" where
  "current_os_user var =
     (case filter (\<lambda>v. case v of None \<Rightarrow> False | Some s \<Rightarrow> s \<noteq> [])
             (map var [lit ''USER'', lit ''LOGNAME'', lit ''USERNAME'']) of
        [] \<Rightarrow> None
      | v # _ \<Rightarrow> v)"

lemma current_os_user_nonempty: "current_os_user var = Some u \<Longrightarrow> u \<noteq> []"
  by (auto simp: current_os_user_def split: list.splits option.splits if_splits)

section \<open>Splitting a command line\<close>

text \<open>The loop of \<open>split_command_line\<close>: the remaining characters, then the mutable variables
  \<open>in_single\<close>, \<open>in_double\<close>, \<open>has_token\<close>, \<open>cur\<close> and \<open>out\<close>.\<close>

fun split_loop :: "str \<Rightarrow> bool \<Rightarrow> bool \<Rightarrow> bool \<Rightarrow> str \<Rightarrow> str list \<Rightarrow> str list" where
  "split_loop [] sq dq tok cur out = (if tok then out @ [cur] else out)"
| "split_loop (c # cs) sq dq tok cur out =
     (if c = 92 \<and> \<not> sq then
        (case cs of
           [] \<Rightarrow> split_loop [] sq dq tok cur out
         | n # cs' \<Rightarrow> split_loop cs' sq dq True (cur @ [n]) out)
      else if c = 39 \<and> \<not> dq then split_loop cs (\<not> sq) dq True cur out
      else if c = 34 \<and> \<not> sq then split_loop cs sq (\<not> dq) True cur out
      else if is_whitespace c \<and> \<not> sq \<and> \<not> dq then
        (if tok then split_loop cs sq dq False [] (out @ [cur])
         else split_loop cs sq dq tok cur out)
      else split_loop cs sq dq True (cur @ [c]) out)"

definition split_command_line :: "str \<Rightarrow> str list" where
  "split_command_line input = split_loop input False False False [] []"

section \<open>Quoting\<close>

text \<open>A word is written as a row of pieces: a character as it is, a character after a backslash, text between
  single quotes, or text between double quotes, in which a character may have a backslash before
  it. What it means has neither the quotes nor those backslashes.\<close>

datatype piece = Bare ch | Escaped ch | InSingle str | InDouble "(bool \<times> ch) list"

fun piece_ok :: "piece \<Rightarrow> bool" where
  "piece_ok (Bare c) = (\<not> is_whitespace c \<and> c \<notin> {34, 39, 92})"
| "piece_ok (Escaped c) = True"
| "piece_ok (InSingle w) = (39 \<notin> set w)"
| "piece_ok (InDouble cs) = (\<forall>(escaped, c) \<in> set cs. escaped \<or> c \<notin> {34, 92})"

fun written :: "piece \<Rightarrow> str" where
  "written (Bare c) = [c]"
| "written (Escaped c) = [92, c]"
| "written (InSingle w) = [39] @ w @ [39]"
| "written (InDouble cs) = [34] @ concat (map (\<lambda>(escaped, c). if escaped then [92, c] else [c]) cs) @ [34]"

fun meant :: "piece \<Rightarrow> str" where
  "meant (Bare c) = [c]"
| "meant (Escaped c) = [c]"
| "meant (InSingle w) = w"
| "meant (InDouble cs) = map snd cs"

lemma split_loop_single:
  "39 \<notin> set w \<Longrightarrow> split_loop (w @ rest) True False True cur out = split_loop rest True False True (cur @ w) out"
  by (induction w arbitrary: cur) auto

lemma split_loop_double:
  "\<forall>(escaped, c) \<in> set cs. escaped \<or> c \<notin> {34, 92} \<Longrightarrow>
   split_loop (concat (map (\<lambda>(escaped, c). if escaped then [92, c] else [c]) cs) @ rest) False True True cur out =
     split_loop rest False True True (cur @ map snd cs) out"
  by (induction cs arbitrary: cur) auto

lemma split_loop_piece:
  "piece_ok p \<Longrightarrow> split_loop (written p @ rest) False False tok cur out = split_loop rest False False True (cur @ meant p) out"
  by (cases p) (simp_all add: split_loop_single split_loop_double)

lemma split_loop_pieces:
  "list_all piece_ok ps \<Longrightarrow>
   split_loop (concat (map written ps) @ rest) False False tok cur out =
     split_loop rest False False (tok \<or> ps \<noteq> []) (cur @ concat (map meant ps)) out"
  by (induction ps arbitrary: tok cur) (simp_all add: split_loop_piece)

lemma blank_plain: "is_whitespace b \<Longrightarrow> b \<noteq> 92 \<and> b \<noteq> 39 \<and> b \<noteq> 34"
  by (auto simp: is_whitespace_def)

lemma split_loop_blanks:
  "list_all is_whitespace bs \<Longrightarrow>
   split_loop (bs @ rest) False False False [] out = split_loop rest False False False [] out"
  by (induction bs) (auto dest: blank_plain)

lemma split_loop_word:
  assumes "ps \<noteq> []" and "list_all piece_ok ps" and "list_all is_whitespace bs" and "bs \<noteq> [] \<or> rest = []"
  shows "split_loop (concat (map written ps) @ bs @ rest) False False False [] out =
     split_loop rest False False False [] (out @ [concat (map meant ps)])"
proof (cases bs)
  case Nil
  then show ?thesis using assms split_loop_pieces [of ps "[]" False "[]" out] by simp
next
  case (Cons b bs')
  then show ?thesis
    using assms split_loop_pieces [OF assms(2), of "bs @ rest" False "[]" out]
      split_loop_blanks [of bs' rest "out @ [concat (map meant ps)]"] blank_plain [of b]
    by simp
qed

text \<open>The words of a line, each with the blanks after it; only the last may have none.\<close>

fun words_ok :: "(piece list \<times> str) list \<Rightarrow> bool" where
  "words_ok [] = True"
| "words_ok ((ps, bs) # ws) =
     (ps \<noteq> [] \<and> list_all piece_ok ps \<and> list_all is_whitespace bs \<and> (bs \<noteq> [] \<or> ws = []) \<and> words_ok ws)"

definition line_of :: "(piece list \<times> str) list \<Rightarrow> str" where
  "line_of ws = concat (map (\<lambda>(ps, bs). concat (map written ps) @ bs) ws)"

lemma split_loop_words:
  "words_ok ws \<Longrightarrow>
   split_loop (line_of ws) False False False [] out = out @ map (\<lambda>(ps, bs). concat (map meant ps)) ws"
proof (induction ws arbitrary: out rule: words_ok.induct)
  case (2 ps bs ws)
  have "split_loop (line_of ((ps, bs) # ws)) False False False [] out =
      split_loop (line_of ws) False False False [] (out @ [concat (map meant ps)])"
    using 2(2) split_loop_word [of ps bs "line_of ws" out] by (auto simp: line_of_def)
  then show ?case using 2 by simp
qed (simp add: line_of_def)

text \<open>
  C25. Quoting round trip: however the words of a command line are written (each a row of plain
  characters, escaped characters, single-quoted and double-quoted text, where quoted text may be
  empty and may hold blanks and the other kind of quote), with any blanks before, between and after them,
  splitting the line gives exactly the words that were meant; so every list of words can be
  written and read back.
\<close>

theorem split_command_line_roundtrip:
  assumes "list_all is_whitespace lead" and "words_ok ws"
  shows "split_command_line (lead @ line_of ws) = map (\<lambda>(ps, bs). concat (map meant ps)) ws"
  using split_loop_blanks [OF assms(1), of "line_of ws" "[]"] split_loop_words [OF assms(2), of "[]"]
  by (simp add: split_command_line_def)

text \<open>A line with pieces of all kinds.\<close>

definition example_words :: "(piece list \<times> str) list" where
  "example_words =
     [(map Bare (lit ''sh''), [32]), (map Bare (lit ''-c''), [32, 9]),
      ([InDouble (map (Pair False) (lit ''echo 'hi' '') @ (True, 34) # map (Pair False) (lit ''there''))], [32]),
      ([InSingle (lit ''a b''), Bare 105, Bare 116, Escaped 39, Bare 115], []) ]"

theorem split_command_line_roundtrip_witness:
  "split_command_line ([32] @ line_of example_words) =
     [lit ''sh'', lit ''-c'', lit ''echo 'hi' '' @ [34] @ lit ''there'', lit ''a bit's'']"
  using split_command_line_roundtrip [of "[32]" example_words]
  by (simp add: example_words_def is_whitespace_def lit_def)

end
