(* ===== verification/Session.thy ===== *)
theory Session
  imports Util Config
begin

text \<open>
  \<open>session.rs\<close>: what a session runs, in which environment, and how its output and exit status
  reach the client. The process environment and the file system queries are the record
  \<open>os_env\<close>; spawning a program is a parameter. The three runners (piped, pseudo-terminal,
  custom handler) are step functions over the events their \<open>select!\<close> loops wait for; the order
  of the events is chosen by the environment.
\<close>

section \<open>Requests and commands\<close>

record pty_request =
  pty_term :: str
  pty_cols :: u16
  pty_rows :: u16
  pty_pixel_width :: u16
  pty_pixel_height :: u16

datatype session_request =
    SessShell "pty_request option"
  | SessExec str "pty_request option"

fun request_pty :: "session_request \<Rightarrow> pty_request option" where
  "request_pty (SessShell pty) = pty"
| "request_pty (SessExec _ pty) = pty"

record session_command =
  cmd_program :: str
  cmd_args :: "str list"
  cmd_env :: "(str \<times> str) list"
  cmd_cwd :: "path option"

definition session_command_new :: "str \<Rightarrow> session_command" where
  "session_command_new program =
     \<lparr>cmd_program = program, cmd_args = [], cmd_env = [], cmd_cwd = None\<rparr>"

text \<open>What the process reads from its surroundings.\<close>

record os_env =
  os_var :: "str \<Rightarrow> str option"
  os_home_dir :: "path option"
  os_is_dir :: "path \<Rightarrow> bool"

section \<open>The default resolver\<close>

definition default_shell :: "os_env \<Rightarrow> str list" where
  "default_shell os =
     (case os_var os (lit ''SHELL'') of
        Some s \<Rightarrow> if s \<noteq> [] then [s] else [lit ''/bin/sh'']
      | None \<Rightarrow> [lit ''/bin/sh''])"

definition resolver_new :: "os_env \<Rightarrow> str option \<Rightarrow> str list" where
  "resolver_new os shell =
     (case shell of
        Some s \<Rightarrow> if split_command_line s \<noteq> [] then split_command_line s else default_shell os
      | None \<Rightarrow> default_shell os)"

definition shell_program :: "str list \<Rightarrow> str" where
  "shell_program shell = (case shell of [] \<Rightarrow> lit ''/bin/sh'' | p # _ \<Rightarrow> p)"

definition session_start_dir :: "os_env \<Rightarrow> path option" where
  "session_start_dir os =
     (case os_home_dir os of
        Some home \<Rightarrow> if os_is_dir os home then Some home else None
      | None \<Rightarrow> None)"

definition exec_flag :: "str \<Rightarrow> str" where
  "exec_flag shell =
     (let lower = to_ascii_lowercase (case file_name shell of Some n \<Rightarrow> n | None \<Rightarrow> shell)
      in if lower = lit ''cmd'' \<or> lower = lit ''cmd.exe'' then lit ''/C'' else lit ''-c'')"

fun resolve_command :: "os_env \<Rightarrow> str list \<Rightarrow> session_request \<Rightarrow> session_command" where
  "resolve_command os shell (SessShell _) =
     \<lparr>cmd_program = (case shell of [] \<Rightarrow> lit ''/bin/sh'' | p # _ \<Rightarrow> p),
      cmd_args = tl shell, cmd_env = [], cmd_cwd = session_start_dir os\<rparr>"
| "resolve_command os shell (SessExec command _) =
     \<lparr>cmd_program = shell_program shell,
      cmd_args = [exec_flag (shell_program shell), command],
      cmd_env = [], cmd_cwd = session_start_dir os\<rparr>"

section \<open>The environment of a session\<close>

definition session_env_overrides ::
  "os_env \<Rightarrow> str \<Rightarrow> pty_request option \<Rightarrow> (str \<times> str) list \<Rightarrow> (str \<times> str) list \<Rightarrow> (str \<times> str) list" where
  "session_env_overrides os program pty client_env resolver_env =
     [(lit ''SHELL'', program)] @
     (if os_var os (lit ''HOME'') = None
      then (case os_home_dir os of Some home \<Rightarrow> [(lit ''HOME'', home)] | None \<Rightarrow> []) else []) @
     (case current_os_user (os_var os) of
        Some user \<Rightarrow>
          (if os_var os (lit ''USER'') = None then [(lit ''USER'', user)] else []) @
          (if os_var os (lit ''LOGNAME'') = None then [(lit ''LOGNAME'', user)] else [])
      | None \<Rightarrow> []) @
     (case pty of
        Some p \<Rightarrow> if pty_term p \<noteq> [] then [(lit ''TERM'', pty_term p)] else []
      | None \<Rightarrow> []) @
     client_env @ resolver_env"

text \<open>Setting the variables one after the other on a command builder: the last one wins.\<close>

definition apply_env :: "(str \<Rightarrow> str option) \<Rightarrow> (str \<times> str) list \<Rightarrow> str \<Rightarrow> str option" where
  "apply_env base sets = foldl (\<lambda>m (k, v). m(k \<mapsto> v)) base sets"

section \<open>Output to the client and exit codes\<close>

datatype session_out =
    OStdout "u8 list"
  | OStderr "u8 list"
  | OExitStatus u32
  | OEof
  | OClose

record exit_status =
  es_code :: "i32 option"
  es_signal :: "i32 option"

definition exit_code_of :: "str + exit_status \<Rightarrow> u32" where
  "exit_code_of status =
     (case status of
        Inr st \<Rightarrow>
          (case es_code st of
             Some code \<Rightarrow> code
           | None \<Rightarrow> (case es_signal st of Some s \<Rightarrow> 128 + s | None \<Rightarrow> 1))
      | Inl _ \<Rightarrow> 1)"

definition finish_channel :: "u32 \<Rightarrow> session_out list" where
  "finish_channel code = [OExitStatus code, OEof, OClose]"

definition spawn_in_start_dir :: "session_command \<Rightarrow> (path option \<Rightarrow> str + 'c) \<Rightarrow> str + 'c" where
  "spawn_in_start_dir command spawn =
     (case spawn (cmd_cwd command) of
        Inl e \<Rightarrow> if cmd_cwd command \<noteq> None then spawn None else Inl e
      | Inr c \<Rightarrow> Inr c)"

section \<open>The piped runner\<close>

text \<open>One copy task: the process writes into its pipe and closes it, \<open>copy\<close> reads from the pipe into its
  buffer and gives bytes of the buffer to the channel's writer. It ends at the end of file with all
  given away and flushed, or when a read, a write or the flush fails, an error the task ignores.\<close>

datatype copy_event = CWrote "u8 list" | CClosed | CRead nat | CSent nat | CEnd | CFailed

record copy_state =
  cp_pipe :: "u8 list"
  cp_closed :: bool
  cp_buf :: "u8 list"
  cp_done :: bool

definition copy_init :: copy_state where
  "copy_init = \<lparr>cp_pipe = [], cp_closed = False, cp_buf = [], cp_done = False\<rparr>"

fun copy_adm :: "copy_state \<Rightarrow> copy_event \<Rightarrow> bool" where
  "copy_adm c (CWrote d) = (\<not> cp_done c \<and> \<not> cp_closed c)"
| "copy_adm c CClosed = (\<not> cp_done c \<and> \<not> cp_closed c)"
| "copy_adm c (CRead n) = (\<not> cp_done c \<and> 0 < n \<and> n \<le> length (cp_pipe c))"
| "copy_adm c (CSent n) = (\<not> cp_done c \<and> 0 < n \<and> n \<le> length (cp_buf c))"
| "copy_adm c CEnd = (\<not> cp_done c \<and> cp_closed c \<and> cp_pipe c = [] \<and> cp_buf c = [])"
| "copy_adm c CFailed = (\<not> cp_done c)"

fun copy_step :: "copy_state \<Rightarrow> copy_event \<Rightarrow> copy_state" where
  "copy_step c (CWrote d) = c\<lparr>cp_pipe := cp_pipe c @ d\<rparr>"
| "copy_step c CClosed = c\<lparr>cp_closed := True\<rparr>"
| "copy_step c (CRead n) = c\<lparr>cp_buf := cp_buf c @ take n (cp_pipe c), cp_pipe := drop n (cp_pipe c)\<rparr>"
| "copy_step c (CSent n) = c\<lparr>cp_buf := drop n (cp_buf c)\<rparr>"
| "copy_step c CEnd = c\<lparr>cp_done := True\<rparr>"
| "copy_step c CFailed = c\<lparr>cp_done := True\<rparr>"

fun copy_sends :: "copy_state \<Rightarrow> copy_event \<Rightarrow> u8 list list" where
  "copy_sends c (CSent n) = [take n (cp_buf c)]"
| "copy_sends c _ = []"

text \<open>The runner with its two copy tasks. \<open>PStdin\<close> are bytes that reach the process, \<open>PStdinEnd\<close> is the end of
  that pump (end of file or an error), \<open>PWait\<close> the result of waiting for the process.\<close>

datatype pipe_event =
    PStdin "u8 list" | PStdinEnd
  | PStdout copy_event
  | PStderr copy_event
  | PWait "str + exit_status"

record pipe_state =
  pi_pumping :: bool
  pi_stdin :: "u8 list"
  pi_stdout :: copy_state
  pi_stderr :: copy_state
  pi_status :: "(str + exit_status) option"
  pi_out :: "session_out list"

definition pipe_init :: pipe_state where
  "pipe_init = \<lparr>pi_pumping = True, pi_stdin = [], pi_stdout = copy_init, pi_stderr = copy_init,
     pi_status = None, pi_out = []\<rparr>"

definition pipe_finished :: "pipe_state \<Rightarrow> bool" where
  "pipe_finished s \<longleftrightarrow> pi_status s \<noteq> None \<and> cp_done (pi_stdout s) \<and> cp_done (pi_stderr s)"

fun pipe_adm :: "pipe_state \<Rightarrow> pipe_event \<Rightarrow> bool" where
  "pipe_adm s (PStdin _) = pi_pumping s"
| "pipe_adm s PStdinEnd = pi_pumping s"
| "pipe_adm s (PStdout e) = copy_adm (pi_stdout s) e"
| "pipe_adm s (PStderr e) = copy_adm (pi_stderr s) e"
| "pipe_adm s (PWait _) = (pi_status s = None)"

text \<open>When the process is reaped first, the \<open>select!\<close> drops the standard input pump.\<close>

fun pipe_step :: "pipe_state \<Rightarrow> pipe_event \<Rightarrow> pipe_state" where
  "pipe_step s (PStdin d) = s\<lparr>pi_stdin := pi_stdin s @ d\<rparr>"
| "pipe_step s PStdinEnd = s\<lparr>pi_pumping := False\<rparr>"
| "pipe_step s (PStdout e) =
     s\<lparr>pi_stdout := copy_step (pi_stdout s) e, pi_out := pi_out s @ map OStdout (copy_sends (pi_stdout s) e)\<rparr>"
| "pipe_step s (PStderr e) =
     s\<lparr>pi_stderr := copy_step (pi_stderr s) e, pi_out := pi_out s @ map OStderr (copy_sends (pi_stderr s) e)\<rparr>"
| "pipe_step s (PWait r) = s\<lparr>pi_status := Some r, pi_pumping := False\<rparr>"

type_synonym spawn_pipe =
  "str \<Rightarrow> str list \<Rightarrow> (str \<times> str) list \<Rightarrow> path option \<Rightarrow> str + unit"

definition spawn_failure :: "str \<Rightarrow> str \<Rightarrow> session_out" where
  "spawn_failure program error =
     OStderr (as_bytes (lit ''sshdt: failed to run '' @ program @ lit '': '' @ error @ [10]))"

definition run_pipe ::
  "spawn_pipe \<Rightarrow> session_command \<Rightarrow> pipe_event list \<Rightarrow> (session_out list \<times> u32) option" where
  "run_pipe spawn command events =
     (case spawn_in_start_dir command
             (\<lambda>cwd. spawn (cmd_program command) (cmd_args command) (cmd_env command) cwd) of
        Inl error \<Rightarrow> Some ([spawn_failure (cmd_program command) error], 127)
      | Inr _ \<Rightarrow>
          (let s = foldl pipe_step pipe_init events
           in if pipe_finished s then Some (pi_out s, exit_code_of (the (pi_status s))) else None))"

section \<open>The pseudo-terminal runner\<close>

datatype pty_event =
    YStdin "u8 list" | YStdinEnd
  | YChunk "u8 list" bool "str + exit_status"
  | YReaderEof "str + exit_status"
  | YResize u16 u16
  | YPoll "exit_status option"
  | YDrain "u8 list" bool
  | YDrainEnd

datatype pty_phase = PtyRunning | PtyDraining "str + exit_status" | PtyExited u32

record pty_state =
  py_phase :: pty_phase
  py_stdin_open :: bool
  py_input :: "u8 list list"
  py_size :: "u16 \<times> u16"
  py_hup :: bool
  py_out :: "session_out list"

definition terminal_size :: "u16 \<Rightarrow> u16 \<Rightarrow> u16 \<times> u16" where
  "terminal_size cols rows = (max cols 1, max rows 1)"

definition pty_init :: "pty_request \<Rightarrow> pty_state" where
  "pty_init pty = \<lparr>py_phase = PtyRunning, py_stdin_open = True, py_input = [],
     py_size = terminal_size (pty_cols pty) (pty_rows pty), py_hup = False, py_out = []\<rparr>"

fun pty_adm :: "pty_state \<Rightarrow> pty_event \<Rightarrow> bool" where
  "pty_adm s (YStdin d) = (py_phase s = PtyRunning \<and> py_stdin_open s \<and> d \<noteq> [] \<and> length d \<le> 32768)"
| "pty_adm s YStdinEnd = (py_phase s = PtyRunning \<and> py_stdin_open s)"
| "pty_adm s (YDrain d ok) = (case py_phase s of PtyDraining _ \<Rightarrow> True | _ \<Rightarrow> False)"
| "pty_adm s YDrainEnd = (case py_phase s of PtyDraining _ \<Rightarrow> True | _ \<Rightarrow> False)"
| "pty_adm s _ = (py_phase s = PtyRunning)"

text \<open>After the loop, what is still buffered is written out until the reader ends, a write fails
  or the two seconds are over (\<open>YDrainEnd\<close>); then the exit code is known.\<close>

definition drain_end :: "pty_state \<Rightarrow> pty_state" where
  "drain_end s =
     (case py_phase s of PtyDraining r \<Rightarrow> s\<lparr>py_phase := PtyExited (exit_code_of r)\<rparr> | _ \<Rightarrow> s)"

fun pty_step :: "pty_state \<Rightarrow> pty_event \<Rightarrow> pty_state" where
  "pty_step s (YStdin d) = s\<lparr>py_input := py_input s @ [d]\<rparr>"
| "pty_step s YStdinEnd = s\<lparr>py_stdin_open := False\<rparr>"
| "pty_step s (YChunk d ok r) =
     (if ok then s\<lparr>py_out := py_out s @ [OStdout d]\<rparr>
      else s\<lparr>py_hup := True, py_phase := PtyDraining r\<rparr>)"
| "pty_step s (YReaderEof r) = s\<lparr>py_phase := PtyDraining r\<rparr>"
| "pty_step s (YResize cols rows) = s\<lparr>py_size := terminal_size cols rows\<rparr>"
| "pty_step s (YPoll r) =
     (case r of Some st \<Rightarrow> s\<lparr>py_phase := PtyDraining (Inr st)\<rparr> | None \<Rightarrow> s)"
| "pty_step s (YDrain d ok) =
     (if ok then s\<lparr>py_out := py_out s @ [OStdout d]\<rparr> else drain_end s)"
| "pty_step s YDrainEnd = drain_end s"

type_synonym spawn_pty =
  "str \<Rightarrow> str list \<Rightarrow> (str \<times> str) list \<Rightarrow> u16 \<times> u16 \<Rightarrow> path option \<Rightarrow> str + unit"

text \<open>\<open>clones\<close> says whether the master could be duplicated for the reader and for the writer.\<close>

definition run_pty ::
  "spawn_pty \<Rightarrow> bool \<times> bool \<Rightarrow> session_command \<Rightarrow> pty_request \<Rightarrow> pty_event list \<Rightarrow>
     (session_out list \<times> u32) option" where
  "run_pty spawn clones command pty events =
     (case spawn_in_start_dir command
             (\<lambda>cwd. spawn (cmd_program command) (cmd_args command) (cmd_env command)
                      (terminal_size (pty_cols pty) (pty_rows pty)) cwd) of
        Inl error \<Rightarrow> Some ([], 127)
      | Inr _ \<Rightarrow>
          (if \<not> fst clones then Some ([], 1)
           else if \<not> snd clones then Some ([], 1)
           else let s = foldl pty_step (pty_init pty) events
                in case py_phase s of PtyExited code \<Rightarrow> Some (py_out s, code) | _ \<Rightarrow> None))"

section \<open>A custom handler\<close>

text \<open>The handler runs beside the loop that forwards client input to it; \<open>join!\<close> waits for both.
  Once the handler has returned, its receiver is gone and the next forwarded chunk ends the
  loop.\<close>

datatype custom_event =
    CInput "u8 list" | CInputEnd
  | COut session_out
  | CReturn i32

record custom_state =
  cu_forwarding :: bool
  cu_input :: "u8 list list"
  cu_code :: "i32 option"
  cu_out :: "session_out list"

definition custom_init :: custom_state where
  "custom_init = \<lparr>cu_forwarding = True, cu_input = [], cu_code = None, cu_out = []\<rparr>"

fun custom_adm :: "custom_state \<Rightarrow> custom_event \<Rightarrow> bool" where
  "custom_adm s (CInput d) = (cu_forwarding s \<and> d \<noteq> [] \<and> length d \<le> 32768)"
| "custom_adm s CInputEnd = cu_forwarding s"
| "custom_adm s (COut out) =
     (cu_code s = None \<and> (case out of OStdout _ \<Rightarrow> True | OStderr _ \<Rightarrow> True | _ \<Rightarrow> False))"
| "custom_adm s (CReturn _) = (cu_code s = None)"

fun custom_step :: "custom_state \<Rightarrow> custom_event \<Rightarrow> custom_state" where
  "custom_step s (CInput d) =
     (if cu_code s = None then s\<lparr>cu_input := cu_input s @ [d]\<rparr> else s\<lparr>cu_forwarding := False\<rparr>)"
| "custom_step s CInputEnd = s\<lparr>cu_forwarding := False\<rparr>"
| "custom_step s (COut out) = s\<lparr>cu_out := cu_out s @ [out]\<rparr>"
| "custom_step s (CReturn code) = s\<lparr>cu_code := Some code\<rparr>"

text \<open>\<open>code.max(0) as u32\<close> on a signed code.\<close>

definition custom_exit_code :: "i32 \<Rightarrow> u32" where
  "custom_exit_code code = (if sint code < 0 then 0 else code)"

definition run_custom_handler :: "custom_event list \<Rightarrow> (session_out list \<times> u32) option" where
  "run_custom_handler events =
     (let s = foldl custom_step custom_init events
      in case cu_code s of
           Some code \<Rightarrow> if cu_forwarding s then None else Some (cu_out s, custom_exit_code code)
         | None \<Rightarrow> None)"

section \<open>A whole session\<close>

record session_events =
  se_pipe :: "pipe_event list"
  se_clones :: "bool \<times> bool"
  se_pty :: "pty_event list"
  se_custom :: "custom_event list"

definition run_session ::
  "os_env \<Rightarrow> spawn_pipe \<Rightarrow> spawn_pty \<Rightarrow> bool \<Rightarrow> session_request \<Rightarrow> session_command \<Rightarrow>
     (str \<times> str) list \<Rightarrow> session_events \<Rightarrow> session_out list option" where
  "run_session os spawn_pipe spawn_pty has_handler request command client_env ev =
     (let pty = request_pty request;
          env = session_env_overrides os (cmd_program command) pty client_env (cmd_env command);
          command' = command\<lparr>cmd_env := env\<rparr>
      in map_option (\<lambda>(out, exit_code). out @ finish_channel exit_code)
           (if has_handler then run_custom_handler (se_custom ev)
            else (case pty of
                    Some p \<Rightarrow> run_pty spawn_pty (se_clones ev) command' p (se_pty ev)
                  | None \<Rightarrow> run_pipe spawn_pipe command' (se_pipe ev))))"

section \<open>The resolver\<close>

lemma default_shell_nonempty: "\<exists>p. default_shell os = [p] \<and> p \<noteq> []"
  by (auto simp: default_shell_def lit_def split: option.splits)

lemma resolver_new_nonempty: "resolver_new os shell \<noteq> []"
  using default_shell_nonempty [of os] by (auto simp: resolver_new_def split: option.splits)

text \<open>
  The default resolver runs exactly what was configured and what was asked: an interactive
  session is the configured command line word for word, and an \<open>exec\<close> request passes the
  client's command as one single argument after the shell's command flag, so no part of it is
  split or interpreted before the shell sees it.
\<close>

theorem resolve_command_shape:
  "cmd_program (resolve_command os (resolver_new os shell) (SessShell pty)) #
     cmd_args (resolve_command os (resolver_new os shell) (SessShell pty)) = resolver_new os shell \<and>
   cmd_program (resolve_command os (resolver_new os shell) (SessExec command pty)) =
     hd (resolver_new os shell) \<and>
   (\<exists>flag \<in> {lit ''-c'', lit ''/C''}.
      cmd_args (resolve_command os (resolver_new os shell) (SessExec command pty)) = [flag, command])"
proof (cases "resolver_new os shell")
  case Nil
  then show ?thesis using resolver_new_nonempty by blast
next
  case (Cons p ps)
  then show ?thesis by (auto simp: shell_program_def exec_flag_def Let_def)
qed

section \<open>The environment\<close>

lemma apply_env_map_add: "apply_env base sets = base ++ map_of (rev sets)"
proof (induction sets arbitrary: base)
  case (Cons x xs)
  obtain k v where x: "x = (k, v)" by (cases x)
  have "apply_env base (x # xs) = apply_env (base(k \<mapsto> v)) xs"
    by (simp add: apply_env_def x)
  then show ?case
    by (auto simp: Cons.IH x map_add_def map_of_append split: option.splits intro!: ext)
qed (simp add: apply_env_def)

text \<open>
  Who decides a variable of the session: the resolver first, then the allowlisted client
  environment, then what the server sets itself (\<open>SHELL\<close>, and the missing ones of \<open>HOME\<close>,
  \<open>USER\<close>, \<open>LOGNAME\<close>, and \<open>TERM\<close> with a terminal); every other variable is inherited.
\<close>

theorem session_env_precedence:
  "apply_env base (session_env_overrides os program pty client_env resolver_env) k =
     (case map_of (rev resolver_env) k of
        Some v \<Rightarrow> Some v
      | None \<Rightarrow>
          (case map_of (rev client_env) k of
             Some v \<Rightarrow> Some v
           | None \<Rightarrow> apply_env base (session_env_overrides os program pty [] []) k))"
proof -
  obtain own where own: "\<And>c r. session_env_overrides os program pty c r = own @ c @ r"
    by (auto simp: session_env_overrides_def)
  show ?thesis
    by (auto simp: own apply_env_map_add map_add_def map_of_append split: option.splits)
qed


lemma session_env_own:
  "list_all (\<lambda>(k, v). k = lit ''SHELL'' \<or> k = lit ''TERM'' \<or>
       (k = lit ''HOME'' \<or> k = lit ''USER'' \<or> k = lit ''LOGNAME'') \<and> os_var os k = None)
     (session_env_overrides os program pty [] [])"
  unfolding session_env_overrides_def by (simp split: option.split)

text \<open>
  The variables the server itself adds are only \<open>SHELL\<close>, \<open>HOME\<close>, \<open>USER\<close>, \<open>LOGNAME\<close> and
  \<open>TERM\<close>, and it never replaces a \<open>HOME\<close>, \<open>USER\<close> or \<open>LOGNAME\<close> it inherited.
\<close>

theorem session_env_own_variables:
  "(k, v) \<in> set (session_env_overrides os program pty [] []) \<Longrightarrow>
     k = lit ''SHELL'' \<or> k = lit ''TERM'' \<or>
     (k = lit ''HOME'' \<or> k = lit ''USER'' \<or> k = lit ''LOGNAME'') \<and> os_var os k = None"
  using session_env_own [of os program pty] unfolding list_all_iff by blast

theorem session_env_own_variables_witness:
  "os_var \<lparr>os_var = Map.empty, os_home_dir = Some (lit ''/h''), os_is_dir = \<lambda>_. True\<rparr> (lit ''HOME'') = None"
  using session_env_own_variables [of "lit ''HOME''" "lit ''/h''"
      "\<lparr>os_var = Map.empty, os_home_dir = Some (lit ''/h''), os_is_dir = \<lambda>_. True\<rparr>" "[]" None]
  by (simp add: session_env_overrides_def lit_def current_os_user_def)

section \<open>Exit codes and starting\<close>

lemma spawn_in_start_dir_Inr:
  "spawn_in_start_dir command spawn = Inr c \<longleftrightarrow>
     spawn (cmd_cwd command) = Inr c \<or>
     (cmd_cwd command \<noteq> None \<and> (\<exists>e. spawn (cmd_cwd command) = Inl e) \<and> spawn None = Inr c)"
  by (auto simp: spawn_in_start_dir_def split: sum.splits)

text \<open>
  A process that exits reports its own code, a process killed by a signal reports 128 plus
  the signal, and a failed wait reports 1; a signal number below 128 never wraps.
\<close>

theorem exit_code_of_cases:
  "exit_code_of (Inr \<lparr>es_code = Some code, es_signal = sig\<rparr>) = code \<and>
   (unat n < 128 \<longrightarrow> unat (exit_code_of (Inr \<lparr>es_code = None, es_signal = Some n\<rparr>)) = 128 + unat n) \<and>
   exit_code_of (Inr \<lparr>es_code = None, es_signal = None\<rparr>) = 1 \<and>
   exit_code_of (Inl e) = 1"
proof -
  have "unat (128 + n) = 128 + unat n" if "unat n < 128" for n :: u32
  proof -
    have "unat (128 + n) = (128 + unat n) mod 2 ^ 32" by (simp add: unat_word_ariths)
    then show ?thesis using that by simp
  qed
  then show ?thesis by (simp add: exit_code_of_def)
qed

theorem exit_code_of_cases_witness:
  "unat (exit_code_of (Inr \<lparr>es_code = None, es_signal = Some 9\<rparr>)) = 137"
  using exit_code_of_cases [of 0 None 9 "[]"] by simp

section \<open>The piped runner\<close>

definition is_data :: "session_out \<Rightarrow> bool" where
  "is_data out \<longleftrightarrow> (case out of OStdout _ \<Rightarrow> True | OStderr _ \<Rightarrow> True | _ \<Rightarrow> False)"

lemma is_data_simps [simp]:
  "is_data (OStdout d)" "is_data (OStderr d)" "\<not> is_data (OExitStatus c)" "\<not> is_data OEof" "\<not> is_data OClose"
  "list_all is_data (map OStdout ds)" "list_all is_data (map OStderr ds)"
  by (simp_all add: is_data_def list_all_iff)

definition pipe_inv :: "pipe_state \<Rightarrow> bool" where
  "pipe_inv s \<longleftrightarrow> list_all is_data (pi_out s) \<and> (pi_status s \<noteq> None \<longrightarrow> \<not> pi_pumping s)"

interpretation pipe_system: step_system pipe_adm pipe_step pipe_inv
proof
  fix s e assume "pipe_inv s" "pipe_adm s e"
  then show "pipe_inv (pipe_step s e)" by (cases e) (auto simp: pipe_inv_def)
qed

lemma pipe_init_inv [inv_intros]: "pipe_inv pipe_init"
  by (simp add: pipe_inv_def pipe_init_def)

lemma pipe_outputs_data: "list_all is_data (pi_out s) \<Longrightarrow> list_all is_data (pi_out (foldl pipe_step s es))"
proof (induction es arbitrary: s)
  case (Cons e es)
  then have "list_all is_data (pi_out (pipe_step s e))" by (cases e) auto
  then show ?case using Cons.IH by simp
qed simp

text \<open>What a client reads on standard output and standard error.\<close>

fun out_stdout :: "session_out list \<Rightarrow> u8 list" where
  "out_stdout [] = []"
| "out_stdout (OStdout d # os) = d @ out_stdout os"
| "out_stdout (_ # os) = out_stdout os"

fun out_stderr :: "session_out list \<Rightarrow> u8 list" where
  "out_stderr [] = []"
| "out_stderr (OStderr d # os) = d @ out_stderr os"
| "out_stderr (_ # os) = out_stderr os"

text \<open>What the process wrote into a pipe, and what happened to the copying of one stream.\<close>

fun wrote :: "copy_event list \<Rightarrow> u8 list" where
  "wrote [] = []"
| "wrote (CWrote d # es) = d @ wrote es"
| "wrote (_ # es) = wrote es"

fun stdout_of :: "pipe_event list \<Rightarrow> copy_event list" where
  "stdout_of [] = []"
| "stdout_of (PStdout e # es) = e # stdout_of es"
| "stdout_of (_ # es) = stdout_of es"

fun stderr_of :: "pipe_event list \<Rightarrow> copy_event list" where
  "stderr_of [] = []"
| "stderr_of (PStderr e # es) = e # stderr_of es"
| "stderr_of (_ # es) = stderr_of es"

lemma out_stdout_append [simp]: "out_stdout (xs @ ys) = out_stdout xs @ out_stdout ys"
  by (induction xs rule: out_stdout.induct) auto

lemma out_stderr_append [simp]: "out_stderr (xs @ ys) = out_stderr xs @ out_stderr ys"
  by (induction xs rule: out_stderr.induct) auto

lemma out_stdout_map [simp]: "out_stdout (map OStdout ds) = concat ds" "out_stdout (map OStderr ds) = []"
  by (induction ds) simp_all

lemma out_stderr_map [simp]: "out_stderr (map OStderr ds) = concat ds" "out_stderr (map OStdout ds) = []"
  by (induction ds) simp_all

text \<open>Copying from any state: what was given away, then the buffer, then the pipe is what was there before and
  what the process wrote since; and a task that ends without a failure has given all away.\<close>

fun copy_run :: "copy_state \<Rightarrow> copy_event list \<Rightarrow> u8 list" where
  "copy_run c [] = []"
| "copy_run c (e # es) = concat (copy_sends c e) @ copy_run (copy_step c e) es"

lemma take_drop_append: "take n xs @ drop n xs @ ys = xs @ ys"
  by (simp flip: append_assoc)

lemma copy_conserves:
  "copy_run c es @ cp_buf (foldl copy_step c es) @ cp_pipe (foldl copy_step c es) = cp_buf c @ cp_pipe c @ wrote es"
proof (induction es arbitrary: c)
  case (Cons e es)
  show ?case by (cases e) (simp_all add: Cons.IH take_drop_append)
qed simp

lemma copy_done_clean:
  assumes "run_ok copy_adm copy_step c es" and "cp_done (foldl copy_step c es)" and "\<not> cp_done c" and "CFailed \<notin> set es"
  shows "cp_buf (foldl copy_step c es) = [] \<and> cp_pipe (foldl copy_step c es) = []"
  using assms
proof (induction es rule: rev_induct)
  case (snoc e es)
  have adm: "run_ok copy_adm copy_step c es" "copy_adm (foldl copy_step c es) e"
    using snoc.prems(1) by (simp_all add: run_ok_append)
  show ?case
  proof (cases "cp_done (foldl copy_step c es)")
    case True
    then show ?thesis using adm(2) by (cases e) auto
  next
    case False
    then show ?thesis using adm(2) snoc.prems by (cases e) auto
  qed
qed simp

lemma pipe_streams:
  "pi_stdout (foldl pipe_step s es) = foldl copy_step (pi_stdout s) (stdout_of es)"
  "pi_stderr (foldl pipe_step s es) = foldl copy_step (pi_stderr s) (stderr_of es)"
  "out_stdout (pi_out (foldl pipe_step s es)) = out_stdout (pi_out s) @ copy_run (pi_stdout s) (stdout_of es)"
  "out_stderr (pi_out (foldl pipe_step s es)) = out_stderr (pi_out s) @ copy_run (pi_stderr s) (stderr_of es)"
proof (induction es arbitrary: s)
  case (Cons e es)
  {
    case 1
    show ?case by (cases e) (simp_all add: Cons.IH)
  next
    case 2
    show ?case by (cases e) (simp_all add: Cons.IH)
  next
    case 3
    show ?case by (cases e) (simp_all add: Cons.IH)
  next
    case 4
    show ?case by (cases e) (simp_all add: Cons.IH)
  }
qed simp_all

lemma pipe_streams_ok:
  assumes "run_ok pipe_adm pipe_step s es"
  shows "run_ok copy_adm copy_step (pi_stdout s) (stdout_of es)" "run_ok copy_adm copy_step (pi_stderr s) (stderr_of es)"
proof -
  have "run_ok copy_adm copy_step (pi_stdout s) (stdout_of es) \<and> run_ok copy_adm copy_step (pi_stderr s) (stderr_of es)"
    using assms
  proof (induction es arbitrary: s)
    case (Cons e es)
    then have "run_ok copy_adm copy_step (pi_stdout (pipe_step s e)) (stdout_of es)"
        "run_ok copy_adm copy_step (pi_stderr (pipe_step s e)) (stderr_of es)" by auto
    then show ?case using Cons.prems by (cases e) auto
  qed simp
  then show "run_ok copy_adm copy_step (pi_stdout s) (stdout_of es)" "run_ok copy_adm copy_step (pi_stderr s) (stderr_of es)"
    by simp_all
qed

text \<open>A copy task from its start to its end.\<close>

lemma copied:
  assumes "run_ok copy_adm copy_step copy_init es" and "cp_done (foldl copy_step copy_init es)"
  shows "prefix (copy_run copy_init es) (wrote es)" and "CFailed \<notin> set es \<Longrightarrow> copy_run copy_init es = wrote es"
proof -
  have eq: "copy_run copy_init es @ cp_buf (foldl copy_step copy_init es) @ cp_pipe (foldl copy_step copy_init es) = wrote es"
    using copy_conserves [of copy_init es] by (simp add: copy_init_def)
  then show "prefix (copy_run copy_init es) (wrote es)" by (metis prefixI)
  show "CFailed \<notin> set es \<Longrightarrow> copy_run copy_init es = wrote es"
    using eq copy_done_clean [OF assms] by (simp add: copy_init_def)
qed

text \<open>Once all three have ended no further event is possible.\<close>

lemma copy_done_stuck: "cp_done c \<Longrightarrow> \<not> copy_adm c e"
  by (cases e) auto

lemma pipe_finished_stuck: "pipe_inv s \<Longrightarrow> pipe_finished s \<Longrightarrow> \<not> pipe_adm s e"
  by (cases e) (auto simp: pipe_finished_def pipe_inv_def copy_done_stuck)

text \<open>
  C11. A piped session loses no output: when it ends, the client has received a beginning of what
  the process wrote to each stream, in order and before the exit status, and all of it unless
  copying that stream failed; no event can follow.
\<close>

theorem run_pipe_complete:
  assumes "spawn_in_start_dir command
      (\<lambda>cwd. spawn (cmd_program command) (cmd_args command) (cmd_env command) cwd) = Inr ()"
    and "run_ok pipe_adm pipe_step pipe_init events"
    and "run_pipe spawn command events = Some (out, code)"
  shows "prefix (out_stdout out) (wrote (stdout_of events)) \<and> prefix (out_stderr out) (wrote (stderr_of events)) \<and>
     (CFailed \<notin> set (stdout_of events) \<longrightarrow> out_stdout out = wrote (stdout_of events)) \<and>
     (CFailed \<notin> set (stderr_of events) \<longrightarrow> out_stderr out = wrote (stderr_of events)) \<and>
     list_all is_data out \<and> \<not> run_ok pipe_adm pipe_step pipe_init (events @ [e])"
proof -
  let ?s = "foldl pipe_step pipe_init events"
  have s: "pipe_finished ?s" "out = pi_out ?s"
    using assms(1,3) by (auto simp: run_pipe_def Let_def split: if_splits)
  have inv: "pipe_inv ?s"
    using pipe_system.run_inv [OF pipe_init_inv assms(2)] .
  have ok: "run_ok copy_adm copy_step copy_init (stdout_of events)" "run_ok copy_adm copy_step copy_init (stderr_of events)"
    using pipe_streams_ok [OF assms(2)] by (simp_all add: pipe_init_def)
  have fin: "cp_done (foldl copy_step copy_init (stdout_of events))" "cp_done (foldl copy_step copy_init (stderr_of events))"
    using s(1) by (simp_all add: pipe_finished_def pipe_streams pipe_init_def)
  have out: "out_stdout out = copy_run copy_init (stdout_of events)" "out_stderr out = copy_run copy_init (stderr_of events)"
    using s(2) by (simp_all add: pipe_streams pipe_init_def)
  show ?thesis
    using copied [OF ok(1) fin(1)] copied [OF ok(2) fin(2)] inv pipe_finished_stuck [OF inv s(1)]
    unfolding out by (auto simp: s(2) run_ok_append pipe_inv_def)
qed

definition example_copying :: "pipe_event list" where
  "example_copying =
     [PStdout (CWrote [1, 4]), PStderr (CWrote [2]), PStdout (CRead 2), PStdout (CSent 1), PStderr (CRead 1),
      PStderr (CSent 1), PWait (Inr \<lparr>es_code = Some 3, es_signal = None\<rparr>), PStdout CClosed, PStdout (CSent 1),
      PStderr CFailed, PStdout CEnd]"

theorem run_pipe_complete_witness:
  "\<exists>out code. run_pipe (\<lambda>_ _ _ _. Inr ()) (session_command_new (lit ''id'')) example_copying = Some (out, code) \<and>
     code = 3 \<and> out_stdout out = [1, 4]"
proof -
  let ?c = "session_command_new (lit ''id'')"
  have run: "run_pipe (\<lambda>_ _ _ _. Inr ()) ?c example_copying = Some ([OStdout [1], OStderr [2], OStdout [4]], 3)"
    by (simp add: run_pipe_def spawn_in_start_dir_def pipe_init_def copy_init_def pipe_finished_def exit_code_of_def
        example_copying_def)
  moreover from run_pipe_complete [OF _ _ this] have "out_stdout [OStdout [1], OStderr [2], OStdout [4]] = [1, 4]"
    by (simp add: spawn_in_start_dir_def pipe_init_def copy_init_def example_copying_def)
  ultimately show ?thesis by blast
qed

section \<open>The pseudo-terminal runner\<close>

definition pty_inv :: "pty_state \<Rightarrow> bool" where
  "pty_inv s \<longleftrightarrow> 1 \<le> fst (py_size s) \<and> 1 \<le> snd (py_size s) \<and> list_all is_data (py_out s) \<and>
     out_stderr (py_out s) = [] \<and> (py_hup s \<longrightarrow> py_phase s \<noteq> PtyRunning)"

lemma terminal_size_pos [simp]:
  "1 \<le> fst (terminal_size c r)" "1 \<le> snd (terminal_size c r)"
  by (simp_all add: terminal_size_def)

interpretation pty_system: step_system pty_adm pty_step pty_inv
proof
  fix s e assume "pty_inv s" "pty_adm s e"
  then show "pty_inv (pty_step s e)"
    by (cases e) (auto simp: pty_inv_def drain_end_def split: pty_phase.splits option.splits)
qed

lemma pty_init_inv [inv_intros]: "pty_inv (pty_init pty)"
  by (simp add: pty_inv_def pty_init_def)

lemma drain_end_data [simp]: "py_out (drain_end s) = py_out s"
  by (simp add: drain_end_def split: pty_phase.splits)

lemma pty_outputs_data: "list_all is_data (py_out s) \<Longrightarrow> list_all is_data (py_out (foldl pty_step s es))"
proof (induction es arbitrary: s)
  case (Cons e es)
  then have "list_all is_data (py_out (pty_step s e))" by (cases e) (auto split: option.splits)
  then show ?case using Cons.IH by simp
qed simp

text \<open>
  Along every run of a terminal session the size given to the terminal is at least one by
  one, whatever the client asks for, and the child is hung up only when the session has left its
  loop.
\<close>

theorem pty_run_invariant:
  assumes "run_ok pty_adm pty_step (pty_init pty) (xs @ ys)"
  shows "1 \<le> fst (py_size (foldl pty_step (pty_init pty) xs)) \<and>
     1 \<le> snd (py_size (foldl pty_step (pty_init pty) xs)) \<and>
     (py_hup (foldl pty_step (pty_init pty) xs) \<longrightarrow>
        py_phase (foldl pty_step (pty_init pty) xs) \<noteq> PtyRunning)"
  using pty_system.run_inv_along [OF pty_init_inv assms] by (simp add: pty_inv_def)

theorem pty_run_invariant_witness:
  "1 \<le> fst (py_size (foldl pty_step
     (pty_init \<lparr>pty_term = [], pty_cols = 80, pty_rows = 24, pty_pixel_width = 0, pty_pixel_height = 0\<rparr>)
     [YStdin [3], YResize 0 0]))"
  using pty_run_invariant [of "\<lparr>pty_term = [], pty_cols = 80, pty_rows = 24, pty_pixel_width = 0,
      pty_pixel_height = 0\<rparr>" "[YStdin [3], YResize 0 0]" "[YChunk [1] False (Inl [])]"]
  by (simp add: pty_init_def)

section \<open>The end of a session\<close>

interpretation custom_system: step_system custom_adm custom_step "\<lambda>s. list_all is_data (cu_out s)"
proof
  fix s e assume "list_all is_data (cu_out s)" "custom_adm s e"
  then show "list_all is_data (cu_out (custom_step s e))"
    by (cases e) (auto simp: is_data_def split: session_out.splits)
qed

lemma custom_outputs_data:
  "run_ok custom_adm custom_step custom_init es \<Longrightarrow>
   list_all is_data (cu_out (foldl custom_step custom_init es))"
  by (rule custom_system.run_inv) (simp_all add: custom_init_def)

lemma run_pipe_data: "run_pipe spawn command es = Some (out, code) \<Longrightarrow> list_all is_data out"
  using pipe_outputs_data [of pipe_init es]
  by (auto simp: run_pipe_def Let_def spawn_failure_def pipe_init_def split: sum.splits if_splits)

lemma run_pty_data: "run_pty spawn clones command pty es = Some (out, code) \<Longrightarrow> list_all is_data out"
  using pty_outputs_data [of "pty_init pty" es]
  by (auto simp: run_pty_def Let_def pty_init_def split: sum.splits if_splits pty_phase.splits)

lemma run_custom_data:
  "run_ok custom_adm custom_step custom_init es \<Longrightarrow> run_custom_handler es = Some (out, code) \<Longrightarrow>
   list_all is_data out"
  using custom_outputs_data
  by (auto simp: run_custom_handler_def Let_def split: option.splits if_splits)

text \<open>
  C10. Every session that ends, whichever runner served it and also when the program could not
  be started, sends its data first and then the exit status, the end of file and the close, each
  exactly once and in this order.
\<close>

theorem run_session_ends_once:
  assumes "run_session os spawn_pipe spawn_pty has_handler request command env ev = Some out"
    and "run_ok custom_adm custom_step custom_init (se_custom ev)"
  shows "\<exists>data code. list_all is_data data \<and> out = data @ [OExitStatus code, OEof, OClose]"
proof -
  let ?cmd = "command\<lparr>cmd_env := session_env_overrides os (cmd_program command) (request_pty request) env
      (cmd_env command)\<rparr>"
  obtain data code where out: "out = data @ finish_channel code"
    and "(if has_handler then run_custom_handler (se_custom ev)
          else (case request_pty request of
                  Some p \<Rightarrow> run_pty spawn_pty (se_clones ev) ?cmd p (se_pty ev)
                | None \<Rightarrow> run_pipe spawn_pipe ?cmd (se_pipe ev))) = Some (data, code)"
    using assms(1) unfolding run_session_def Let_def by (elim map_option_eq_Some [THEN iffD1, elim_format]) auto
  then have "list_all is_data data"
    using run_pipe_data run_pty_data run_custom_data [OF assms(2)]
    by (cases has_handler; cases "request_pty request") auto
  then show ?thesis using out unfolding finish_channel_def by blast
qed

theorem run_session_ends_once_witness:
  "\<exists>data code. list_all is_data data \<and>
     [spawn_failure (lit ''x'') (lit ''e''), OExitStatus 127, OEof, OClose] =
       data @ [OExitStatus code, OEof, OClose]"
proof -
  let ?os = "\<lparr>os_var = Map.empty, os_home_dir = None, os_is_dir = \<lambda>_. True\<rparr>"
  let ?ev = "\<lparr>se_pipe = [], se_clones = (True, True), se_pty = [], se_custom = []\<rparr>"
  have run: "run_session ?os (\<lambda>_ _ _ _. Inl (lit ''e'')) (\<lambda>_ _ _ _ _. Inl []) False (SessShell None)
      (session_command_new (lit ''x'')) [] ?ev =
      Some [spawn_failure (lit ''x'') (lit ''e''), OExitStatus 127, OEof, OClose]"
    by (simp add: run_session_def run_pipe_def spawn_in_start_dir_def session_command_new_def
        finish_channel_def Let_def)
  show ?thesis by (rule run_session_ends_once [OF run]) simp
qed

end
