(* ===== verification/Handler.thy ===== *)
theory Handler
  imports Auth Session
begin

text \<open>
  \<open>handler.rs\<close> and \<open>forward.rs\<close>: one connection. \<open>russh\<close> calls the handler's methods one after the
  other; each is a function from the connection's state to its new state and the actions it
  takes (its answer to an authentication request, replies on the session, tasks spawned). The hooks an embedder can install are
  functions in \<open>server_inner\<close>.
\<close>

section \<open>Forwarding\<close>

record forward_request =
  fw_host :: str
  fw_port :: u16
  fw_originator_host :: str
  fw_originator_port :: u16

datatype forward_decision = ForwardAllow | ForwardDeny

text \<open>\<open>run_direct_tcpip\<close> either dials and pumps both ways until the copy ends, or answers a failed
  dial by closing the channel.\<close>

datatype forward_effect = FwDialled str | FwCopied | FwEof | FwClose

definition run_direct_tcpip :: "(str \<Rightarrow> bool) \<Rightarrow> str \<Rightarrow> u16 \<Rightarrow> forward_effect list" where
  "run_direct_tcpip connect host port =
     (let target = host @ [58] @ show_nat (unat port)
      in if connect target then [FwDialled target, FwCopied] else [FwEof, FwClose])"

section \<open>State\<close>

type_synonym channel_id = u32

record 'k server_inner =
  si_auth :: "'k auth_config"
  si_authenticator :: "('k auth_request \<Rightarrow> auth_result) option"
  si_command_resolver :: "session_request \<Rightarrow> session_command"
  si_session_handler :: bool
  si_forwarder :: "(forward_request \<Rightarrow> forward_decision) option"
  si_allow_tcp_forwarding :: bool
  si_sftp_root :: "path option"
  si_accept_env :: "str list"
  si_banner :: "str option"
  si_allowed_users :: "str list"

record channel_state =
  ch_channel :: "channel_id option"
  ch_pty :: "pty_request option"
  ch_env :: "(str \<times> str) list"
  ch_resize :: bool
  ch_sftp :: bool

definition channel_default :: channel_state where
  "channel_default = \<lparr>ch_channel = None, ch_pty = None, ch_env = [], ch_resize = False, ch_sftp = False\<rparr>"

record conn =
  cn_channels :: "channel_id \<rightharpoonup> channel_state"
  cn_authed :: bool
  cn_startup_permit :: bool

definition conn_new :: "bool \<Rightarrow> conn" where
  "conn_new permit = \<lparr>cn_channels = Map.empty, cn_authed = False, cn_startup_permit = permit\<rparr>"

datatype auth_reply = Accept | Reject "method_kind list" bool

datatype session_kind = KShell | KExec str

datatype action =
    AnswerAuth auth_reply
  | AnswerOffer auth_reply
  | ChannelSuccess channel_id
  | ChannelFailure channel_id
  | OpenAccept channel_id
  | OpenReject channel_id
  | SpawnSession channel_id session_request session_command "(str \<times> str) list"
  | SpawnSftp channel_id "path option"
  | SpawnForward channel_id str u16
  | SendResize channel_id u16 u16
  | SendExitStatus channel_id u32
  | SendEof channel_id
  | SendClose channel_id

section \<open>Authentication\<close>

definition mark_authenticated :: "conn \<Rightarrow> conn" where
  "mark_authenticated c = c\<lparr>cn_authed := True, cn_startup_permit := False\<rparr>"

definition reject :: "'k server_inner \<Rightarrow> auth_reply" where
  "reject inner = Reject (method_set (si_auth inner) (si_authenticator inner \<noteq> None)) False"

definition user_allowed :: "'k server_inner \<Rightarrow> str \<Rightarrow> bool" where
  "user_allowed inner user \<longleftrightarrow>
     si_allowed_users inner = [] \<or> list_ex (\<lambda>name. name = user) (si_allowed_users inner)"

definition builtin_ok :: "('k \<Rightarrow> 'd) \<Rightarrow> 'k auth_config \<Rightarrow> 'k auth_method \<Rightarrow> bool" where
  "builtin_ok key_data a m =
     (case m of
        MNone \<Rightarrow> ac_anonymous a
      | MPassword p \<Rightarrow> check_password a p
      | MPublicKey k \<Rightarrow> check_publickey key_data a k)"

definition decide :: "('k \<Rightarrow> 'd) \<Rightarrow> 'k server_inner \<Rightarrow> str \<Rightarrow> 'k auth_method \<Rightarrow> auth_reply" where
  "decide key_data inner user m =
     (if \<not> user_allowed inner user then reject inner
      else case si_authenticator inner of
             Some hook \<Rightarrow>
               (case hook \<lparr>req_user = user, req_method = m\<rparr> of
                  AuthAccept \<Rightarrow> Accept
                | AuthPartial \<Rightarrow> Reject (method_set (si_auth inner) True) True
                | AuthReject \<Rightarrow> reject inner)
           | None \<Rightarrow> if builtin_ok key_data (si_auth inner) m then Accept else reject inner)"

definition finish_auth :: "conn \<Rightarrow> auth_reply \<Rightarrow> conn \<times> auth_reply" where
  "finish_auth c auth = (if auth = Accept then mark_authenticated c else c, auth)"

definition authentication_banner :: "'k server_inner \<Rightarrow> str option" where
  "authentication_banner inner = si_banner inner"

definition auth_none :: "('k \<Rightarrow> 'd) \<Rightarrow> 'k server_inner \<Rightarrow> conn \<Rightarrow> str \<Rightarrow> conn \<times> auth_reply" where
  "auth_none key_data inner c user = finish_auth c (decide key_data inner user MNone)"

definition auth_password ::
  "('k \<Rightarrow> 'd) \<Rightarrow> 'k server_inner \<Rightarrow> conn \<Rightarrow> str \<Rightarrow> str \<Rightarrow> conn \<times> auth_reply" where
  "auth_password key_data inner c user password =
     finish_auth c (decide key_data inner user (MPassword password))"

definition auth_publickey_offered ::
  "('k \<Rightarrow> 'd) \<Rightarrow> 'k server_inner \<Rightarrow> conn \<Rightarrow> str \<Rightarrow> 'k \<Rightarrow> conn \<times> auth_reply" where
  "auth_publickey_offered key_data inner c user key =
     (if \<not> user_allowed inner user then (c, reject inner)
      else if si_authenticator inner \<noteq> None \<or> check_publickey key_data (si_auth inner) key
           then (c, Accept)
      else (c, reject inner))"

definition auth_publickey ::
  "('k \<Rightarrow> 'd) \<Rightarrow> 'k server_inner \<Rightarrow> conn \<Rightarrow> str \<Rightarrow> 'k \<Rightarrow> conn \<times> auth_reply" where
  "auth_publickey key_data inner c user key =
     finish_auth c (decide key_data inner user (MPublicKey key))"

section \<open>Channels\<close>

definition env_allowed :: "str \<Rightarrow> str list \<Rightarrow> bool" where
  "env_allowed name allowlist =
     list_ex (\<lambda>pattern. case strip_suffix [42] pattern of
                Some p \<Rightarrow> starts_with name p
              | None \<Rightarrow> name = pattern) allowlist"

definition start_session ::
  "'k server_inner \<Rightarrow> conn \<Rightarrow> channel_id \<Rightarrow> session_kind \<Rightarrow> conn \<times> action list" where
  "start_session inner c cid kind =
     (case cn_channels c cid of
        None \<Rightarrow> (c, [ChannelFailure cid])
      | Some state \<Rightarrow>
          (case ch_channel state of
             None \<Rightarrow> (c, [ChannelFailure cid])
           | Some channel \<Rightarrow>
               (let pty = ch_pty state;
                    env = ch_env state;
                    state' = state\<lparr>ch_channel := None, ch_env := [], ch_resize := True\<rparr>;
                    request = (case kind of KShell \<Rightarrow> SessShell pty
                                          | KExec command \<Rightarrow> SessExec command pty);
                    command = si_command_resolver inner request
                in (c\<lparr>cn_channels := (cn_channels c)(cid \<mapsto> state')\<rparr>,
                    [ChannelSuccess cid, SpawnSession channel request command env]))))"

definition channel_open_session :: "conn \<Rightarrow> channel_id \<Rightarrow> conn \<times> action list" where
  "channel_open_session c cid =
     (c\<lparr>cn_channels := (cn_channels c)(cid \<mapsto> channel_default\<lparr>ch_channel := Some cid\<rparr>)\<rparr>,
      [OpenAccept cid])"

definition handle_pty_request ::
  "conn \<Rightarrow> channel_id \<Rightarrow> str \<Rightarrow> u32 \<Rightarrow> u32 \<Rightarrow> u32 \<Rightarrow> u32 \<Rightarrow> conn \<times> action list" where
  "handle_pty_request c cid term cols rows pix_w pix_h =
     (let pty = \<lparr>pty_term = term, pty_cols = ucast cols, pty_rows = ucast rows,
                 pty_pixel_width = ucast pix_w, pty_pixel_height = ucast pix_h\<rparr>
      in (case cn_channels c cid of
            Some state \<Rightarrow> c\<lparr>cn_channels := (cn_channels c)(cid \<mapsto> state\<lparr>ch_pty := Some pty\<rparr>)\<rparr>
          | None \<Rightarrow> c,
          [ChannelSuccess cid]))"

definition env_request ::
  "'k server_inner \<Rightarrow> conn \<Rightarrow> channel_id \<Rightarrow> str \<Rightarrow> str \<Rightarrow> conn \<times> action list" where
  "env_request inner c cid name val =
     (if env_allowed name (si_accept_env inner) then
        (case cn_channels c cid of
           Some state \<Rightarrow>
             c\<lparr>cn_channels := (cn_channels c)(cid \<mapsto> state\<lparr>ch_env := ch_env state @ [(name, val)]\<rparr>)\<rparr>
         | None \<Rightarrow> c,
         [ChannelSuccess cid])
      else (c, [ChannelFailure cid]))"

definition window_change_request :: "conn \<Rightarrow> channel_id \<Rightarrow> u32 \<Rightarrow> u32 \<Rightarrow> conn \<times> action list" where
  "window_change_request c cid cols rows =
     (case cn_channels c cid of
        Some state \<Rightarrow>
          (c, if ch_resize state then [SendResize cid (ucast cols) (ucast rows)] else [])
      | None \<Rightarrow> (c, []))"

definition shell_request :: "'k server_inner \<Rightarrow> conn \<Rightarrow> channel_id \<Rightarrow> conn \<times> action list" where
  "shell_request inner c cid = start_session inner c cid KShell"

definition exec_request :: "'k server_inner \<Rightarrow> conn \<Rightarrow> channel_id \<Rightarrow> u8 list \<Rightarrow> conn \<times> action list" where
  "exec_request inner c cid data = start_session inner c cid (KExec (from_utf8_lossy data))"

definition subsystem_request ::
  "'k server_inner \<Rightarrow> conn \<Rightarrow> channel_id \<Rightarrow> str \<Rightarrow> conn \<times> action list" where
  "subsystem_request inner c cid name =
     (if name = lit ''sftp'' then
        (case cn_channels c cid of
           None \<Rightarrow> (c, [ChannelFailure cid])
         | Some s \<Rightarrow>
             (let c' = c\<lparr>cn_channels := (cn_channels c)(cid \<mapsto> s\<lparr>ch_sftp := True, ch_channel := None\<rparr>)\<rparr>
              in case ch_channel s of
                   Some ch \<Rightarrow> (c', [ChannelSuccess cid, SpawnSftp ch (si_sftp_root inner)])
                 | None \<Rightarrow> (c', [ChannelFailure cid])))
      else (c, [ChannelFailure cid]))"

definition channel_open_direct_tcpip ::
  "'k server_inner \<Rightarrow> conn \<Rightarrow> channel_id \<Rightarrow> str \<Rightarrow> u32 \<Rightarrow> str \<Rightarrow> u32 \<Rightarrow> conn \<times> action list" where
  "channel_open_direct_tcpip inner c cid host port orig orig_port =
     (if \<not> si_allow_tcp_forwarding inner then (c, [OpenReject cid])
      else
        let request = \<lparr>fw_host = host, fw_port = ucast port, fw_originator_host = orig,
                       fw_originator_port = ucast orig_port\<rparr>
        in if (case si_forwarder inner of
                 Some authorize \<Rightarrow> authorize request = ForwardDeny | None \<Rightarrow> False)
           then (c, [OpenReject cid])
           else (c, [OpenAccept cid, SpawnForward cid (fw_host request) (fw_port request)]))"

definition channel_eof :: "conn \<Rightarrow> channel_id \<Rightarrow> conn \<times> action list" where
  "channel_eof c cid =
     (c, if (case cn_channels c cid of Some s \<Rightarrow> ch_sftp s | None \<Rightarrow> False)
         then [SendExitStatus cid 0, SendEof cid, SendClose cid] else [])"

definition channel_close :: "conn \<Rightarrow> channel_id \<Rightarrow> conn \<times> action list" where
  "channel_close c cid = (c\<lparr>cn_channels := (cn_channels c)(cid := None)\<rparr>, [])"

section \<open>The connection as a machine\<close>

datatype 'k conn_event =
    EAuthNone str
  | EAuthPassword str str
  | EAuthOffered str 'k
  | EAuthKey str 'k
  | EOpenSession channel_id
  | EPty channel_id str u32 u32 u32 u32
  | EEnv channel_id str str
  | EWindowChange channel_id u32 u32
  | EShell channel_id
  | EExec channel_id "u8 list"
  | ESubsystem channel_id str
  | EDirectTcpip channel_id str u32 str u32
  | EEof channel_id
  | EClose channel_id

text \<open>The connection with everything it has done so far.\<close>

record machine =
  mc_conn :: conn
  mc_log :: "action list"

definition machine_new :: "bool \<Rightarrow> machine" where
  "machine_new permit = \<lparr>mc_conn = conn_new permit, mc_log = []\<rparr>"

fun is_auth_event :: "'k conn_event \<Rightarrow> bool" where
  "is_auth_event (EAuthNone _) = True"
| "is_auth_event (EAuthPassword _ _) = True"
| "is_auth_event (EAuthOffered _ _) = True"
| "is_auth_event (EAuthKey _ _) = True"
| "is_auth_event _ = False"

text \<open>What the protocol library goes by is the handler's answer to an authentication request, not the
  handler's state: it delivers authentication requests until one of them was answered with \<open>Accept\<close>, and
  channel requests only after that. Accepting an offered key only asks for the signature.\<close>

definition let_in :: "machine \<Rightarrow> bool" where
  "let_in m \<longleftrightarrow> AnswerAuth Accept \<in> set (mc_log m)"

definition conn_adm :: "machine \<Rightarrow> 'k conn_event \<Rightarrow> bool" where
  "conn_adm m e \<longleftrightarrow> (is_auth_event e \<longleftrightarrow> \<not> let_in m)"

definition answer :: "(auth_reply \<Rightarrow> action) \<Rightarrow> conn \<times> auth_reply \<Rightarrow> conn \<times> action list" where
  "answer reply r = (fst r, [reply (snd r)])"

fun dispatch :: "('k \<Rightarrow> 'd) \<Rightarrow> 'k server_inner \<Rightarrow> conn \<Rightarrow> 'k conn_event \<Rightarrow> conn \<times> action list" where
  "dispatch kd inner c (EAuthNone user) = answer AnswerAuth (auth_none kd inner c user)"
| "dispatch kd inner c (EAuthPassword user p) = answer AnswerAuth (auth_password kd inner c user p)"
| "dispatch kd inner c (EAuthOffered user k) = answer AnswerOffer (auth_publickey_offered kd inner c user k)"
| "dispatch kd inner c (EAuthKey user k) = answer AnswerAuth (auth_publickey kd inner c user k)"
| "dispatch kd inner c (EOpenSession cid) = channel_open_session c cid"
| "dispatch kd inner c (EPty cid term w h pw ph) = handle_pty_request c cid term w h pw ph"
| "dispatch kd inner c (EEnv cid n v) = env_request inner c cid n v"
| "dispatch kd inner c (EWindowChange cid w h) = window_change_request c cid w h"
| "dispatch kd inner c (EShell cid) = shell_request inner c cid"
| "dispatch kd inner c (EExec cid d) = exec_request inner c cid d"
| "dispatch kd inner c (ESubsystem cid n) = subsystem_request inner c cid n"
| "dispatch kd inner c (EDirectTcpip cid h p oh op) = channel_open_direct_tcpip inner c cid h p oh op"
| "dispatch kd inner c (EEof cid) = channel_eof c cid"
| "dispatch kd inner c (EClose cid) = channel_close c cid"

definition conn_step :: "('k \<Rightarrow> 'd) \<Rightarrow> 'k server_inner \<Rightarrow> machine \<Rightarrow> 'k conn_event \<Rightarrow> machine" where
  "conn_step kd inner m e =
     (case dispatch kd inner (mc_conn m) e of (c, acts) \<Rightarrow> \<lparr>mc_conn = c, mc_log = mc_log m @ acts\<rparr>)"

section \<open>The environment allowlist\<close>

text \<open>
  A client variable is accepted exactly when a pattern of the allowlist is its name, or ends
  in a star and is, without the star, a prefix of its name; in particular nothing is accepted
  from an empty allowlist.
\<close>

theorem env_allowed_iff:
  "env_allowed name allowlist \<longleftrightarrow>
     (\<exists>pat \<in> set allowlist. (\<exists>p. pat = p @ [42] \<and> prefix p name) \<or> (\<nexists>p. pat = p @ [42]) \<and> name = pat)"
proof -
  have "(case strip_suffix [42] pat of Some p \<Rightarrow> starts_with name p | None \<Rightarrow> name = pat) \<longleftrightarrow>
      (\<exists>p. pat = p @ [42] \<and> prefix p name) \<or> (\<nexists>p. pat = p @ [42]) \<and> name = pat" for pat
  proof (cases "strip_suffix [42] pat")
    case None
    then have "\<nexists>p. pat = p @ [42]" using strip_suffix_Some [of "[42]" pat] by (metis option.distinct(1))
    with None show ?thesis by simp
  next
    case (Some q)
    then have "pat = q @ [42]" by (simp add: strip_suffix_Some)
    with Some show ?thesis by (simp add: starts_with_iff_prefix)
  qed
  then show ?thesis by (auto simp: env_allowed_def list_ex_iff)
qed

section \<open>Deciding a request\<close>

lemma decide_Accept:
  "decide kd inner user m = Accept \<longleftrightarrow>
     user_allowed inner user \<and>
     (case si_authenticator inner of
        Some hook \<Rightarrow> hook \<lparr>req_user = user, req_method = m\<rparr> = AuthAccept
      | None \<Rightarrow> builtin_ok kd (si_auth inner) m)"
  by (auto simp: decide_def reject_def split: option.splits auth_result.splits)

lemma user_allowed_iff:
  "user_allowed inner user \<longleftrightarrow> si_allowed_users inner = [] \<or> user \<in> set (si_allowed_users inner)"
  by (auto simp: user_allowed_def list_ex_iff)

definition valid_password :: "'k auth_config \<Rightarrow> bool" where
  "valid_password a \<longleftrightarrow> (case ac_password a of None \<Rightarrow> True | Some e \<Rightarrow> valid_str e)"

lemma valid_password_iff: "valid_password a \<longleftrightarrow> (\<forall>e. ac_password a = Some e \<longrightarrow> valid_str e)"
  by (auto simp: valid_password_def split: option.splits)

text \<open>
  C1. Without a hook the server accepts exactly what its policy says: the user passes the
  allowlist, and the request is an anonymous one where the policy is anonymous, the configured
  password, or a key with the data of an authorized key.
\<close>

theorem decide_policy:
  assumes "si_authenticator inner = None" and "valid_password (si_auth inner)"
    and "\<forall>p. m = MPassword p \<longrightarrow> valid_str p"
  shows "decide kd inner user m = Accept \<longleftrightarrow>
     (si_allowed_users inner = [] \<or> user \<in> set (si_allowed_users inner)) \<and>
     (case m of
        MNone \<Rightarrow> ac_anonymous (si_auth inner)
      | MPassword p \<Rightarrow> ac_password (si_auth inner) = Some p
      | MPublicKey k \<Rightarrow> kd k \<in> kd ` set (ac_authorized_keys (si_auth inner)))"
  using assms check_password_iff [of _ "si_auth inner"]
  by (cases m)
     (auto simp: decide_Accept user_allowed_iff builtin_ok_def check_publickey_iff valid_password_iff)

definition example_inner :: "nat server_inner" where
  "example_inner =
     \<lparr>si_auth = \<lparr>ac_anonymous = False, ac_password = Some (lit ''pw''), ac_authorized_keys = [7]\<rparr>,
      si_authenticator = None, si_command_resolver = (\<lambda>_. session_command_new (lit ''sh'')),
      si_session_handler = False, si_forwarder = None, si_allow_tcp_forwarding = True,
      si_sftp_root = None, si_accept_env = [lit ''LC_*''], si_banner = None,
      si_allowed_users = [lit ''ann'']\<rparr>"

theorem decide_policy_witness:
  "decide (\<lambda>k. k) example_inner (lit ''ann'') (MPassword (lit ''pw'')) = Accept"
  using decide_policy [of example_inner "MPassword (lit ''pw'')" "\<lambda>k. k" "lit ''ann''"]
  by (simp add: example_inner_def valid_password_def text_eval valid_str_def scalar_def)

fun kind_of :: "'k auth_method \<Rightarrow> method_kind" where
  "kind_of MNone = KindNone"
| "kind_of (MPassword _) = KindPassword"
| "kind_of (MPublicKey _) = KindPublicKey"

text \<open>
  C22. The methods a server without a hook advertises are exactly those by which an allowed user
  can get in: a kind is offered if and only if some request of that kind is accepted.
\<close>

theorem method_set_exact:
  assumes "si_authenticator inner = None" and "user_allowed inner user"
  shows "kind \<in> set (method_set (si_auth inner) False) \<longleftrightarrow>
     (\<exists>m. kind_of m = kind \<and> decide kd inner user m = Accept)"
proof -
  let ?a = "si_auth inner"
  have acc: "decide kd inner user m = Accept \<longleftrightarrow> builtin_ok kd ?a m" for m
    using assms by (simp add: decide_Accept)
  have pw: "(\<exists>p. check_password ?a p) \<longleftrightarrow> ac_password ?a \<noteq> None"
    by (auto simp: check_password_def constant_time_eq_iff split: option.splits)
  have pk: "(\<exists>k. check_publickey kd ?a k) \<longleftrightarrow> ac_authorized_keys ?a \<noteq> []"
    by (cases "ac_authorized_keys ?a") (auto simp: check_publickey_iff)
  show ?thesis
  proof (cases kind)
    case KindNone
    have "(\<exists>m. kind_of m = KindNone \<and> builtin_ok kd ?a m) \<longleftrightarrow> builtin_ok kd ?a MNone"
      by (metis auth_method.exhaust kind_of.simps method_kind.distinct)
    then show ?thesis using KindNone by (simp add: acc method_set_def builtin_ok_def)
  next
    case KindPublicKey
    have "(\<exists>m. kind_of m = KindPublicKey \<and> builtin_ok kd ?a m) \<longleftrightarrow> (\<exists>k. builtin_ok kd ?a (MPublicKey k))"
      by (metis auth_method.exhaust kind_of.simps method_kind.distinct)
    then show ?thesis using KindPublicKey pk by (simp add: acc method_set_def builtin_ok_def)
  next
    case KindPassword
    have "(\<exists>m. kind_of m = KindPassword \<and> builtin_ok kd ?a m) \<longleftrightarrow> (\<exists>p. builtin_ok kd ?a (MPassword p))"
      by (metis auth_method.exhaust kind_of.simps method_kind.distinct)
    then show ?thesis using KindPassword pw by (simp add: acc method_set_def builtin_ok_def)
  qed
qed

theorem method_set_exact_witness:
  "\<exists>m. kind_of m = KindPassword \<and> decide (\<lambda>k. k) example_inner (lit ''ann'') m = Accept"
  using method_set_exact [of example_inner "lit ''ann''" KindPassword "\<lambda>k. k"]
  by (simp add: example_inner_def user_allowed_def method_set_def)

text \<open>
  Offering a key is consistent with signing with it: without a hook the early answer to an
  offered key is the answer the signed request would get, and an offer alone authenticates
  nobody.
\<close>

theorem offered_key_consistent:
  assumes "si_authenticator inner = None"
  shows "auth_publickey_offered kd inner c user key = (c, decide kd inner user (MPublicKey key))"
  using assms by (simp add: auth_publickey_offered_def decide_def builtin_ok_def)

theorem offered_key_consistent_witness:
  "auth_publickey_offered (\<lambda>k. k) example_inner (conn_new True) (lit ''ann'') 7 = (conn_new True, Accept)"
  using offered_key_consistent [of example_inner "\<lambda>k. k" "conn_new True" "lit ''ann''" 7]
  by (simp add: example_inner_def decide_def user_allowed_def builtin_ok_def check_publickey_def)

section \<open>Runs of a connection\<close>

text \<open>The authentication events that get in.\<close>

fun accepted :: "('k \<Rightarrow> 'd) \<Rightarrow> 'k server_inner \<Rightarrow> 'k conn_event \<Rightarrow> bool" where
  "accepted kd inner (EAuthNone user) = (decide kd inner user MNone = Accept)"
| "accepted kd inner (EAuthPassword user p) = (decide kd inner user (MPassword p) = Accept)"
| "accepted kd inner (EAuthKey user k) = (decide kd inner user (MPublicKey k) = Accept)"
| "accepted kd inner _ = False"

text \<open>What the policy allows an action to be.\<close>

fun action_ok :: "'k server_inner \<Rightarrow> action \<Rightarrow> bool" where
  "action_ok inner (SpawnSession ch request command env) =
     (command = si_command_resolver inner request \<and>
      list_all (\<lambda>(k, v). env_allowed k (si_accept_env inner)) env)"
| "action_ok inner (SpawnSftp ch root) = (root = si_sftp_root inner)"
| "action_ok inner (SpawnForward ch host port) =
     (si_allow_tcp_forwarding inner \<and>
      (case si_forwarder inner of
         None \<Rightarrow> True
       | Some authorize \<Rightarrow>
           \<exists>req. fw_host req = host \<and> fw_port req = port \<and> authorize req \<noteq> ForwardDeny))"
| "action_ok inner _ = True"

definition channels_ok :: "'k server_inner \<Rightarrow> conn \<Rightarrow> bool" where
  "channels_ok inner c \<longleftrightarrow>
     (\<forall>cid st. cn_channels c cid = Some st \<longrightarrow>
        list_all (\<lambda>(k, v). env_allowed k (si_accept_env inner)) (ch_env st) \<and>
        (\<forall>ch. ch_channel st = Some ch \<longrightarrow> ch = cid))"

definition conn_inv :: "'k server_inner \<Rightarrow> machine \<Rightarrow> bool" where
  "conn_inv inner m \<longleftrightarrow>
     channels_ok inner (mc_conn m) \<and>
     list_all (action_ok inner) (mc_log m) \<and>
     (let_in m \<longleftrightarrow> cn_authed (mc_conn m))"

lemmas handler_defs =
  answer_def finish_auth_def mark_authenticated_def auth_none_def auth_password_def auth_publickey_def
  auth_publickey_offered_def channel_open_session_def handle_pty_request_def env_request_def
  window_change_request_def shell_request_def exec_request_def start_session_def
  subsystem_request_def channel_open_direct_tcpip_def channel_eof_def channel_close_def Let_def

lemma dispatch_channels_ok:
  assumes "channels_ok inner c"
  shows "channels_ok inner (fst (dispatch kd inner c e))"
  using assms
  by (cases e) (auto simp: handler_defs channels_ok_def channel_default_def split: option.splits)

lemma forward_action_ok:
  "\<not> (case si_forwarder inner of Some authorize \<Rightarrow> authorize req = ForwardDeny | None \<Rightarrow> False) \<Longrightarrow>
   si_allow_tcp_forwarding inner \<Longrightarrow>
   action_ok inner (SpawnForward ch (fw_host req) (fw_port req))"
  by (auto split: option.splits)

lemma dispatch_actions_ok:
  assumes "channels_ok inner c"
  shows "list_all (action_ok inner) (snd (dispatch kd inner c e))"
proof (cases e)
  case (EDirectTcpip cid h p oh op)
  then show ?thesis
    using forward_action_ok [where inner = inner and req = "\<lparr>fw_host = h, fw_port = ucast p, fw_originator_host = oh,
        fw_originator_port = ucast op\<rparr>"]
    by (simp add: channel_open_direct_tcpip_def Let_def del: action_ok.simps(3))
qed (use assms in \<open>auto simp: handler_defs channels_ok_def split: option.splits session_kind.splits\<close>)

lemma dispatch_authed:
  "cn_authed (fst (dispatch kd inner c e)) \<longleftrightarrow> cn_authed c \<or> accepted kd inner e"
  by (cases e) (auto simp: handler_defs split: option.splits)

lemma dispatch_permit:
  "cn_startup_permit (fst (dispatch kd inner c e)) \<longleftrightarrow> cn_startup_permit c \<and> \<not> accepted kd inner e"
  by (cases e) (auto simp: handler_defs split: option.splits)

text \<open>An action that serves the client, beyond answering its authentication requests.\<close>

fun serves :: "action \<Rightarrow> bool" where
  "serves (AnswerAuth _) = False"
| "serves (AnswerOffer _) = False"
| "serves _ = True"

lemma dispatch_auth_silent: "is_auth_event e \<Longrightarrow> \<not> list_ex serves (snd (dispatch kd inner c e))"
  by (cases e) (auto simp: answer_def)

lemma dispatch_answer: "AnswerAuth Accept \<in> set (snd (dispatch kd inner c e)) \<longleftrightarrow> accepted kd inner e"
  by (cases e) (auto simp: handler_defs split: option.splits session_kind.splits)

lemma accepted_is_auth: "accepted kd inner e \<Longrightarrow> is_auth_event e"
  by (cases e) auto

lemma conn_step_simps [simp]:
  "mc_conn (conn_step kd inner m e) = fst (dispatch kd inner (mc_conn m) e)"
  "mc_log (conn_step kd inner m e) = mc_log m @ snd (dispatch kd inner (mc_conn m) e)"
  by (simp_all add: conn_step_def split: prod.split)

lemma let_in_step: "let_in (conn_step kd inner m e) \<longleftrightarrow> let_in m \<or> accepted kd inner e"
  by (simp add: let_in_def dispatch_answer)

lemma conn_step_inv:
  assumes "conn_inv inner m" and "conn_adm m e"
  shows "conn_inv inner (conn_step kd inner m e)"
  using assms dispatch_channels_ok [of inner "mc_conn m" kd e]
    dispatch_actions_ok [of inner "mc_conn m" kd e]
  by (auto simp: conn_inv_def dispatch_authed let_in_step)

interpretation conn_system: step_system conn_adm "conn_step kd inner" "conn_inv inner" for kd inner
  by unfold_locales (rule conn_step_inv)

text \<open>Being authenticated is never taken back.\<close>

interpretation conn_auth: monotone_system conn_adm "conn_step kd inner" "conn_inv inner"
  "\<lambda>m. if cn_authed (mc_conn m) then 1 else 0" for kd inner
  by unfold_locales (simp add: dispatch_authed)

lemma machine_new_inv [inv_intros]: "conn_inv inner (machine_new permit)"
  by (simp add: conn_inv_def machine_new_def conn_new_def channels_ok_def let_in_def)

lemma run_authed:
  "cn_authed (mc_conn (foldl (conn_step kd inner) m es)) \<longleftrightarrow>
     cn_authed (mc_conn m) \<or> (\<exists>e \<in> set es. accepted kd inner e)"
  by (induction es arbitrary: m) (auto simp: dispatch_authed)

lemma run_permit:
  "cn_startup_permit (mc_conn (foldl (conn_step kd inner) m es)) \<longleftrightarrow>
     cn_startup_permit (mc_conn m) \<and> (\<forall>e \<in> set es. \<not> accepted kd inner e)"
  by (induction es arbitrary: m) (auto simp: dispatch_permit)

lemma first_accept:
  assumes "run_ok conn_adm (conn_step kd inner) m es" and "\<not> let_in m" and "\<not> list_ex serves (mc_log m)"
    and "list_ex serves (mc_log (foldl (conn_step kd inner) m es))"
  shows "\<exists>before e after. es = before @ e # after \<and> accepted kd inner e \<and>
    \<not> list_ex serves (mc_log (foldl (conn_step kd inner) m before))"
  using assms
proof (induction es arbitrary: m)
  case (Cons e es)
  show ?case
  proof (cases "accepted kd inner e")
    case True
    then show ?thesis using Cons.prems(3) by (intro exI [of _ "[]"]) auto
  next
    case False
    have "is_auth_event e" using Cons.prems(1,2) by (simp add: conn_adm_def)
    then have "\<not> list_ex serves (mc_log (conn_step kd inner m e))"
      using Cons.prems(3) dispatch_auth_silent by auto
    then obtain before e' after where "es = before @ e' # after" "accepted kd inner e'"
        "\<not> list_ex serves (mc_log (foldl (conn_step kd inner) (conn_step kd inner m e) before))"
      using Cons.IH [of "conn_step kd inner m e"] Cons.prems False by (auto simp: let_in_step)
    then show ?thesis by (intro exI [of _ "e # before"]) auto
  qed
qed simp

lemma machine_new_fresh: "\<not> let_in (machine_new permit)" "\<not> list_ex serves (mc_log (machine_new permit))"
  by (simp_all add: machine_new_def let_in_def)

lemmas first_accept_new = first_accept [OF _ machine_new_fresh]

text \<open>
  C2. Nothing happens before authentication: if a connection has sent a reply on a channel,
  started a session, a file transfer or a forward, then one of its authentication requests was one
  the policy accepts, and nothing of the kind had happened until then. The protocol library is assumed to
  let a client on to channels only after the handler's answer to such a request was to accept it.
\<close>

theorem actions_need_authentication:
  assumes "run_ok conn_adm (conn_step kd inner) (machine_new permit) es"
    and "list_ex serves (mc_log (foldl (conn_step kd inner) (machine_new permit) es))"
  shows "\<exists>before e after. es = before @ e # after \<and> accepted kd inner e \<and>
    \<not> list_ex serves (mc_log (foldl (conn_step kd inner) (machine_new permit) before))"
  by (rule first_accept_new [OF assms])

definition example_run :: "nat conn_event list" where
  "example_run = [EAuthNone (lit ''ann''), EAuthKey (lit ''ann'') 7, EOpenSession 0, EEnv 0 (lit ''LC_A'') [1],
     EEnv 0 (lit ''PATH'') [2], EShell 0, ESubsystem 0 (lit ''sftp'')]"

lemmas example_defs =
  example_run_def example_inner_def machine_new_def conn_new_def conn_adm_def let_in_def conn_step_def handler_defs
  decide_def user_allowed_def builtin_ok_def check_publickey_def reject_def method_set_def
  channel_default_def env_allowed_def

lemma example_run_ok: "run_ok conn_adm (conn_step (\<lambda>k. k) example_inner) (machine_new True) example_run"
  by (simp add: example_defs text_eval)

lemma example_run_log:
  "mc_log (foldl (conn_step (\<lambda>k. k) example_inner) (machine_new True) example_run) =
     [AnswerAuth (Reject [KindPublicKey, KindPassword] False), AnswerAuth Accept,
      OpenAccept 0, ChannelSuccess 0, ChannelFailure 0, ChannelSuccess 0,
      SpawnSession 0 (SessShell None) (session_command_new (lit ''sh'')) [(lit ''LC_A'', [1])],
      ChannelFailure 0]"
  by (simp add: example_defs text_eval)

theorem actions_need_authentication_witness:
  "\<exists>before e after. example_run = before @ e # after \<and> accepted (\<lambda>k. k) example_inner e \<and>
    \<not> list_ex serves (mc_log (foldl (conn_step (\<lambda>k. k) example_inner) (machine_new True) before))"
  by (rule actions_need_authentication [OF example_run_ok]) (simp add: example_run_log)

text \<open>
  C3. Every action of a connection respects the policy: sessions run what the resolver says with
  allowlisted client variables only, file transfers run under the configured root, and a
  connection is forwarded only when forwarding is on and the forwarding policy does not deny
  that target.
\<close>

theorem actions_respect_policy:
  assumes "run_ok conn_adm (conn_step kd inner) (machine_new permit) es"
    and "act \<in> set (mc_log (foldl (conn_step kd inner) (machine_new permit) es))"
  shows "action_ok inner act"
  using conn_system.run_inv [OF machine_new_inv assms(1)] assms(2)
  by (auto simp: conn_inv_def list_all_iff)

theorem actions_respect_policy_witness:
  "action_ok example_inner
     (SpawnSession 0 (SessShell None) (session_command_new (lit ''sh'')) [(lit ''LC_A'', [1])])"
  by (rule actions_respect_policy [OF example_run_ok]) (simp add: example_run_log)

section \<open>One session per channel\<close>

definition starts :: "channel_id \<Rightarrow> action \<Rightarrow> bool" where
  "starts cid act = (case act of SpawnSession ch _ _ _ \<Rightarrow> ch = cid | SpawnSftp ch _ \<Rightarrow> ch = cid | _ \<Rightarrow> False)"

definition tokens :: "conn \<Rightarrow> channel_id \<Rightarrow> nat" where
  "tokens c cid =
     (case cn_channels c cid of Some st \<Rightarrow> (if ch_channel st \<noteq> None then 1 else 0) | None \<Rightarrow> 0)"

definition is_open :: "channel_id \<Rightarrow> 'k conn_event \<Rightarrow> bool" where
  "is_open cid e = (case e of EOpenSession ch \<Rightarrow> ch = cid | _ \<Rightarrow> False)"

lemma dispatch_tokens:
  assumes "channels_ok inner c"
  shows "length (filter (starts cid) (snd (dispatch kd inner c e))) +
       tokens (fst (dispatch kd inner c e)) cid
     \<le> tokens c cid + (if is_open cid e then 1 else 0)"
  using assms
  by (cases e) (auto simp: handler_defs tokens_def is_open_def starts_def channels_ok_def
      channel_default_def split: option.splits)

lemma run_tokens:
  assumes "channels_ok inner (mc_conn m)"
  shows "length (filter (starts cid) (mc_log (foldl (conn_step kd inner) m es))) +
       tokens (mc_conn (foldl (conn_step kd inner) m es)) cid
     \<le> length (filter (starts cid) (mc_log m)) + tokens (mc_conn m) cid + length (filter (is_open cid) es)"
  using assms
proof (induction es arbitrary: m)
  case (Cons e es)
  have "channels_ok inner (mc_conn (conn_step kd inner m e))"
    using dispatch_channels_ok [OF Cons.prems] by simp
  from Cons.IH [OF this] dispatch_tokens [OF Cons.prems, of cid kd e] show ?case
    by (simp split: if_splits)
qed simp

text \<open>
  C7. A channel is used at most once: on every channel there are never more sessions and file
  transfers started than session channels the client opened under that number, whatever
  requests it sends and in whatever order.
\<close>

theorem one_start_per_open:
  "length (filter (starts cid) (mc_log (foldl (conn_step kd inner) (machine_new permit) es)))
     \<le> length (filter (is_open cid) es)"
  using run_tokens [of inner "machine_new permit" cid kd es]
  by (simp add: machine_new_def conn_new_def channels_ok_def tokens_def)

section \<open>What a channel promises\<close>

text \<open>
  The abstract view of one session channel: it does not exist, it waits for its one request, or
  that request was taken. Only the requests that start something move it on.
\<close>

datatype channel_phase = NoChannel | Unclaimed | Taken

fun spec_step :: "channel_id \<Rightarrow> channel_phase \<times> nat \<Rightarrow> 'k conn_event \<Rightarrow> channel_phase \<times> nat" where
  "spec_step cid (ph, n) (EOpenSession ch) = (if ch = cid then (Unclaimed, n) else (ph, n))"
| "spec_step cid (ph, n) (EShell ch) = (if ch = cid \<and> ph = Unclaimed then (Taken, Suc n) else (ph, n))"
| "spec_step cid (ph, n) (EExec ch _) = (if ch = cid \<and> ph = Unclaimed then (Taken, Suc n) else (ph, n))"
| "spec_step cid (ph, n) (ESubsystem ch name) =
     (if ch = cid \<and> name = lit ''sftp'' \<and> ph = Unclaimed then (Taken, Suc n) else (ph, n))"
| "spec_step cid (ph, n) (EClose ch) = (if ch = cid then (NoChannel, n) else (ph, n))"
| "spec_step cid (ph, n) _ = (ph, n)"

definition phase_of :: "conn \<Rightarrow> channel_id \<Rightarrow> channel_phase" where
  "phase_of c cid =
     (case cn_channels c cid of
        None \<Rightarrow> NoChannel
      | Some st \<Rightarrow> if ch_channel st = None then Taken else Unclaimed)"

definition channel_view :: "channel_id \<Rightarrow> machine \<Rightarrow> channel_phase \<times> nat" where
  "channel_view cid m = (phase_of (mc_conn m) cid, length (filter (starts cid) (mc_log m)))"

lemma channel_view_step:
  assumes "channels_ok inner (mc_conn m)"
  shows "channel_view cid (conn_step kd inner m e) = spec_step cid (channel_view cid m) e"
  using assms
  by (cases e) (auto simp: handler_defs channel_view_def phase_of_def starts_def channels_ok_def
      channel_default_def split: option.splits)

lemma channel_view_run:
  assumes "channels_ok inner (mc_conn m)"
  shows "channel_view cid (foldl (conn_step kd inner) m es) = foldl (spec_step cid) (channel_view cid m) es"
  using assms
proof (induction es arbitrary: m)
  case (Cons e es)
  have "channels_ok inner (mc_conn (conn_step kd inner m e))"
    using dispatch_channels_ok [OF Cons.prems] by simp
  then show ?case using Cons.IH channel_view_step [OF Cons.prems, of cid kd e] by simp
qed simp

text \<open>
  C21. The handler refines the protocol of a channel: seen through any one channel number, every
  sequence of requests drives the handler's state and the sessions and transfers it has started
  exactly as the abstract protocol says, in which a channel that waits starts one thing and a
  channel that was taken, closed or never opened starts nothing.
\<close>

theorem channel_refines:
  "(phase_of (mc_conn (foldl (conn_step kd inner) (machine_new permit) es)) cid,
    length (filter (starts cid) (mc_log (foldl (conn_step kd inner) (machine_new permit) es))))
   = foldl (spec_step cid) (NoChannel, 0) es"
  using channel_view_run [of inner "machine_new permit" cid kd es]
  by (simp add: channel_view_def phase_of_def machine_new_def conn_new_def channels_ok_def)

text \<open>
  The startup slot is held exactly while nobody is authenticated: a connection that entered
  through the accept loop gives its permit back at the first accepted request and at no other
  time.
\<close>

theorem permit_until_authenticated:
  "(cn_startup_permit (mc_conn (foldl (conn_step kd inner) (machine_new True) es)) \<longleftrightarrow>
     \<not> cn_authed (mc_conn (foldl (conn_step kd inner) (machine_new True) es))) \<and>
   (cn_authed (mc_conn (foldl (conn_step kd inner) (machine_new True) es)) \<longleftrightarrow>
     (\<exists>e \<in> set es. accepted kd inner e))"
  by (auto simp: run_permit run_authed machine_new_def conn_new_def)

text \<open>
  C27. A session's end of file is taken over by a refused request: after a shell was started on
  a channel, a request for the \<open>sftp\<close> subsystem on it is refused but still marks the channel as
  a file transfer, so the client's end of file makes the handler report exit status 0 and close
  the channel while the shell is running.
\<close>

theorem refused_sftp_closes_session:
  assumes "cn_channels c cid = Some st" and "ch_channel st = None"
  shows "snd (subsystem_request inner c cid (lit ''sftp'')) = [ChannelFailure cid] \<and>
     snd (channel_eof (fst (subsystem_request inner c cid (lit ''sftp''))) cid) =
       [SendExitStatus cid 0, SendEof cid, SendClose cid]"
  using assms by (simp add: subsystem_request_def channel_eof_def)

theorem refused_sftp_closes_session_witness:
  "snd (channel_eof (fst (subsystem_request example_inner
      (fst (shell_request example_inner (fst (channel_open_session (conn_new True) 0)) 0)) 0 (lit ''sftp''))) 0) =
     [SendExitStatus 0 0, SendEof 0, SendClose 0]"
  using refused_sftp_closes_session [of "fst (shell_request example_inner
      (fst (channel_open_session (conn_new True) 0)) 0)" 0
      "\<lparr>ch_channel = None, ch_pty = None, ch_env = [], ch_resize = True, ch_sftp = False\<rparr>" example_inner]
  by (simp add: shell_request_def start_session_def channel_open_session_def channel_default_def
      conn_new_def Let_def)

end
