(* ===== verification/Hostkey.thy ===== *)
theory Hostkey
  imports Config
begin

text \<open>
  \<open>hostkey.rs\<close>: loading the host keys, or generating and persisting them. Private keys are the
  \<open>russh\<close> library's (type \<open>'key\<close>); the calls into it and into the file system are the record
  \<open>key_os\<close> over a file system state \<open>'w\<close>.
\<close>

record ('w, 'key) key_os =
  ko_exists :: "'w \<Rightarrow> path \<Rightarrow> bool"
  ko_load :: "'w \<Rightarrow> path \<Rightarrow> str option \<Rightarrow> str + 'key"
  ko_random :: "'w \<Rightarrow> (str + 'key) \<times> 'w"
  ko_create_dir_all :: "path \<Rightarrow> 'w \<Rightarrow> (io_error + unit) \<times> 'w"
  ko_set_private :: "path \<Rightarrow> 'w \<Rightarrow> 'w"
  ko_write :: "'key \<Rightarrow> path \<Rightarrow> 'w \<Rightarrow> (str + unit) \<times> 'w"

definition default_host_key_path :: "path option \<Rightarrow> error + path" where
  "default_host_key_path home =
     rbind (ok_or (ErrHostKeyGenerate (lit ''could not determine the home directory'')) home)
       (\<lambda>h. Inr (path_join (path_join h (lit ''.sshdt'')) (lit ''host_ed25519'')))"

text \<open>Making the directory of a new key: nothing to do for a bare file name.\<close>

definition prepare_dir :: "('w, 'key) key_os \<Rightarrow> path \<Rightarrow> 'w \<Rightarrow> (error + unit) \<times> 'w" where
  "prepare_dir os p w =
     (case path_parent p of
        None \<Rightarrow> (Inr (), w)
      | Some dir \<Rightarrow>
          (if dir = [] then (Inr (), w)
           else (case ko_create_dir_all os dir w of
                   (Inl e, w') \<Rightarrow> (Inl (ErrIo e), w')
                 | (Inr _, w') \<Rightarrow> (Inr (), ko_set_private os dir w'))))"

definition generate_and_persist :: "('w, 'key) key_os \<Rightarrow> path \<Rightarrow> 'w \<Rightarrow> (error + 'key) \<times> 'w" where
  "generate_and_persist os p w =
     (case ko_random os w of
        (Inl e, w1) \<Rightarrow> (Inl (ErrHostKeyGenerate e), w1)
      | (Inr key, w1) \<Rightarrow>
          (case prepare_dir os p w1 of
             (Inl e, w2) \<Rightarrow> (Inl e, w2)
           | (Inr _, w2) \<Rightarrow>
               (case ko_write os key p w2 of
                  (Inl e, w3) \<Rightarrow> (Inl (ErrHostKeyGenerate e), w3)
                | (Inr _, w3) \<Rightarrow> (Inr key, w3))))"

definition load_or_generate_one ::
  "('w, 'key) key_os \<Rightarrow> str option \<Rightarrow> path \<Rightarrow> 'w \<Rightarrow> (error + 'key) \<times> 'w" where
  "load_or_generate_one os pass p w =
     (if ko_exists os w p then
        (case ko_load os w p pass of
           Inl source \<Rightarrow> (Inl (ErrHostKeyLoad p source), w)
         | Inr key \<Rightarrow> (Inr key, w))
      else generate_and_persist os p w)"

fun load_each ::
  "('w, 'key) key_os \<Rightarrow> str option \<Rightarrow> path list \<Rightarrow> 'w \<Rightarrow> (error + 'key list) \<times> 'w" where
  "load_each os pass [] w = (Inr [], w)"
| "load_each os pass (p # ps) w =
     (case load_or_generate_one os pass p w of
        (Inl e, w') \<Rightarrow> (Inl e, w')
      | (Inr k, w') \<Rightarrow>
          (case load_each os pass ps w' of
             (Inl e, w'') \<Rightarrow> (Inl e, w'')
           | (Inr ks, w'') \<Rightarrow> (Inr (k # ks), w'')))"

definition load_or_generate ::
  "('w, 'key) key_os \<Rightarrow> path option \<Rightarrow> path list \<Rightarrow> str option \<Rightarrow> 'w \<Rightarrow> (error + 'key list) \<times> 'w" where
  "load_or_generate os home paths pass w =
     (if paths = [] then
        (case default_host_key_path home of
           Inl e \<Rightarrow> (Inl e, w)
         | Inr p \<Rightarrow>
             (case load_or_generate_one os pass p w of
                (Inl e, w') \<Rightarrow> (Inl e, w')
              | (Inr k, w') \<Rightarrow> (Inr [k], w')))
      else load_each os pass paths w)"

section \<open>Stability across restarts\<close>

text \<open>What is relied on: a key that was written is there and loads, with or without a passphrase
  since it is written unencrypted; generating, making directories and creating a file that was
  not there leave the other key files as they are; and making the directory of a path without
  \<open>..\<close> does not make the path itself appear. The last is not true of a path such as
  \<open>/x/y/../z\<close>: making \<open>/x/y\<close> lets the path name the file \<open>/x/z\<close>, which was there all along.
  It also takes directories of keys that the server's user may search, since a private mode
  would make the files of an unsearchable directory visible.\<close>

definition no_dotdot :: "path \<Rightarrow> bool" where
  [text_eval]: "no_dotdot p \<longleftrightarrow> ParentDir \<notin> set (components p)"

definition keeps_keys :: "('w, 'key) key_os \<Rightarrow> 'w \<Rightarrow> 'w \<Rightarrow> bool" where
  "keeps_keys os w w' \<longleftrightarrow>
     (\<forall>p pass. ko_exists os w p \<longrightarrow> ko_exists os w' p \<and> ko_load os w' p pass = ko_load os w p pass)"

definition key_store_ok :: "('w, 'key) key_os \<Rightarrow> bool" where
  "key_store_ok os \<longleftrightarrow>
     (\<forall>w. keeps_keys os w (snd (ko_random os w))) \<and>
     (\<forall>d w. keeps_keys os w (snd (ko_create_dir_all os d w))) \<and>
     (\<forall>d w. keeps_keys os w (ko_set_private os d w)) \<and>
     (\<forall>k p w. \<not> ko_exists os w p \<longrightarrow> keeps_keys os w (snd (ko_write os k p w))) \<and>
     (\<forall>k p w pass. fst (ko_write os k p w) = Inr () \<longrightarrow>
        ko_exists os (snd (ko_write os k p w)) p \<and> ko_load os (snd (ko_write os k p w)) p pass = Inr k) \<and>
     (\<forall>p w. \<not> ko_exists os w p \<longrightarrow> \<not> ko_exists os (snd (ko_random os w)) p) \<and>
     (\<forall>p d w. \<not> ko_exists os w p \<longrightarrow> no_dotdot p \<longrightarrow> path_parent p = Some d \<longrightarrow>
        \<not> ko_exists os (snd (ko_create_dir_all os d w)) p \<and> \<not> ko_exists os (ko_set_private os d w) p)"

lemma keeps_keys_refl [simp]: "keeps_keys os w w"
  by (simp add: keeps_keys_def)

lemma keeps_keys_trans: "keeps_keys os a b \<Longrightarrow> keeps_keys os b c \<Longrightarrow> keeps_keys os a c"
  by (simp add: keeps_keys_def)

lemma prepare_dir_keeps:
  assumes "key_store_ok os" and "no_dotdot p" and "\<not> ko_exists os w p"
  shows "keeps_keys os w (snd (prepare_dir os p w)) \<and> \<not> ko_exists os (snd (prepare_dir os p w)) p"
proof (cases "path_parent p")
  case None
  then show ?thesis using assms(3) by (simp add: prepare_dir_def)
next
  case (Some d)
  obtain r w' where c: "ko_create_dir_all os d w = (r, w')" by (metis prod.exhaust)
  have k1: "keeps_keys os w w'" and n1: "\<not> ko_exists os w' p"
    using assms Some c unfolding key_store_ok_def by (metis snd_conv)+
  have k2: "keeps_keys os w' (ko_set_private os d w')" and n2: "\<not> ko_exists os (ko_set_private os d w') p"
    using assms Some n1 unfolding key_store_ok_def by metis+
  show ?thesis
    using assms(3) k1 n1 n2 keeps_keys_trans [OF k1 k2] Some
    by (simp add: prepare_dir_def c split: sum.split)
qed

lemma generate_keeps:
  assumes "key_store_ok os" and "no_dotdot p" and "\<not> ko_exists os w p"
  shows "keeps_keys os w (snd (generate_and_persist os p w))"
    and "fst (generate_and_persist os p w) = Inr k \<Longrightarrow>
      ko_exists os (snd (generate_and_persist os p w)) p \<and>
      ko_load os (snd (generate_and_persist os p w)) p pass = Inr k"
proof -
  obtain r1 w1 where g: "ko_random os w = (r1, w1)" by (metis prod.exhaust)
  obtain r2 w2 where d: "prepare_dir os p w1 = (r2, w2)" by (metis prod.exhaust)
  have k1: "keeps_keys os w w1" and n1: "\<not> ko_exists os w1 p"
    using assms g unfolding key_store_ok_def by (metis snd_conv)+
  have k2: "keeps_keys os w1 w2" and n2: "\<not> ko_exists os w2 p"
    using prepare_dir_keeps [OF assms(1,2) n1] d by simp_all
  have k3: "keeps_keys os w2 (snd (ko_write os k' p w2))" for k'
    using assms(1) n2 unfolding key_store_ok_def by blast
  have wr: "fst (ko_write os k' p w2) = Inr () \<Longrightarrow>
      ko_exists os (snd (ko_write os k' p w2)) p \<and> ko_load os (snd (ko_write os k' p w2)) p pass = Inr k'" for k'
    using assms(1) unfolding key_store_ok_def by blast
  note k12 = keeps_keys_trans [OF k1 k2]
  note k123 = keeps_keys_trans [OF k12 k3]
  show "keeps_keys os w (snd (generate_and_persist os p w))"
    using k1 k12 k123
    by (auto simp: generate_and_persist_def g d split: sum.split prod.split) (metis snd_conv)+
  show "ko_exists os (snd (generate_and_persist os p w)) p \<and>
      ko_load os (snd (generate_and_persist os p w)) p pass = Inr k"
    if "fst (generate_and_persist os p w) = Inr k"
    using that wr [of k] by (auto simp: generate_and_persist_def g d split: sum.splits prod.splits)
qed

lemma load_one_stable:
  assumes "key_store_ok os" and "no_dotdot p" and "load_or_generate_one os pass p w = (Inr k, w')"
  shows "keeps_keys os w w'" and "ko_exists os w' p \<and> ko_load os w' p pass = Inr k"
proof -
  show "keeps_keys os w w'"
    using assms generate_keeps(1) [OF assms(1,2)]
    by (auto simp: load_or_generate_one_def split: if_splits sum.splits) (metis snd_conv)
  show "ko_exists os w' p \<and> ko_load os w' p pass = Inr k"
  proof (cases "ko_exists os w p")
    case True
    then show ?thesis using assms(3) by (auto simp: load_or_generate_one_def split: sum.splits)
  next
    case False
    then show ?thesis
      using assms(3) generate_keeps(2) [OF assms(1,2) False, of k pass]
      by (simp add: load_or_generate_one_def)
  qed
qed

lemma load_one_loaded:
  "ko_exists os w p \<Longrightarrow> ko_load os w p pass = Inr k \<Longrightarrow> load_or_generate_one os pass p w = (Inr k, w)"
  by (simp add: load_or_generate_one_def)

lemma load_each_stable:
  assumes "key_store_ok os" and "list_all no_dotdot ps" and "load_each os pass ps w = (Inr ks, w')"
  shows "keeps_keys os w w' \<and> load_each os pass ps w' = (Inr ks, w')"
  using assms(2,3)
proof (induction ps arbitrary: w ks)
  case (Cons p ps)
  obtain k w1 ks' where one: "load_or_generate_one os pass p w = (Inr k, w1)"
      and rest: "load_each os pass ps w1 = (Inr ks', w')" and ks: "ks = k # ks'"
    using Cons.prems(2) by (auto split: sum.splits prod.splits)
  have abs: "no_dotdot p" "list_all no_dotdot ps" using Cons.prems(1) by simp_all
  note one' = load_one_stable [OF assms(1) abs(1) one]
  note rest' = Cons.IH [OF abs(2) rest]
  have "ko_exists os w' p \<and> ko_load os w' p pass = Inr k"
    using one'(2) rest' by (simp add: keeps_keys_def)
  then show ?case
    using rest' keeps_keys_trans [OF one'(1)] by (simp add: ks load_one_loaded)
qed simp

text \<open>The key files a start uses: the configured ones, or the default one.\<close>

definition key_paths :: "path option \<Rightarrow> path list \<Rightarrow> path list" where
  [text_eval]: "key_paths home paths =
     (if paths = [] then (case default_host_key_path home of Inl e \<Rightarrow> [] | Inr p \<Rightarrow> [p]) else paths)"

lemma load_or_generate_each:
  "load_or_generate os home paths pass w = (Inr ks, w') \<longleftrightarrow>
     key_paths home paths \<noteq> [] \<and> load_each os pass (key_paths home paths) w = (Inr ks, w')"
  by (auto simp: load_or_generate_def key_paths_def split: sum.splits prod.splits)

text \<open>
  C28. The server keeps its identity: after a successful start, starting again from the file
  system it left gives the same host keys and changes nothing, whether they were loaded or
  generated. This holds for every list of key files, relative or absolute, with any of them in
  a directory that is not there yet and with the default file when none is configured, when no
  path has a component \<open>..\<close>; of the file system and the key library it takes \<open>key_store_ok\<close>.
\<close>

theorem host_keys_stable:
  assumes "key_store_ok os" and "list_all no_dotdot (key_paths home paths)"
    and "load_or_generate os home paths pass w = (Inr ks, w')"
  shows "load_or_generate os home paths pass w' = (Inr ks, w')"
  using assms(3) load_each_stable [OF assms(1,2)] by (auto simp: load_or_generate_each)

text \<open>A store of keys numbered in the order they were made.\<close>

definition demo_keys :: "((path \<times> nat) list \<times> nat, nat) key_os" where
  "demo_keys =
     \<lparr>ko_exists = (\<lambda>(st, n) p. map_of st p \<noteq> None),
      ko_load = (\<lambda>(st, n) p pass. case map_of st p of Some k \<Rightarrow> Inr k | None \<Rightarrow> Inl []),
      ko_random = (\<lambda>(st, n). (Inr n, (st, n + 1))),
      ko_create_dir_all = (\<lambda>d w. (Inr (), w)),
      ko_set_private = (\<lambda>d w. w),
      ko_write = (\<lambda>k p (st, n). (Inr (), ((p, k) # st, n)))\<rparr>"

lemma demo_keys_ok: "key_store_ok demo_keys"
  by (auto simp: key_store_ok_def keeps_keys_def demo_keys_def split: option.splits)

theorem host_keys_stable_witness:
  "load_or_generate demo_keys None [lit ''/k''] None ([(lit ''/k'', 5)], 6) = (Inr [5], ([(lit ''/k'', 5)], 6))"
proof -
  have "load_or_generate demo_keys None [lit ''/k''] None ([], 5) = (Inr [5], ([(lit ''/k'', 5)], 6))"
    by (simp add: load_or_generate_def load_or_generate_one_def generate_and_persist_def prepare_dir_def
        demo_keys_def text_eval Let_def)
  then show ?thesis by (rule host_keys_stable [OF demo_keys_ok, rotated 1]) (simp_all add: text_eval)
qed

lemma load_each_length: "load_each os pass ps w = (Inr ks, w') \<Longrightarrow> length ks = length ps"
  by (induction ps arbitrary: w ks w') (auto split: sum.splits prod.splits)

lemma load_or_generate_nonempty: "load_or_generate os home paths pass w = (Inr ks, w') \<Longrightarrow> ks \<noteq> []"
  using load_each_length [of os pass paths w ks w']
  by (auto simp: load_or_generate_def split: if_splits sum.splits prod.splits)

end
