(* ===== verification/Server.thy ===== *)
theory Server
  imports Handler Hostkey
begin

text \<open>
  \<open>server.rs\<close>: the builder with its setters and \<open>build\<close>.
\<close>

section \<open>Building a server\<close>

record 'k builder =
  bd_config :: config
  bd_authenticator :: "('k auth_request \<Rightarrow> auth_result) option"
  bd_command_resolver :: "(session_request \<Rightarrow> session_command) option"
  bd_session_handler :: bool
  bd_forwarder :: "(forward_request \<Rightarrow> forward_decision) option"

definition builder_from_config :: "config \<Rightarrow> 'k builder" where
  "builder_from_config c = \<lparr>bd_config = c, bd_authenticator = None, bd_command_resolver = None,
     bd_session_handler = False, bd_forwarder = None\<rparr>"

definition builder_new :: "'k builder" where
  "builder_new = builder_from_config config_default"

abbreviation upd_config :: "(config \<Rightarrow> config) \<Rightarrow> 'k builder \<Rightarrow> 'k builder" where
  "upd_config f b \<equiv> b\<lparr>bd_config := f (bd_config b)\<rparr>"

definition with_config :: "config \<Rightarrow> 'k builder \<Rightarrow> 'k builder" where
  "with_config c b = b\<lparr>bd_config := c\<rparr>"

definition with_bind :: "ip_addr \<Rightarrow> 'k builder \<Rightarrow> 'k builder" where
  "with_bind a = upd_config (\<lambda>c. c\<lparr>cfg_bind := a\<rparr>)"

definition with_port :: "u16 \<Rightarrow> 'k builder \<Rightarrow> 'k builder" where
  "with_port p = upd_config (\<lambda>c. c\<lparr>cfg_port := p\<rparr>)"

definition with_host_key :: "path \<Rightarrow> 'k builder \<Rightarrow> 'k builder" where
  "with_host_key p = upd_config (\<lambda>c. c\<lparr>cfg_host_keys := cfg_host_keys c @ [p]\<rparr>)"

definition with_host_key_passphrase :: "str \<Rightarrow> 'k builder \<Rightarrow> 'k builder" where
  "with_host_key_passphrase p = upd_config (\<lambda>c. c\<lparr>cfg_host_key_passphrase := Some p\<rparr>)"

definition with_password :: "str \<Rightarrow> 'k builder \<Rightarrow> 'k builder" where
  "with_password p = upd_config (\<lambda>c. c\<lparr>cfg_password := Some p\<rparr>)"

definition with_authorized_keys :: "path \<Rightarrow> 'k builder \<Rightarrow> 'k builder" where
  "with_authorized_keys p = upd_config (\<lambda>c. c\<lparr>cfg_authorized_keys := cfg_authorized_keys c @ [p]\<rparr>)"

definition with_pubkey :: "str \<Rightarrow> 'k builder \<Rightarrow> 'k builder" where
  "with_pubkey l = upd_config (\<lambda>c. c\<lparr>cfg_authorized_key_lines := cfg_authorized_key_lines c @ [l]\<rparr>)"

definition with_allow_anonymous :: "bool \<Rightarrow> 'k builder \<Rightarrow> 'k builder" where
  "with_allow_anonymous a = upd_config (\<lambda>c. c\<lparr>cfg_allow_anonymous := a\<rparr>)"

definition with_shell :: "str \<Rightarrow> 'k builder \<Rightarrow> 'k builder" where
  "with_shell l = upd_config (\<lambda>c. c\<lparr>cfg_shell := Some l\<rparr>)"

definition with_sftp_root :: "path \<Rightarrow> 'k builder \<Rightarrow> 'k builder" where
  "with_sftp_root d = upd_config (\<lambda>c. c\<lparr>cfg_sftp_root := Some d\<rparr>)"

definition with_allow_tcp_forwarding :: "bool \<Rightarrow> 'k builder \<Rightarrow> 'k builder" where
  "with_allow_tcp_forwarding a = upd_config (\<lambda>c. c\<lparr>cfg_allow_tcp_forwarding := a\<rparr>)"

definition with_login_grace :: "u64 \<Rightarrow> 'k builder \<Rightarrow> 'k builder" where
  "with_login_grace secs = upd_config (\<lambda>c. c\<lparr>cfg_login_grace_secs := secs\<rparr>)"

definition with_max_startups :: "u32 \<Rightarrow> 'k builder \<Rightarrow> 'k builder" where
  "with_max_startups n = upd_config (\<lambda>c. c\<lparr>cfg_max_startups := n\<rparr>)"

definition with_accept_env :: "str list \<Rightarrow> 'k builder \<Rightarrow> 'k builder" where
  "with_accept_env ps = upd_config (\<lambda>c. c\<lparr>cfg_accept_env := ps\<rparr>)"

definition with_banner :: "str \<Rightarrow> 'k builder \<Rightarrow> 'k builder" where
  "with_banner t = upd_config (\<lambda>c. c\<lparr>cfg_banner := Some t\<rparr>)"

definition with_require_current_user :: "bool \<Rightarrow> 'k builder \<Rightarrow> 'k builder" where
  "with_require_current_user r = upd_config (\<lambda>c. c\<lparr>cfg_require_current_user := r\<rparr>)"

definition with_allow_user :: "str \<Rightarrow> 'k builder \<Rightarrow> 'k builder" where
  "with_allow_user u = upd_config (\<lambda>c. c\<lparr>cfg_allow_users := cfg_allow_users c @ [u]\<rparr>)"

definition with_authenticator :: "('k auth_request \<Rightarrow> auth_result) \<Rightarrow> 'k builder \<Rightarrow> 'k builder" where
  "with_authenticator h b = b\<lparr>bd_authenticator := Some h\<rparr>"

definition with_command_resolver :: "(session_request \<Rightarrow> session_command) \<Rightarrow> 'k builder \<Rightarrow> 'k builder" where
  "with_command_resolver r b = b\<lparr>bd_command_resolver := Some r\<rparr>"

definition with_session_handler :: "'k builder \<Rightarrow> 'k builder" where
  "with_session_handler b = b\<lparr>bd_session_handler := True\<rparr>"

definition with_forwarder :: "(forward_request \<Rightarrow> forward_decision) \<Rightarrow> 'k builder \<Rightarrow> 'k builder" where
  "with_forwarder f b = b\<lparr>bd_forwarder := Some f\<rparr>"

record 'key russh_config =
  rc_methods :: "method_kind list"
  rc_keys :: "'key list"
  rc_inactivity_timeout :: "u64 option"
  rc_auth_rejection_ms :: u64
  rc_nodelay :: bool
  rc_keepalive_interval :: "u64 option"
  rc_keepalive_max :: nat

record ('k, 'key) server =
  sv_inner :: "'k server_inner"
  sv_russh_config :: "'key russh_config"
  sv_bind :: socket_addr
  sv_max_startups :: u32
  sv_login_grace :: u64

definition strict_user_error :: error where
  "strict_user_error = ErrConfig (lit ''strict-user mode is enabled but the current OS user could not be determined (USER/LOGNAME/USERNAME are unset); pass --allow-user instead'')"

definition resolve_allowed_users :: "os_env \<Rightarrow> config \<Rightarrow> error + str list" where
  "resolve_allowed_users os c =
     (if cfg_require_current_user c then
        (case current_os_user (os_var os) of
           Some user \<Rightarrow> Inr (cfg_allow_users c @ [user])
         | None \<Rightarrow> if cfg_allow_users c = [] then Inl strict_user_error else Inr (cfg_allow_users c))
      else Inr (cfg_allow_users c))"

definition login_grace_of :: "config \<Rightarrow> u64" where
  "login_grace_of c =
     (if cfg_login_grace_secs c = 0 then (- 1) div 2 else cfg_login_grace_secs c)"

definition host_key_passphrase_of :: "os_env \<Rightarrow> config \<Rightarrow> str option" where
  "host_key_passphrase_of os c =
     (case cfg_host_key_passphrase c of
        Some p \<Rightarrow> Some p
      | None \<Rightarrow> os_var os (lit ''SSHDT_HOST_KEY_PASSPHRASE''))"

definition build ::
  "('w, 'key) key_os \<Rightarrow> os_env \<Rightarrow> read_file \<Rightarrow> (str \<Rightarrow> str + 'k) \<Rightarrow> 'k builder \<Rightarrow> 'w \<Rightarrow>
     (error + ('k, 'key) server) \<times> 'w" where
  "build ks os read fo b w =
     (let c = bd_config b in
      case load_or_generate ks (os_home_dir os) (cfg_host_keys c) (host_key_passphrase_of os c) w of
        (Inl e, w') \<Rightarrow> (Inl e, w')
      | (Inr keys, w') \<Rightarrow>
          (if keys = [] then Inl ErrNoHostKey
           else rbind (from_config read fo c) (\<lambda>auth.
             let methods = method_set auth (bd_authenticator b \<noteq> None);
                 rc = \<lparr>rc_methods = methods, rc_keys = keys, rc_inactivity_timeout = None,
                       rc_auth_rejection_ms = 250, rc_nodelay = True,
                       rc_keepalive_interval = Some 30, rc_keepalive_max = 3\<rparr>;
                 resolver = (case bd_command_resolver b of
                               Some r \<Rightarrow> r
                             | None \<Rightarrow> resolve_command os (resolver_new os (cfg_shell c)))
             in rbind (resolve_allowed_users os c) (\<lambda>users.
                  Inr \<lparr>sv_inner = \<lparr>si_auth = auth, si_authenticator = bd_authenticator b,
                         si_command_resolver = resolver, si_session_handler = bd_session_handler b,
                         si_forwarder = bd_forwarder b,
                         si_allow_tcp_forwarding = cfg_allow_tcp_forwarding c,
                         si_sftp_root = cfg_sftp_root c, si_accept_env = cfg_accept_env c,
                         si_banner = cfg_banner c, si_allowed_users = users\<rparr>,
                       sv_russh_config = rc,
                       sv_bind = \<lparr>sa_ip = cfg_bind c, sa_port = cfg_port c, sa_scope = 0\<rparr>,
                       sv_max_startups = cfg_max_startups c,
                       sv_login_grace = login_grace_of c\<rparr>)), w'))"

definition server_from_config ::
  "('w, 'key) key_os \<Rightarrow> os_env \<Rightarrow> read_file \<Rightarrow> (str \<Rightarrow> str + 'k) \<Rightarrow> config \<Rightarrow> 'w \<Rightarrow>
     (error + ('k, 'key) server) \<times> 'w" where
  "server_from_config ks os read fo c w = build ks os read fo (builder_from_config c) w"

section \<open>What a built server enforces\<close>

lemma build_Inr:
  assumes "build ks os read fo b w = (Inr sv, w')"
  shows "\<exists>auth users. from_config read fo (bd_config b) = Inr auth \<and>
      resolve_allowed_users os (bd_config b) = Inr users \<and>
      si_auth (sv_inner sv) = auth \<and> si_allowed_users (sv_inner sv) = users \<and>
      si_authenticator (sv_inner sv) = bd_authenticator b \<and>
      rc_methods (sv_russh_config sv) = method_set auth (bd_authenticator b \<noteq> None) \<and>
      rc_keys (sv_russh_config sv) \<noteq> [] \<and> sv_login_grace sv = login_grace_of (bd_config b) \<and>
      sv_bind sv = \<lparr>sa_ip = cfg_bind (bd_config b), sa_port = cfg_port (bd_config b), sa_scope = 0\<rparr> \<and>
      sv_max_startups sv = cfg_max_startups (bd_config b)"
  using assms by (auto simp: build_def Let_def split: sum.splits prod.splits if_splits)

lemma login_grace_nonzero: "login_grace_of c \<noteq> 0"
  by (simp add: login_grace_of_def)

lemma resolve_allowed_users_strict:
  "resolve_allowed_users os c = Inr users \<Longrightarrow> cfg_require_current_user c \<Longrightarrow> users \<noteq> []"
  by (auto simp: resolve_allowed_users_def split: option.splits if_splits)

text \<open>
  What \<open>build\<close> returns is safe to serve: there is at least one host key, the grace period is
  not zero, and in strict-user mode the list of accepted users is not empty, so that mode never
  falls back to accepting everyone.
\<close>

theorem build_safe:
  assumes "build ks os read fo b w = (Inr sv, w')"
  shows "rc_keys (sv_russh_config sv) \<noteq> [] \<and> sv_login_grace sv \<noteq> 0 \<and>
     (cfg_require_current_user (bd_config b) \<longrightarrow> si_allowed_users (sv_inner sv) \<noteq> [])"
  using build_Inr [OF assms] login_grace_nonzero resolve_allowed_users_strict by metis

theorem build_safe_witness:
  "\<exists>sv w'. build demo_keys \<lparr>os_var = [lit ''USER'' \<mapsto> lit ''ann''], os_home_dir = Some (lit ''/h''), os_is_dir = \<lambda>_. True\<rparr>
      (\<lambda>_. Inl (IoError NotFound [])) (\<lambda>_. Inl [] :: str + nat)
      (with_require_current_user True builder_new) ([], 0) = (Inr sv, w') \<and>
    si_allowed_users (sv_inner sv) \<noteq> []"
proof -
  let ?os = "\<lparr>os_var = [lit ''USER'' \<mapsto> lit ''ann''], os_home_dir = Some (lit ''/h''), os_is_dir = \<lambda>_. True\<rparr>"
  let ?fo = "\<lambda>_. Inl [] :: str + nat"
  let ?b = "with_require_current_user True builder_new :: nat builder"
  have "\<exists>sv w'. build demo_keys ?os (\<lambda>_. Inl (IoError NotFound [])) ?fo ?b ([], 0) = (Inr sv, w')"
    by (simp add: build_def load_or_generate_def default_host_key_path_def load_or_generate_one_def
        generate_and_persist_def prepare_dir_def demo_keys_def from_config_def with_require_current_user_def
        builder_new_def builder_from_config_def config_default_def resolve_allowed_users_def
        current_os_user_def text_eval Let_def)
  then obtain sv w' where b: "build demo_keys ?os (\<lambda>_. Inl (IoError NotFound [])) ?fo ?b ([], 0) = (Inr sv, w')"
    by blast
  have "cfg_require_current_user (bd_config ?b)" by (simp add: with_require_current_user_def)
  then show ?thesis using b build_safe [OF b] by blast
qed

end
