(* ===== verification/Serving.thy ===== *)
theory Serving
  imports Server
begin

text \<open>
  \<open>server.rs\<close>: the accept loop with its startup cap and login grace. The loop and the tasks it spawns
  are a step relation over the semaphore's free permits, a clock in milliseconds and the
  connections in the order they were accepted. A connection that got its permit has its own
  \<open>ConnectionHandler\<close>, which is the machine of \<open>Handler\<close>: whether it still holds the permit and whether it is
  authenticated is what the handler's callbacks make of it.
\<close>

section \<open>The accept loop\<close>

text \<open>The task of \<open>handle_connection\<close>: waiting for a permit, in the SSH handshake, under the timeout with
  its deadline, past the timeout, or gone.\<close>

datatype task = Waiting | Handshake machine | InGrace nat machine | Unlimited machine | Gone

fun handler_of :: "task \<Rightarrow> machine option" where
  "handler_of (Handshake m) = Some m"
| "handler_of (InGrace d m) = Some m"
| "handler_of (Unlimited m) = Some m"
| "handler_of _ = None"

fun on_handler :: "(machine \<Rightarrow> machine) \<Rightarrow> task \<Rightarrow> task" where
  "on_handler f (Handshake m) = Handshake (f m)"
| "on_handler f (InGrace d m) = InGrace d (f m)"
| "on_handler f (Unlimited m) = Unlimited (f m)"
| "on_handler f tk = tk"

record listener =
  ls_accepting :: bool
  ls_permits :: nat
  ls_now :: nat
  ls_conns :: "task list"

definition serve_start :: "('k, 'key) server \<Rightarrow> listener" where
  "serve_start sv = \<lparr>ls_accepting = True, ls_permits = unat (max (sv_max_startups sv) 1), ls_now = 0, ls_conns = []\<rparr>"

text \<open>\<open>serve\<close> binds the listener and starts the loop; the handle has the address that was bound. \<open>serve_build\<close>,
  of \<open>lib.rs\<close>, builds and serves. The parameter is binding the listener and asking for its address.\<close>

record server_handle =
  sh_local_addr :: socket_addr
  sh_listener :: listener

definition server_serve ::
  "(socket_addr \<Rightarrow> io_error + socket_addr) \<Rightarrow> ('k, 'key) server \<Rightarrow> error + server_handle" where
  "server_serve listen sv =
     (case listen (sv_bind sv) of
        Inl e \<Rightarrow> Inl (ErrBind (sv_bind sv) e)
      | Inr local_addr \<Rightarrow> Inr \<lparr>sh_local_addr = local_addr, sh_listener = serve_start sv\<rparr>)"

definition serve_build ::
  "('w, 'key) key_os \<Rightarrow> os_env \<Rightarrow> read_file \<Rightarrow> (str \<Rightarrow> str + 'k) \<Rightarrow> (socket_addr \<Rightarrow> io_error + socket_addr) \<Rightarrow>
     'k builder \<Rightarrow> 'w \<Rightarrow> (error + server_handle) \<times> 'w" where
  "serve_build ks os read fo listen b w =
     (case build ks os read fo b w of
        (Inl e, w') \<Rightarrow> (Inl e, w')
      | (Inr sv, w') \<Rightarrow> (server_serve listen sv, w'))"

text \<open>\<open>serve_connection\<close>: one stream, without cap and grace. The parameter is what the protocol library
  does with it: it refuses the stream, or calls the handler and then ends.\<close>

definition serve_connection ::
  "('k \<Rightarrow> 'd) \<Rightarrow> ('k, 'key) server \<Rightarrow> str + 'k conn_event list \<times> (str + unit) \<Rightarrow> machine \<times> (error + unit)" where
  "serve_connection kd sv stream =
     (case stream of
        Inl e \<Rightarrow> (machine_new False, Inl (ErrSsh e))
      | Inr (es, r) \<Rightarrow>
          (foldl (conn_step kd (sv_inner sv)) (machine_new False) es, case r of Inl e \<Rightarrow> Inl (ErrSsh e) | Inr u \<Rightarrow> Inr u))"

text \<open>The permit of the semaphore is a value in the handler: it goes back when the handler gives it up
  and when the handler is dropped with it.\<close>

definition holds_permit :: "task \<Rightarrow> bool" where
  "holds_permit tk \<longleftrightarrow> (case handler_of tk of Some m \<Rightarrow> cn_startup_permit (mc_conn m) | None \<Rightarrow> False)"

definition set_task :: "nat \<Rightarrow> task \<Rightarrow> listener \<Rightarrow> listener" where
  "set_task i tk s =
     s\<lparr>ls_conns := (ls_conns s)[i := tk],
       ls_permits := ls_permits s + (if holds_permit (ls_conns s ! i) \<and> \<not> holds_permit tk then 1 else 0)\<rparr>"

text \<open>The end of the timeout: the flag the handler shares with the task decides.\<close>

definition grace_over :: "machine \<Rightarrow> task" where
  "grace_over m = (if cn_authed (mc_conn m) then Unlimited m else Gone)"

definition grace_ms :: "('k, 'key) server \<Rightarrow> nat" where
  "grace_ms sv = unat (sv_login_grace sv) * 1000"

datatype 'k serve_label =
    LAccept | LAcceptFailed | LShutdown | LAcquire nat | LHandshakeFailed nat | LHandshakeDone nat
  | LCallback nat "'k conn_event" | LClosed nat | LTimeout nat | LTick nat

abbreviation at_task :: "listener \<Rightarrow> nat \<Rightarrow> task \<Rightarrow> bool" where
  "at_task s i tk \<equiv> i < length (ls_conns s) \<and> ls_conns s ! i = tk"

text \<open>Time passes while no timer is overdue by more than \<open>late\<close>, which is how late the runtime may fire
  one. Dropping a session closes its connection.\<close>

inductive serve_step ::
  "('k \<Rightarrow> 'd) \<Rightarrow> ('k, 'key) server \<Rightarrow> nat \<Rightarrow> listener \<Rightarrow> 'k serve_label \<Rightarrow> listener \<Rightarrow> bool"
  for kd sv late where
  accept: "ls_accepting s \<Longrightarrow> serve_step kd sv late s LAccept (s\<lparr>ls_conns := ls_conns s @ [Waiting]\<rparr>)"
| accept_failed: "ls_accepting s \<Longrightarrow> serve_step kd sv late s LAcceptFailed s"
| shutdown: "serve_step kd sv late s LShutdown (s\<lparr>ls_accepting := False\<rparr>)"
| acquire: "at_task s i Waiting \<Longrightarrow> 0 < ls_permits s \<Longrightarrow>
    serve_step kd sv late s (LAcquire i) (set_task i (Handshake (machine_new True)) (s\<lparr>ls_permits := ls_permits s - 1\<rparr>))"
| handshake_failed: "at_task s i (Handshake m) \<Longrightarrow> serve_step kd sv late s (LHandshakeFailed i) (set_task i Gone s)"
| handshake_done: "at_task s i (Handshake m) \<Longrightarrow>
    serve_step kd sv late s (LHandshakeDone i) (set_task i (InGrace (ls_now s + grace_ms sv) m) s)"
| callback: "at_task s i tk \<Longrightarrow> handler_of tk = Some m \<Longrightarrow> conn_adm m e \<Longrightarrow>
    serve_step kd sv late s (LCallback i e) (set_task i (on_handler (\<lambda>m. conn_step kd (sv_inner sv) m e) tk) s)"
| closed: "at_task s i tk \<Longrightarrow> tk = InGrace d m \<or> tk = Unlimited m \<Longrightarrow>
    serve_step kd sv late s (LClosed i) (set_task i Gone s)"
| timeout: "at_task s i (InGrace d m) \<Longrightarrow> d \<le> ls_now s \<Longrightarrow>
    serve_step kd sv late s (LTimeout i) (set_task i (grace_over m) s)"
| tick: "\<forall>d m. InGrace d m \<in> set (ls_conns s) \<longrightarrow> ls_now s + n \<le> d + late \<Longrightarrow>
    serve_step kd sv late s (LTick n) (s\<lparr>ls_now := ls_now s + n\<rparr>)"

inductive serve_run ::
  "('k \<Rightarrow> 'd) \<Rightarrow> ('k, 'key) server \<Rightarrow> nat \<Rightarrow> listener \<Rightarrow> 'k serve_label list \<Rightarrow> listener \<Rightarrow> bool"
  for kd sv late where
  run_nil: "serve_run kd sv late s [] s"
| run_step: "serve_run kd sv late s ls t \<Longrightarrow> serve_step kd sv late t l u \<Longrightarrow> serve_run kd sv late s (ls @ [l]) u"

inductive_cases serve_timeout_cases: "serve_step kd sv late s (LTimeout i) t"
inductive_cases serve_shutdown_cases: "serve_step kd sv late s LShutdown t"
inductive_cases serve_handshake_cases: "serve_step kd sv late s (LHandshakeDone i) t"

text \<open>What one connection's handler was called with.\<close>

fun callback_of :: "nat \<Rightarrow> 'k serve_label \<Rightarrow> 'k conn_event list" where
  "callback_of i (LCallback j e) = (if j = i then [e] else [])"
| "callback_of i _ = []"

definition callbacks :: "nat \<Rightarrow> 'k serve_label list \<Rightarrow> 'k conn_event list" where
  "callbacks i ls = concat (map (callback_of i) ls)"

section \<open>Runs\<close>

lemma serve_run_nil: "serve_run kd sv late s [] u \<longleftrightarrow> u = s"
  by (auto elim: serve_run.cases intro: run_nil)

lemma serve_run_snoc:
  "serve_run kd sv late s (ls @ [l]) u \<longleftrightarrow> (\<exists>t. serve_run kd sv late s ls t \<and> serve_step kd sv late t l u)"
  by (auto elim: serve_run.cases intro: run_step)

lemma serve_run_single: "serve_run kd sv late s [l] u \<longleftrightarrow> serve_step kd sv late s l u"
  using serve_run_snoc [of kd sv late s "[]" l u] by (simp add: serve_run_nil)

lemma serve_run_append:
  "serve_run kd sv late s (ls @ ls') u \<longleftrightarrow> (\<exists>t. serve_run kd sv late s ls t \<and> serve_run kd sv late t ls' u)"
proof (induction ls' arbitrary: u rule: rev_induct)
  case (snoc l ls')
  then show ?case using serve_run_snoc [of kd sv late s "ls @ ls'"] by (auto simp: serve_run_snoc)
qed (simp add: serve_run_nil)

lemma set_task_simps [simp]:
  "ls_conns (set_task i tk s) = (ls_conns s)[i := tk]" "ls_now (set_task i tk s) = ls_now s"
  "ls_accepting (set_task i tk s) = ls_accepting s"
  by (simp_all add: set_task_def)

lemma handler_of_on_handler [simp]: "handler_of (on_handler f tk) = map_option f (handler_of tk)"
  by (cases tk) simp_all

lemma on_handler_Waiting [simp]: "on_handler f tk = Waiting \<longleftrightarrow> tk = Waiting"
  by (cases tk) simp_all

text \<open>A handler that is alive is the machine after its callbacks, and nothing of a connection is read
  before it has its permit.\<close>

definition history :: "('k \<Rightarrow> 'd) \<Rightarrow> ('k, 'key) server \<Rightarrow> 'k serve_label list \<Rightarrow> listener \<Rightarrow> bool" where
  "history kd sv ls s \<longleftrightarrow>
     (\<forall>i. (i < length (ls_conns s) \<longrightarrow> ls_conns s ! i = Waiting) \<longrightarrow> callbacks i ls = []) \<and>
     (\<forall>i m. i < length (ls_conns s) \<longrightarrow> handler_of (ls_conns s ! i) = Some m \<longrightarrow>
        m = foldl (conn_step kd (sv_inner sv)) (machine_new True) (callbacks i ls))"

lemma callbacks_snoc: "callbacks i (ls @ [l]) = callbacks i ls @ callback_of i l"
  by (simp add: callbacks_def)

lemma history_step:
  assumes "history kd sv ls s" and "serve_step kd sv late s l t"
  shows "history kd sv (ls @ [l]) t"
  using assms(2,1)
  by (cases rule: serve_step.cases)
     (auto simp: history_def callbacks_snoc nth_list_update nth_append grace_over_def split: if_splits)

lemma run_history: "serve_run kd sv late s ls t \<Longrightarrow> history kd sv [] s \<Longrightarrow> history kd sv ls t"
  by (induction rule: serve_run.induct) (auto intro: history_step)

lemma start_history: "history kd sv [] (serve_start sv)"
  by (simp add: history_def serve_start_def callbacks_def)

lemmas started_history = run_history [OF _ start_history]

section \<open>The startup cap\<close>

definition pending :: "listener \<Rightarrow> nat" where
  "pending s = length (filter holds_permit (ls_conns s))"

lemma filter_update:
  "i < length xs \<Longrightarrow>
   length (filter P (xs[i := y])) + (if P (xs ! i) then 1 else 0) =
   length (filter P xs) + (if P y then 1 else 0)"
proof (induction xs arbitrary: i)
  case (Cons x xs)
  show ?case
  proof (cases i)
    case (Suc j)
    then show ?thesis using Cons.IH [of j] Cons.prems by (auto split: if_splits)
  qed auto
qed simp

lemma set_task_permits:
  assumes "i < length (ls_conns s)" and "holds_permit tk \<Longrightarrow> holds_permit (ls_conns s ! i)"
  shows "ls_permits (set_task i tk s) + pending (set_task i tk s) = ls_permits s + pending s"
  using filter_update [OF assms(1), of holds_permit tk] assms(2)
  by (auto simp: pending_def set_task_def split: if_splits)

lemma holds_permit_simps [simp]:
  "\<not> holds_permit Waiting" "\<not> holds_permit Gone" "holds_permit (Handshake (machine_new True))"
  "holds_permit (InGrace d m) \<longleftrightarrow> holds_permit (Handshake m)" "holds_permit (Unlimited m) \<longleftrightarrow> holds_permit (Handshake m)"
  by (simp_all add: holds_permit_def machine_new_def conn_new_def)

lemma pending_simps [simp]:
  "pending (s\<lparr>ls_now := n\<rparr>) = pending s" "pending (s\<lparr>ls_accepting := a\<rparr>) = pending s"
  "pending (s\<lparr>ls_conns := ls_conns s @ [Waiting]\<rparr>) = pending s"
  by (simp_all add: pending_def)

lemma callback_permit:
  "holds_permit (on_handler (\<lambda>m. conn_step kd inner m e) tk) \<Longrightarrow> holds_permit tk"
  by (cases tk) (auto simp: holds_permit_def dispatch_permit)

lemma permits_step:
  assumes "serve_step kd sv late s l t"
  shows "ls_permits t + pending t = ls_permits s + pending s"
  using assms
proof (cases rule: serve_step.cases)
  case (acquire i)
  then show ?thesis
    using filter_update [of i "ls_conns s" holds_permit "Handshake (machine_new True)"]
    by (simp add: pending_def set_task_def)
next
  case (callback i tk m e)
  then show ?thesis using callback_permit by (auto intro!: set_task_permits)
next
  case (timeout i d m)
  then show ?thesis by (auto simp: grace_over_def intro!: set_task_permits)
qed (auto intro!: set_task_permits)

lemma run_permits: "serve_run kd sv late s ls t \<Longrightarrow> ls_permits t + pending t = ls_permits s + pending s"
  by (induction rule: serve_run.induct) (auto dest: permits_step)

text \<open>The connections with a live handler none of whose requests the policy accepted.\<close>

definition unauthenticated :: "('k \<Rightarrow> 'd) \<Rightarrow> ('k, 'key) server \<Rightarrow> 'k serve_label list \<Rightarrow> listener \<Rightarrow> nat set" where
  "unauthenticated kd sv ls s =
     {i. i < length (ls_conns s) \<and> handler_of (ls_conns s ! i) \<noteq> None \<and>
         (\<forall>e \<in> set (callbacks i ls). \<not> accepted kd (sv_inner sv) e)}"

lemma machine_new_flags: "cn_startup_permit (mc_conn (machine_new p)) = p" "\<not> cn_authed (mc_conn (machine_new p))"
  by (simp_all add: machine_new_def conn_new_def)

lemma pending_unauthenticated:
  assumes "history kd sv ls s"
  shows "pending s = card (unauthenticated kd sv ls s)"
proof -
  have "holds_permit (ls_conns s ! i) \<longleftrightarrow> handler_of (ls_conns s ! i) \<noteq> None \<and>
      (\<forall>e \<in> set (callbacks i ls). \<not> accepted kd (sv_inner sv) e)" if "i < length (ls_conns s)" for i
    using assms that by (auto simp: history_def holds_permit_def run_permit machine_new_flags split: option.splits)
  then show ?thesis
    unfolding pending_def unauthenticated_def length_filter_conv_card by (intro arg_cong [of _ _ card]) auto
qed

lemma started_permits:
  assumes "serve_run kd sv late (serve_start sv) ls t"
  shows "ls_permits t + card (unauthenticated kd sv ls t) = unat (max (sv_max_startups sv) 1)"
  using run_permits [OF assms] pending_unauthenticated [OF started_history [OF assms]]
  by (simp add: serve_start_def pending_def)

lemma started_unauthenticated:
  "serve_run kd sv late (serve_start sv) ls t \<Longrightarrow> card (unauthenticated kd sv ls t) \<le> unat (max (sv_max_startups sv) 1)"
  using started_permits by (metis le_add2)

text \<open>
  C6. The startup cap holds: in every state the accept loop can reach, the free slots and the
  connections that are being served and have not presented anything the policy accepts are
  together exactly the configured number (at least one). So no more than that many
  unauthenticated clients are served at once and no slot is ever lost; a connection beyond that
  is accepted by the listener but waits for a slot, and nothing it sends reaches a handler.
\<close>

theorem startup_cap:
  assumes "serve_run kd sv late (serve_start sv) ls t"
  shows "ls_permits t + card (unauthenticated kd sv ls t) = unat (max (sv_max_startups sv) 1) \<and>
    (\<forall>i < length (ls_conns t). ls_conns t ! i = Waiting \<longrightarrow> callbacks i ls = [])"
  using started_permits [OF assms] started_history [OF assms] unfolding history_def by blast

section \<open>The login grace\<close>

text \<open>No timer is overdue, and who is past it is authenticated.\<close>

definition timely :: "nat \<Rightarrow> listener \<Rightarrow> bool" where
  "timely late s \<longleftrightarrow>
     (\<forall>d m. InGrace d m \<in> set (ls_conns s) \<longrightarrow> ls_now s \<le> d + late) \<and>
     (\<forall>m. Unlimited m \<in> set (ls_conns s) \<longrightarrow> cn_authed (mc_conn m))"

lemma in_update: "x \<in> set (xs[i := y]) \<Longrightarrow> x = y \<or> x \<in> set xs"
  using set_update_subset_insert [of xs i y] by blast

lemma timely_set_task:
  assumes "timely late s" and "\<And>d m. tk = InGrace d m \<Longrightarrow> ls_now s \<le> d + late"
    and "\<And>m. tk = Unlimited m \<Longrightarrow> cn_authed (mc_conn m)"
  shows "timely late (set_task i tk s)"
  using assms by (auto simp: timely_def dest!: in_update)

lemma on_handler_cases:
  "on_handler f tk = InGrace d m \<longleftrightarrow> (\<exists>m0. tk = InGrace d m0 \<and> m = f m0)"
  "on_handler f tk = Unlimited m \<longleftrightarrow> (\<exists>m0. tk = Unlimited m0 \<and> m = f m0)"
  by (cases tk; auto)+

lemma timely_step:
  assumes "timely late s" and "serve_step kd sv late s l t"
  shows "timely late t"
  using assms(2)
proof (cases rule: serve_step.cases)
  case (callback i tk m e)
  have tk: "tk \<in> set (ls_conns s)" using callback by auto
  show ?thesis
    unfolding callback(2) using tk assms(1)
    by (intro timely_set_task) (auto simp: on_handler_cases dispatch_authed timely_def)
qed (use assms(1) in \<open>auto simp: grace_over_def timely_def split: if_splits dest!: in_update\<close>)

lemma run_timely: "serve_run kd sv late s ls t \<Longrightarrow> timely late s \<Longrightarrow> timely late t"
  by (induction rule: serve_run.induct) (auto intro: timely_step)

text \<open>A connection keeps the deadline it got after its handshake.\<close>

definition deadline_is :: "nat \<Rightarrow> nat \<Rightarrow> listener \<Rightarrow> bool" where
  "deadline_is i dl s \<longleftrightarrow> i < length (ls_conns s) \<and>
     (case ls_conns s ! i of InGrace d m \<Rightarrow> d = dl | Unlimited m \<Rightarrow> True | Gone \<Rightarrow> True | _ \<Rightarrow> False)"

lemma deadline_step: "deadline_is i dl s \<Longrightarrow> serve_step kd sv late s l t \<Longrightarrow> deadline_is i dl t"
  by (erule serve_step.cases)
     (auto simp: deadline_is_def nth_append nth_list_update grace_over_def split: task.splits)

lemma run_deadline: "serve_run kd sv late s ls t \<Longrightarrow> deadline_is i dl s \<Longrightarrow> deadline_is i dl t"
  by (induction rule: serve_run.induct) (auto intro: deadline_step)


section \<open>A run\<close>

text \<open>One slot and a minute of grace: a client logs in with its key and stays.\<close>

definition demo_server :: "(nat, nat) server" where
  "demo_server = \<lparr>sv_inner = example_inner,
     sv_russh_config = \<lparr>rc_methods = [], rc_keys = [], rc_inactivity_timeout = None, rc_auth_rejection_ms = 250,
       rc_nodelay = True, rc_keepalive_interval = Some 30, rc_keepalive_max = 3\<rparr>,
     sv_bind = \<lparr>sa_ip = DEFAULT_BIND, sa_port = 22, sa_scope = 0\<rparr>, sv_max_startups = 0, sv_login_grace = 60\<rparr>"

definition logged_in :: machine where
  "logged_in = conn_step (\<lambda>k. k) example_inner (machine_new True) (EAuthKey (lit ''ann'') 7)"

definition demo_state :: "nat \<Rightarrow> nat \<Rightarrow> task \<Rightarrow> listener" where
  "demo_state permits now tk = \<lparr>ls_accepting = True, ls_permits = permits, ls_now = now, ls_conns = [tk]\<rparr>"

abbreviation demo_step :: "listener \<Rightarrow> nat serve_label \<Rightarrow> listener \<Rightarrow> bool" where
  "demo_step \<equiv> serve_step (\<lambda>k. k) demo_server 0"

abbreviation demo_serving :: "listener \<Rightarrow> nat serve_label list \<Rightarrow> listener \<Rightarrow> bool" where
  "demo_serving \<equiv> serve_run (\<lambda>k. k) demo_server 0"

lemma logged_in_permit: "\<not> holds_permit (InGrace d logged_in)" "cn_authed (mc_conn logged_in)"
  by (simp_all add: logged_in_def holds_permit_def example_defs text_eval)

lemma demo_steps:
  "demo_step (serve_start demo_server) LAccept (demo_state 1 0 Waiting)"
  "demo_step (demo_state 1 0 Waiting) (LAcquire 0) (demo_state 0 0 (Handshake (machine_new True)))"
  "demo_step (demo_state 0 0 (Handshake (machine_new True))) (LHandshakeDone 0) (demo_state 0 0 (InGrace 60000 (machine_new True)))"
  "demo_step (demo_state 0 0 (InGrace 60000 (machine_new True))) (LCallback 0 (EAuthKey (lit ''ann'') 7))
     (demo_state 1 0 (InGrace 60000 logged_in))"
  "demo_step (demo_state 1 0 (InGrace 60000 logged_in)) (LTick 60000) (demo_state 1 60000 (InGrace 60000 logged_in))"
  "demo_step (demo_state 1 60000 (InGrace 60000 logged_in)) (LTimeout 0) (demo_state 1 60000 (Unlimited logged_in))"
  "demo_step (demo_state 1 60000 (Unlimited logged_in)) (LTick 1) (demo_state 1 60001 (Unlimited logged_in))"
  subgoal using accept [where s = "serve_start demo_server" and kd = "\<lambda>k. k" and sv = demo_server and late = 0]
    by (simp add: serve_start_def demo_server_def demo_state_def)
  subgoal using acquire [where s = "demo_state 1 0 Waiting" and i = 0 and kd = "\<lambda>k. k" and sv = demo_server and late = 0] by (simp add: demo_state_def set_task_def)
  subgoal using handshake_done [where s = "demo_state 0 0 (Handshake (machine_new True))" and i = 0 and kd = "\<lambda>k. k" and sv = demo_server and late = 0]
    by (simp add: demo_state_def set_task_def grace_ms_def demo_server_def)
  subgoal using callback [where s = "demo_state 0 0 (InGrace 60000 (machine_new True))" and i = 0 and e = "EAuthKey (lit ''ann'') 7"
        and tk = "InGrace 60000 (machine_new True)" and m = "machine_new True" and kd = "\<lambda>k. k" and sv = demo_server and late = 0]
    by (simp add: demo_state_def set_task_def demo_server_def machine_new_fresh conn_adm_def logged_in_permit [simplified]
        flip: logged_in_def One_nat_def)
  subgoal using tick [where s = "demo_state 1 0 (InGrace 60000 logged_in)" and n = 60000 and kd = "\<lambda>k. k" and sv = demo_server and late = 0] by (simp add: demo_state_def)
  subgoal using timeout [where s = "demo_state 1 60000 (InGrace 60000 logged_in)" and i = 0 and kd = "\<lambda>k. k" and sv = demo_server and late = 0]
    by (simp add: demo_state_def set_task_def grace_over_def logged_in_permit)
  subgoal using tick [where s = "demo_state 1 60000 (Unlimited logged_in)" and n = 1 and kd = "\<lambda>k. k" and sv = demo_server and late = 0] by (simp add: demo_state_def)
  done

lemma demo_run:
  "demo_serving (serve_start demo_server) [LAccept, LAcquire 0] (demo_state 0 0 (Handshake (machine_new True)))"
  "demo_serving (demo_state 0 0 (InGrace 60000 (machine_new True)))
     [LCallback 0 (EAuthKey (lit ''ann'') 7), LTick 60000, LTimeout 0, LTick 1] (demo_state 1 60001 (Unlimited logged_in))"
  using run_step [OF run_step [OF run_nil demo_steps(1)] demo_steps(2)]
    run_step [OF run_step [OF run_step [OF run_step [OF run_nil demo_steps(4)] demo_steps(5)] demo_steps(6)] demo_steps(7)]
  by simp_all

theorem startup_cap_witness:
  "card (unauthenticated (\<lambda>k. k) demo_server [LAccept, LAcquire 0] (demo_state 0 0 (Handshake (machine_new True)))) = 1"
  using startup_cap [OF demo_run(1)] by (simp add: demo_server_def demo_state_def)


section \<open>Stopping and starting\<close>

lemma run_not_accepting:
  "serve_run kd sv late s ls t \<Longrightarrow> \<not> ls_accepting s \<Longrightarrow> LAccept \<notin> set ls \<and> \<not> ls_accepting t"
proof (induction rule: serve_run.induct)
  case (run_step s ls t l u)
  then have "\<not> ls_accepting t" "LAccept \<notin> set ls" by simp_all
  with run_step.hyps(2) show ?case by (cases rule: serve_step.cases) auto
qed simp

text \<open>
  A shut down server accepts nothing more: after the shutdown signal no connection is ever
  accepted, while the connections that are already there may go on.
\<close>

theorem shutdown_stops_accepting:
  assumes "serve_run kd sv late (serve_start sv) (ls @ LShutdown # ls') t"
  shows "LAccept \<notin> set ls' \<and> \<not> ls_accepting t"
proof -
  have "serve_run kd sv late (serve_start sv) (ls @ [LShutdown] @ ls') t" using assms by simp
  then obtain a b where "serve_step kd sv late a LShutdown b" "serve_run kd sv late b ls' t"
    unfolding serve_run_append serve_run_single by blast
  moreover from this(1) have "\<not> ls_accepting b" by (auto elim: serve_shutdown_cases)
  ultimately show ?thesis using run_not_accepting by blast
qed

theorem shutdown_stops_accepting_witness:
  "LAccept \<notin> set ([] :: nat serve_label list) \<and> \<not> ls_accepting (serve_start demo_server\<lparr>ls_accepting := False\<rparr>)"
proof -
  have "demo_serving (serve_start demo_server) ([] @ LShutdown # []) (serve_start demo_server\<lparr>ls_accepting := False\<rparr>)"
    by (simp add: serve_run_single shutdown)
  then show ?thesis by (rule shutdown_stops_accepting)
qed

text \<open>
  Starting from a builder: a server that \<open>serve_build\<close> started never serves more clients that are not
  authenticated than its configuration allows (at least one), it listens where the configuration
  says, and a failure to bind is reported with that address.
\<close>

theorem serve_build_serves:
  fixes b :: "'k builder" and ks :: "('w, 'key) key_os"
  defines "here \<equiv> \<lparr>sa_ip = cfg_bind (bd_config b), sa_port = cfg_port (bd_config b), sa_scope = 0\<rparr>"
  assumes "build ks os read fo b w = (Inr sv, w')"
  shows "case serve_build ks os read fo listen b w of
      (Inl e, u) \<Rightarrow> u = w' \<and> (\<exists>io. listen here = Inl io \<and> e = ErrBind here io)
    | (Inr h, u) \<Rightarrow> u = w' \<and> listen here = Inr (sh_local_addr h) \<and>
        (\<forall>kd late ls t. serve_run kd sv late (sh_listener h) ls t \<longrightarrow>
          card (unauthenticated kd sv ls t) \<le> unat (max (cfg_max_startups (bd_config b)) 1))"
proof -
  have "sv_bind sv = here" "sv_max_startups sv = cfg_max_startups (bd_config b)"
    using build_Inr [OF assms(2)] by (simp_all add: here_def)
  then show ?thesis
    using assms(2) started_unauthenticated [of _ sv] by (auto simp: serve_build_def server_serve_def split: sum.split)
qed

end
