(* ===== verification/Retry.thy ===== *)
theory Retry
  imports Prelude
begin

text \<open>
  \<open>devtunnel/retry.rs\<close> and \<open>devtunnel/network.rs\<close>: the retry delays and the wait that a network
  change can cut short. Instants and durations are counted in milliseconds; the clock's reading
  is an argument.
\<close>

type_synonym instant = nat
type_synonym duration = nat

definition secs :: "nat \<Rightarrow> duration" where
  "secs n = 1000 * n"

section \<open>Retry delays\<close>

record retry =
  rt_delay :: duration
  rt_ready_since :: "instant option"

definition retry_default :: retry where
  "retry_default = \<lparr>rt_delay = secs 30, rt_ready_since = None\<rparr>"

definition retry_ready :: "instant \<Rightarrow> retry \<Rightarrow> retry" where
  "retry_ready now r =
     r\<lparr>rt_ready_since := (case rt_ready_since r of Some t \<Rightarrow> Some t | None \<Rightarrow> Some now)\<rparr>"

definition retry_failed :: "instant \<Rightarrow> retry \<Rightarrow> duration \<times> retry" where
  "retry_failed now r =
     (let stable = (case rt_ready_since r of Some since \<Rightarrow> secs 300 \<le> now - since | None \<Rightarrow> False);
          delay = (if stable then secs 30 else rt_delay r)
      in (delay, \<lparr>rt_delay = min (delay * 2) (secs 300), rt_ready_since = None\<rparr>))"

datatype retry_event = RReady instant | RFailed instant

fun retry_step :: "retry \<Rightarrow> retry_event \<Rightarrow> retry" where
  "retry_step r (RReady t) = retry_ready t r"
| "retry_step r (RFailed t) = snd (retry_failed t r)"

definition retry_inv :: "retry \<Rightarrow> bool" where
  "retry_inv r \<longleftrightarrow> secs 30 \<le> rt_delay r \<and> rt_delay r \<le> secs 300"

lemma retry_failed_inv: "retry_inv r \<Longrightarrow> retry_inv (snd (retry_failed t r))"
  by (auto simp: retry_inv_def retry_failed_def Let_def secs_def)

interpretation retry_system: step_system "\<lambda>_ _. True" retry_step retry_inv
proof
  fix r e assume "retry_inv r"
  then show "retry_inv (retry_step r e)"
    by (cases e) (simp_all add: retry_failed_inv, simp add: retry_inv_def retry_ready_def)
qed

lemma retry_run_inv: "retry_inv (foldl retry_step retry_default es)"
  by (rule retry_system.run_inv) (simp_all add: retry_inv_def retry_default_def secs_def run_ok_all)

text \<open>The delays a run of events asks for.\<close>

fun retry_delays :: "retry \<Rightarrow> retry_event list \<Rightarrow> duration list" where
  "retry_delays r [] = []"
| "retry_delays r (RReady t # es) = retry_delays (retry_ready t r) es"
| "retry_delays r (RFailed t # es) = fst (retry_failed t r) # retry_delays (snd (retry_failed t r)) es"

lemma retry_delays_bounds:
  "retry_inv r \<Longrightarrow> d \<in> set (retry_delays r es) \<Longrightarrow> secs 30 \<le> d \<and> d \<le> secs 300"
proof (induction r es rule: retry_delays.induct)
  case (2 r t es)
  then show ?case by (simp add: retry_inv_def retry_ready_def)
next
  case (3 r t es)
  have "secs 30 \<le> fst (retry_failed t r) \<and> fst (retry_failed t r) \<le> secs 300"
    using 3(2) by (auto simp: retry_failed_def Let_def retry_inv_def secs_def)
  then show ?case using 3 retry_failed_inv [OF 3(2)] by auto
qed simp

lemma retry_delays_failures:
  assumes "rt_ready_since r = None" and "rt_delay r = min (secs 30 * 2 ^ k) (secs 300)"
  shows "retry_delays r (map RFailed ts) =
    map (\<lambda>i. min (secs 30 * 2 ^ i) (secs 300)) [k..<k + length ts]"
  using assms
proof (induction ts arbitrary: r k)
  case (Cons t ts)
  have f: "retry_failed t r = (rt_delay r, \<lparr>rt_delay = min (rt_delay r * 2) (secs 300), rt_ready_since = None\<rparr>)"
    using Cons.prems(1) by (simp add: retry_failed_def Let_def)
  have "min (rt_delay r * 2) (secs 300) = min (secs 30 * 2 ^ Suc k) (secs 300)"
    using Cons.prems(2) by (auto simp: secs_def min_def)
  then have "retry_delays (snd (retry_failed t r)) (map RFailed ts) =
      map (\<lambda>i. min (secs 30 * 2 ^ i) (secs 300)) [Suc k..<Suc k + length ts]"
    by (intro Cons.IH) (simp_all add: f)
  then show ?case using Cons.prems(2) by (simp add: f upt_rec del: upt_Suc)
qed simp

text \<open>
  Retries back off and stay bounded: whatever the order of readiness and failures, every
  delay is between 30 and 300 seconds, and repeated failures with no readiness in between are
  delayed by 30, 60, 120, 240 and then always 300 seconds.
\<close>

theorem retry_backoff:
  "(\<forall>d \<in> set (retry_delays retry_default es). secs 30 \<le> d \<and> d \<le> secs 300) \<and>
   retry_delays retry_default (map RFailed ts) =
     map (\<lambda>i. min (secs 30 * 2 ^ i) (secs 300)) [0..<length ts]"
  using retry_delays_bounds [of retry_default _ es] retry_delays_failures [of retry_default 0 ts]
  by (auto simp: retry_inv_def retry_default_def secs_def)

theorem retry_backoff_witness:
  "retry_delays retry_default (map RFailed [0, 0, 0, 0, 0, 0]) =
     [secs 30, secs 60, secs 120, secs 240, secs 300, secs 300]"
  using retry_backoff [of "[]" "[0, 0, 0, 0, 0, 0]"] by (simp add: secs_def upt_rec)

text \<open>
  Only lasting readiness resets the backoff: the delay after a failure falls back to 30
  seconds exactly when the connection was ready without a failure for at least 300 seconds, and
  otherwise it is the doubled one.
\<close>

theorem retry_reset_iff_stable:
  assumes "rt_ready_since r = None" and "start \<le> now"
  shows "fst (retry_failed now (foldl (\<lambda>r t. retry_ready t r) r (start # ts))) =
    (if secs 300 \<le> now - start then secs 30 else rt_delay r)"
proof -
  have "foldl (\<lambda>r t. retry_ready t r) r' ts = r'" if "rt_ready_since r' \<noteq> None" for r'
    using that by (induction ts arbitrary: r') (auto simp: retry_ready_def)
  then have "foldl (\<lambda>r t. retry_ready t r) r (start # ts) = retry_ready start r"
    using assms(1) by (simp add: retry_ready_def)
  then show ?thesis using assms(1) by (simp add: retry_failed_def retry_ready_def Let_def)
qed

theorem retry_reset_iff_stable_witness:
  "fst (retry_failed (secs 299) (foldl (\<lambda>r t. retry_ready t r)
     \<lparr>rt_delay = secs 120, rt_ready_since = None\<rparr> [0, secs 100])) = secs 120"
  using retry_reset_iff_stable [of "\<lparr>rt_delay = secs 120, rt_ready_since = None\<rparr>" 0 "secs 299" "[secs 100]"]
  by (simp add: secs_def)

section \<open>Waiting with an eye on the network\<close>

definition SETTLE_TIME :: duration where "SETTLE_TIME = secs 2"
definition EARLY_RETRY_INTERVAL :: duration where "EARLY_RETRY_INTERVAL = secs 30"

text \<open>\<open>nc_events\<close> says whether the source of changes is (still) there.\<close>

record network_changes =
  nc_events :: bool
  nc_pending :: "instant option"
  nc_next_allowed :: instant

definition network_new :: "bool \<Rightarrow> instant \<Rightarrow> network_changes" where
  "network_new available now = \<lparr>nc_events = available, nc_pending = None, nc_next_allowed = now\<rparr>"

definition begin_wait :: "network_changes \<Rightarrow> network_changes" where
  "begin_wait n = n\<lparr>nc_pending := None\<rparr>"

definition early_at :: "network_changes \<Rightarrow> instant option" where
  "early_at n = map_option (\<lambda>at. max (at + SETTLE_TIME) (nc_next_allowed n)) (nc_pending n)"

text \<open>The loop, driven by the deliveries of the source in the order of their times: a change with
  the instant it happened, or the end of the source. The branches of the \<open>select!\<close> are tried in
  their order: the deadline, a delivery, the early wake-up. The result is whether the wait was
  cut short, when it ended, and the new state.\<close>

fun wait_until ::
  "instant \<Rightarrow> instant \<Rightarrow> (instant \<times> instant option) list \<Rightarrow> network_changes \<Rightarrow>
     bool \<times> instant \<times> network_changes" where
  "wait_until now deadline [] n =
     (case early_at n of
        Some e \<Rightarrow>
          (if max now e < deadline
           then (True, max now e,
                 n\<lparr>nc_pending := None, nc_next_allowed := max now e + EARLY_RETRY_INTERVAL\<rparr>)
           else (False, max now deadline, n))
      | None \<Rightarrow> (False, max now deadline, n))"
| "wait_until now deadline ((t, ev) # evs) n =
     (if deadline \<le> max now t \<or> \<not> nc_events n \<or>
         (case early_at n of Some e \<Rightarrow> max now e < max now t | None \<Rightarrow> False)
      then wait_until now deadline [] n
      else wait_until (max now t) deadline evs
             (case ev of Some at \<Rightarrow> n\<lparr>nc_pending := Some at\<rparr> | None \<Rightarrow> n\<lparr>nc_events := False\<rparr>))"

lemma wait_until_idle:
  "wait_until now deadline [] n = (b, at, n') \<Longrightarrow> now \<le> at \<and> at \<le> max now deadline \<and>
   (\<not> b \<longrightarrow> at = max now deadline) \<and>
   (b \<longrightarrow> at < deadline \<and> nc_next_allowed n \<le> at \<and> nc_next_allowed n' = at + EARLY_RETRY_INTERVAL)"
  by (auto simp: early_at_def split: option.splits if_splits)

text \<open>
  C35. Network changes can only shorten the wait: it ends at the deadline or earlier, it ends
  early only strictly before the deadline and not before the next early retry is allowed, and
  ending early bars the next early retry for 30 seconds.
\<close>

theorem wait_until_bounds:
  assumes "wait_until now deadline evs n = (b, at, n')"
  shows "now \<le> at \<and> at \<le> max now deadline \<and> (\<not> b \<longrightarrow> at = max now deadline) \<and>
    (b \<longrightarrow> at < deadline \<and> nc_next_allowed n \<le> at \<and> nc_next_allowed n' = at + EARLY_RETRY_INTERVAL)"
  using assms
proof (induction now deadline evs n rule: wait_until.induct)
  case (1 now deadline n)
  then show ?case by (rule wait_until_idle)
next
  case (2 now deadline t ev evs n)
  show ?case
  proof (cases "deadline \<le> max now t \<or> \<not> nc_events n \<or>
      (case early_at n of Some e \<Rightarrow> max now e < max now t | None \<Rightarrow> False)")
    case True
    then have "wait_until now deadline [] n = (b, at, n')" using 2(3) by (simp only: wait_until.simps if_True)
    then show ?thesis by (rule wait_until_idle)
  next
    case False
    let ?n = "case ev of Some a \<Rightarrow> n\<lparr>nc_pending := Some a\<rparr> | None \<Rightarrow> n\<lparr>nc_events := False\<rparr>"
    have na: "nc_next_allowed ?n = nc_next_allowed n" by (simp split: option.split)
    from False have "wait_until (max now t) deadline evs ?n = (b, at, n')"
      using 2(3) by (simp only: wait_until.simps(2) if_False)
    from 2(2) [OF False this] False na show ?thesis by auto
  qed
qed

theorem wait_until_bounds_witness:
  "wait_until 0 (secs 60) [(0, Some 0), (secs 1, Some (secs 1))] (network_new True 0) =
     (True, secs 3, \<lparr>nc_events = True, nc_pending = None, nc_next_allowed = secs 33\<rparr>) \<and> secs 3 \<le> max 0 (secs 60)"
proof -
  have w: "wait_until 0 (secs 60) [(0, Some 0), (secs 1, Some (secs 1))] (network_new True 0) =
     (True, secs 3, \<lparr>nc_events = True, nc_pending = None, nc_next_allowed = secs 33\<rparr>)"
    by (simp add: early_at_def network_new_def secs_def SETTLE_TIME_def EARLY_RETRY_INTERVAL_def)
  then show ?thesis using wait_until_bounds [OF w] by blast
qed

end
