(* ===== verification/Logs.thy ===== *)
theory Logs
  imports Session "HOL-Library.List_Lexorder"
begin

text \<open>
  \<open>devtunnel/logs.rs\<close>: where the state lives, what a log line may contain, and the daily files
  with their pruning. The log directory is an association list from file names to contents; the
  calendar date of a day is the parameter \<open>date\<close> (it comes from the \<open>time\<close> library).
\<close>

definition state_dir :: "os_env \<Rightarrow> path" where
  "state_dir os =
     (case os_var os (lit ''SSHDT_STATE_DIR'') of
        Some d \<Rightarrow> d
      | None \<Rightarrow> path_join (case os_home_dir os of Some h \<Rightarrow> h | None \<Rightarrow> dot) (lit ''.sshdt''))"

definition role_prefix :: "str \<Rightarrow> str option" where
  "role_prefix role =
     (if role = lit ''host'' then Some (lit ''devtunnel'')
      else if role = lit ''client'' then Some (lit ''devtunnel-client'')
      else None)"

definition logs_dir :: "os_env \<Rightarrow> path" where
  "logs_dir os = path_join (state_dir os) (lit ''logs'')"

definition log_new :: "os_env \<Rightarrow> (path \<Rightarrow> io_error + unit) \<Rightarrow> str \<Rightarrow> str + str" where
  "log_new os create_dir_all role =
     rbind (ok_or (lit ''unknown tunnel log role'') (role_prefix role)) (\<lambda>pfx.
       case create_dir_all (logs_dir os) of Inl e \<Rightarrow> Inl (io_text e) | Inr _ \<Rightarrow> Inr pfx)"

section \<open>Sanitising\<close>

definition secret_words :: "str list" where
  "secret_words = map lit [''token'', ''authorization'', ''password'', ''secret'', ''credential'', ''eyj'']"

definition omitted :: str where
  "omitted = lit ''[credential-bearing output omitted]''"

definition sanitize_word :: "str \<Rightarrow> str" where
  "sanitize_word w =
     (if contains w (lit ''://'') then lit ''[URL omitted]''
      else take 2048 (filter (\<lambda>c. \<not> is_control c) w))"

definition sanitize :: "str \<Rightarrow> str" where
  "sanitize text =
     (let lower = to_ascii_lowercase text
      in if list_ex (\<lambda>key. contains lower key) secret_words then omitted
         else take 8192 (join_with [32] (map sanitize_word (split_whitespace text))))"

section \<open>Appending and pruning\<close>

type_synonym log_dir = "(str \<times> str) list"

definition is_log_of :: "str \<Rightarrow> str \<Rightarrow> bool" where
  "is_log_of pfx name \<longleftrightarrow> starts_with name (pfx @ lit ''.'') \<and> ends_with name (lit ''.log'')"

definition log_name :: "str \<Rightarrow> str \<Rightarrow> str" where
  "log_name pfx date = pfx @ lit ''.'' @ date @ lit ''.log''"

definition log_line :: "nat \<Rightarrow> str \<Rightarrow> str \<Rightarrow> str \<Rightarrow> str" where
  "log_line now command stream text =
     show_nat now @ lit '' ['' @ sanitize command @ lit ''] ['' @ sanitize stream @ lit ''] '' @
     sanitize text @ [10]"

definition append_file :: "str \<Rightarrow> str \<Rightarrow> log_dir \<Rightarrow> log_dir" where
  "append_file name text d =
     (case map_of d name of
        Some _ \<Rightarrow> map (\<lambda>(n, c). if n = name then (n, c @ text) else (n, c)) d
      | None \<Rightarrow> d @ [(name, text)])"

definition excess_logs :: "str \<Rightarrow> str list \<Rightarrow> str list" where
  "excess_logs pfx listed =
     (let files = sort (filter (is_log_of pfx) listed)
      in take (length files - 7) files)"

text \<open>The outcomes of the calls \<open>append\<close> makes: the lock, the clock, the day's file, how much of the line
  was written, the listing of the directory, the removals.\<close>

record log_io =
  lg_open_lock :: "io_error + unit"
  lg_lock :: "io_error + unit"
  lg_now :: "str + nat"
  lg_open :: "str \<Rightarrow> io_error + unit"
  lg_write :: "(nat \<times> io_error) option"
  lg_read_dir :: "log_dir \<Rightarrow> io_error + str list"
  lg_remove :: "str \<Rightarrow> io_error + unit"
  lg_unlock :: "io_error + unit"

definition log_try :: "io_error + 'a \<Rightarrow> (str, log_dir, 'a) act" where
  "log_try r d = (case r of Inl e \<Rightarrow> (Inl (io_text e), d) | Inr x \<Rightarrow> (Inr x, d))"

definition write_line :: "log_io \<Rightarrow> str \<Rightarrow> str \<Rightarrow> (str, log_dir, unit) act" where
  "write_line io name line d =
     (case lg_write io of
        None \<Rightarrow> (Inr (), append_file name line d)
      | Some (n, e) \<Rightarrow> (Inl (io_text e), append_file name (take n line) d))"

fun remove_logs :: "(str \<Rightarrow> io_error + unit) \<Rightarrow> str list \<Rightarrow> (str, log_dir, unit) act" where
  "remove_logs remove [] d = (Inr (), d)"
| "remove_logs remove (f # fs) d =
     (case remove f of
        Inl _ \<Rightarrow> (Inl (lit ''prune tunnel log''), d)
      | Inr _ \<Rightarrow> remove_logs remove fs (filter (\<lambda>(n, c). n \<noteq> f) d))"

definition log_append ::
  "log_io \<Rightarrow> (nat \<Rightarrow> str) \<Rightarrow> str \<Rightarrow> str \<Rightarrow> str \<Rightarrow> str \<Rightarrow> (str, log_dir, unit) act" where
  "log_append io date pfx command stream text =
     abind (log_try (lg_open_lock io)) (\<lambda>_.
     abind (log_try (lg_lock io)) (\<lambda>_.
     abind (\<lambda>d. (lg_now io, d)) (\<lambda>now.
     let name = log_name pfx (date (now div 86400))
     in abind (log_try (lg_open io name)) (\<lambda>_.
        abind (\<lambda>d. (Inr (), append_file name [] d)) (\<lambda>_.
        abind (write_line io name (log_line now command stream text)) (\<lambda>_.
        abind (\<lambda>d. log_try (lg_read_dir io d) d) (\<lambda>listed.
        abind (remove_logs (lg_remove io) (excess_logs pfx listed)) (\<lambda>_.
          log_try (lg_unlock io)))))))))"

text \<open>\<open>write\<close> only warns about an error.\<close>

definition log_write :: "log_io \<Rightarrow> (nat \<Rightarrow> str) \<Rightarrow> str \<Rightarrow> str \<Rightarrow> str \<Rightarrow> str \<Rightarrow> log_dir \<Rightarrow> log_dir" where
  "log_write io date pfx command stream text d = snd (log_append io date pfx command stream text d)"

section \<open>Showing\<close>

text \<open>One iteration of \<open>show\<close> on a directory with what reading each of its files gives: the newest log
  is printed from where the last iteration stopped, from the start when it is another file or
  has shrunk. The loop's result is \<open>None\<close> while it follows.\<close>

record show_state =
  sh_current :: str
  sh_offset :: nat

definition show_init :: show_state where "show_init = \<lparr>sh_current = [], sh_offset = 0\<rparr>"

record show_obs =
  so_dir :: "io_error + (str \<times> (io_error + u8 list)) list"
  so_write :: "io_error + unit"

definition show_listing :: "show_obs \<Rightarrow> io_error + (str \<times> (io_error + u8 list)) list" where
  "show_listing r =
     (case so_dir r of
        Inr d \<Rightarrow> Inr d
      | Inl e \<Rightarrow> if io_error_kind e = NotFound then Inr [] else Inl e)"

definition newest_log :: "str \<Rightarrow> (str \<times> 'c) list \<Rightarrow> (str \<times> 'c) option" where
  "newest_log pfx d =
     (let files = sort (filter (is_log_of pfx) (map fst d))
      in if files = [] then None else Some (last files, the (map_of d (last files))))"

definition show_data :: "str \<Rightarrow> u8 list \<Rightarrow> show_state \<Rightarrow> u8 list \<times> show_state" where
  "show_data name content st =
     (let off = (if name \<noteq> sh_current st then 0 else sh_offset st);
          off = (if length content < off then 0 else off);
          data = drop off content
      in (data, \<lparr>sh_current = name, sh_offset = off + length data\<rparr>))"

definition no_logs :: "str \<Rightarrow> u8 list" where
  "no_logs role = as_bytes (lit ''No Dev Tunnel '' @ role @ lit '' logs found.'' @ [10])"

fun show_loop :: "str \<Rightarrow> str \<Rightarrow> bool \<Rightarrow> show_obs list \<Rightarrow> show_state \<Rightarrow> u8 list \<times> (str + unit) option" where
  "show_loop pfx role follow [] st = ([], None)"
| "show_loop pfx role follow (r # rs) st =
     (case show_listing r of
        Inl e \<Rightarrow> ([], Some (Inl (io_text e)))
      | Inr d \<Rightarrow>
          (case newest_log pfx d of
             None \<Rightarrow>
               (if follow then show_loop pfx role follow rs st else (no_logs role, Some (Inr ())))
           | Some (name, Inl e) \<Rightarrow> ([], Some (Inl (io_text e)))
           | Some (name, Inr content) \<Rightarrow>
               (case so_write r of
                  Inl e \<Rightarrow> ([], Some (Inl (io_text e)))
                | Inr _ \<Rightarrow>
                    (case show_data name content st of
                       (data, st') \<Rightarrow>
                         (if follow
                          then (case show_loop pfx role follow rs st' of (out, res) \<Rightarrow> (data @ out, res))
                          else (data, Some (Inr ())))))))"

definition show_logs_of :: "str \<Rightarrow> bool \<Rightarrow> show_obs list \<Rightarrow> u8 list \<times> (str + unit) option" where
  "show_logs_of role follow rounds =
     (case role_prefix role of
        None \<Rightarrow> ([], Some (Inl (lit ''unknown tunnel log role'')))
      | Some pfx \<Rightarrow> show_loop pfx role follow rounds show_init)"

section \<open>What a sanitised text is\<close>

lemma filter_control_take: "c \<in> set (take n (filter (\<lambda>c. \<not> is_control c) w)) \<Longrightarrow> \<not> is_control c"
  by (auto dest: in_set_takeD)

lemma lit_no_control:
  "c \<in> set omitted \<Longrightarrow> \<not> is_control c"
  "c \<in> set (lit ''[URL omitted]'') \<Longrightarrow> \<not> is_control c"
  by (auto simp: omitted_def text_eval)

lemma sanitize_word_no_control: "c \<in> set (sanitize_word w) \<Longrightarrow> \<not> is_control c"
  by (auto simp: sanitize_word_def lit_no_control dest: filter_control_take split: if_splits)

lemma join_with_chars: "c \<in> set (join_with sep ws) \<Longrightarrow> c \<in> set sep \<or> (\<exists>w \<in> set ws. c \<in> set w)"
  by (induction sep ws rule: join_with.induct) auto

text \<open>
  A log entry is one bounded line: whatever a child process prints, the sanitised text has no
  control character, so no line break and no terminal escape, and at most 8192 characters, and a
  text in which one of the secret words stands is replaced altogether.
\<close>

theorem sanitize_safe:
  "(\<forall>c \<in> set (sanitize text). \<not> is_control c) \<and> length (sanitize text) \<le> 8192 \<and>
   (list_ex (\<lambda>key. contains (to_ascii_lowercase text) key) secret_words \<longrightarrow> sanitize text = omitted)"
proof -
  have "\<not> is_control c" if "c \<in> set (sanitize text)" for c
  proof (cases "list_ex (\<lambda>key. contains (to_ascii_lowercase text) key) secret_words")
    case True
    then show ?thesis using that lit_no_control(1) by (simp add: sanitize_def Let_def)
  next
    case False
    then have "c \<in> set (join_with [32] (map sanitize_word (split_whitespace text)))"
      using that by (auto simp: sanitize_def Let_def dest: in_set_takeD)
    then show ?thesis
      using sanitize_word_no_control by (auto dest!: join_with_chars simp: is_control_def)
  qed
  moreover have "length omitted \<le> 8192" by (simp add: omitted_def lit_def)
  ultimately show ?thesis by (auto simp: sanitize_def Let_def)
qed

theorem sanitize_safe_witness: "sanitize (lit ''x token y'') = omitted"
proof -
  have "list_ex (\<lambda>key. contains (to_ascii_lowercase (lit ''x token y'')) key) secret_words"
    by (simp add: secret_words_def text_eval)
  then show ?thesis using sanitize_safe [of "lit ''x token y''"] by blast
qed

text \<open>A text with a control character after each of its characters: no secret word stands in it, since no two
  of its own characters are neighbours.\<close>

definition hidden :: "ch \<Rightarrow> str \<Rightarrow> str" where
  [text_eval]: "hidden c text = concat (map (\<lambda>x. [x, c]) text)"

lemma hidden_simps [simp]: "hidden c [] = []" "hidden c (x # s) = x # c # hidden c s"
  by (simp_all add: hidden_def)

lemma hidden_neighbours:
  assumes "sublist [x, y] (hidden c s)"
  shows "x = c \<or> y = c"
proof -
  have "sublist [x, y] (c # hidden c s) \<Longrightarrow> x = c \<or> y = c"
    by (induction s) (auto simp: sublist_Cons_right)
  then show ?thesis using assms by (simp add: sublist_Cons_right)
qed

lemma hidden_lower: "is_control c \<Longrightarrow> to_ascii_lowercase (hidden c s) = hidden c (to_ascii_lowercase s)"
  by (induction s) (auto simp: text_eval)

lemma contains_sublist: "contains s p \<longleftrightarrow> sublist p s"
proof (induction s)
  case (Cons c s)
  then show ?case by (simp add: starts_with_iff_prefix sublist_Cons_right)
qed simp

lemma split_pred_sublist: "w \<in> set (split_pred P s) \<Longrightarrow> sublist w s"
proof -
  have "w \<in> set (split_pred P s) \<Longrightarrow> sublist w s \<and> (w = hd (split_pred P s) \<longrightarrow> prefix w s)" for w
  proof (induction s arbitrary: w)
    case (Cons c s)
    obtain v ws where v: "split_pred P s = v # ws" by (cases "split_pred P s") simp_all
    have "prefix v s" using Cons.IH [of v] v by simp
    moreover have "sublist u s" if "u \<in> set (v # ws)" for u using Cons.IH that v by metis
    ultimately show ?case
      using Cons.prems by (auto simp: v sublist_Cons_right split: if_splits)
  qed simp
  then show "w \<in> set (split_pred P s) \<Longrightarrow> sublist w s" by blast
qed

lemma hidden_contains:
  assumes "sublist w (hidden c s)" and "contains w p" and "2 \<le> length p"
  shows "c \<in> set p"
proof -
  obtain x y q where p: "p = x # y # q" using assms(3) by (cases p; cases "tl p") auto
  have "sublist [x, y] p" by (simp add: p sublist_Cons_right)
  moreover have "sublist p (hidden c s)" using assms(1,2) by (auto simp: contains_sublist)
  ultimately have "sublist [x, y] (hidden c s)" by (rule sublist_order.order_trans)
  then show ?thesis using hidden_neighbours p by force
qed

lemma hidden_words:
  assumes "\<not> P c" and "s = [] \<or> \<not> P (hd s)"
  shows "filter (\<lambda>w. w \<noteq> []) (split_pred P (hidden c s)) = (if s = [] then [] else split_pred P (hidden c s))"
proof -
  have tail: "[] \<notin> set (split_pred P (c # hidden c s))" for s
    using assms(1) by (induction s) (auto split: list.splits)
  have "[] \<notin> set (split_pred P (hidden c s))" if "s \<noteq> []"
    using assms that tail [of "tl s"] by (cases s; cases "split_pred P (c # hidden c (tl s))") auto
  then show ?thesis by (auto simp: filter_id_conv)
qed

lemma join_split_filter:
  assumes "\<forall>x \<in> set s. P x \<longleftrightarrow> x = 32"
  shows "join_with [32] (map (filter (\<lambda>c. \<not> is_control c)) (split_pred P s)) = filter (\<lambda>c. \<not> is_control c) s"
  using assms
proof (induction s)
  case (Cons x s)
  obtain v ws where v: "split_pred P s = v # ws" by (cases "split_pred P s") simp_all
  have "\<not> is_control 32" by (simp add: is_control_def)
  then show ?case using Cons by (auto simp: v join_with_Cons_hd)
qed simp



section \<open>Pruning\<close>

text \<open>What removing all excess files amounts to.\<close>

definition prune :: "str \<Rightarrow> log_dir \<Rightarrow> log_dir" where
  "prune pfx d = (let excess = excess_logs pfx (map fst d) in filter (\<lambda>(n, c). n \<notin> set excess) d)"

lemma excess_subset: "set (excess_logs pfx ns) \<subseteq> {n. is_log_of pfx n}"
  by (auto simp: excess_logs_def Let_def dest: in_set_takeD)

lemma filter_notin_take:
  assumes "distinct xs"
  shows "filter (\<lambda>x. x \<notin> set (take n xs)) xs = drop n xs"
proof -
  have "filter (\<lambda>x. x \<notin> set (take n xs)) (take n xs @ drop n xs) =
      filter (\<lambda>x. x \<notin> set (take n xs)) (drop n xs)"
    by (simp only: filter_append) simp
  also have "\<dots> = drop n xs"
    using assms set_take_disj_set_drop_if_distinct [OF assms, of n n]
    by (auto intro!: filter_True)
  finally show ?thesis by simp
qed

lemma map_of_filter_other:
  "n \<notin> X \<Longrightarrow> map_of (filter (\<lambda>(m, c). m \<notin> X) d) n = map_of d n"
  by (induction d) auto

lemma prune_keeps_newest:
  assumes "distinct (map fst d)"
  shows "length (filter (is_log_of pfx) (map fst (prune pfx d))) \<le> 7 \<and>
    (\<forall>n. \<not> is_log_of pfx n \<longrightarrow> map_of (prune pfx d) n = map_of d n) \<and>
    (\<forall>n \<in> set (map fst d) - set (map fst (prune pfx d)).
       \<forall>m \<in> set (map fst (prune pfx d)). is_log_of pfx m \<longrightarrow> n \<le> m)"
proof -
  let ?fs = "sort (filter (is_log_of pfx) (map fst d))"
  let ?ex = "excess_logs pfx (map fst d)"
  have dist: "distinct ?fs" using assms by simp
  have ex: "?ex = take (length ?fs - 7) ?fs" by (simp add: excess_logs_def Let_def)
  have names: "map fst (prune pfx d) = filter (\<lambda>n. n \<notin> set ?ex) (map fst d)"
    by (simp add: prune_def Let_def filter_map comp_def case_prod_unfold)
  have "length (filter (is_log_of pfx) (map fst (prune pfx d))) =
      length (filter (\<lambda>n. n \<notin> set ?ex) (filter (is_log_of pfx) (map fst d)))"
    by (simp add: names conj_commute)
  also have "\<dots> = length (sort (filter (\<lambda>n. n \<notin> set ?ex) (filter (is_log_of pfx) (map fst d))))"
    by simp
  also have "\<dots> = length (filter (\<lambda>n. n \<notin> set ?ex) ?fs)"
    by (simp only: filter_sort)
  also have "\<dots> \<le> 7" using filter_notin_take [OF dist, of "length ?fs - 7"] by (simp add: ex)
  finally have few: "length (filter (is_log_of pfx) (map fst (prune pfx d))) \<le> 7" .
  have other: "map_of (prune pfx d) n = map_of d n" if "\<not> is_log_of pfx n" for n
  proof -
    have "n \<notin> set ?ex" using that excess_subset by blast
    then show ?thesis unfolding prune_def Let_def by (rule map_of_filter_other)
  qed
  have order: "n \<le> m" if "n \<in> set ?ex" and "m \<in> set (map fst d)" "m \<notin> set ?ex" "is_log_of pfx m" for n m
  proof -
    have "m \<in> set ?fs" using that(2,4) by simp
    then have "m \<in> set (take (length ?fs - 7) ?fs) \<union> set (drop (length ?fs - 7) ?fs)"
      by (metis append_take_drop_id set_append)
    then have "m \<in> set (drop (length ?fs - 7) ?fs)" using that(3) unfolding ex by blast
    moreover have "sorted ?fs" by (rule sorted_sort)
    then have "sorted (take (length ?fs - 7) ?fs @ drop (length ?fs - 7) ?fs)"
      by (simp only: append_take_drop_id)
    ultimately show ?thesis using that(1) unfolding ex sorted_append by blast
  qed
  show ?thesis using few other order names by auto
qed

lemma remove_logs_ok: "remove_logs rm fs d = (Inr u, d') \<Longrightarrow> d' = filter (\<lambda>(n, c). n \<notin> set fs) d"
proof (induction fs arbitrary: d)
  case (Cons f fs)
  then have "remove_logs rm fs (filter (\<lambda>(n, c). n \<noteq> f) d) = (Inr u, d')"
    by (auto split: sum.splits)
  from Cons.IH [OF this] have "d' = filter (\<lambda>(n, c). n \<notin> set fs) (filter (\<lambda>(n, c). n \<noteq> f) d)" .
  then show ?case by (simp add: case_prod_unfold conj_commute)
qed simp

lemma remove_logs_other: "n \<notin> set fs \<Longrightarrow> map_of (snd (remove_logs rm fs d)) n = map_of d n"
proof (induction fs arbitrary: d)
  case (Cons f fs)
  have "map_of (filter (\<lambda>(m, c). m \<notin> {f}) d) n = map_of d n" using Cons.prems by (intro map_of_filter_other) simp
  then show ?case using Cons by (auto split: sum.splits)
qed simp

lemma map_of_append_file:
  "map_of (append_file name t d) n =
     (if n = name then Some ((case map_of d name of Some c \<Rightarrow> c | None \<Rightarrow> []) @ t) else map_of d n)"
proof (cases "map_of d name")
  case None
  then show ?thesis by (auto simp: append_file_def map_add_def split: option.splits)
next
  case (Some c)
  have "map_of (map (\<lambda>(n, c). if n = name then (n, c @ t) else (n, c)) e) n =
      (if n = name then map_option (\<lambda>c. c @ t) (map_of e name) else map_of e n)" for e
    by (induction e) auto
  then show ?thesis using Some by (simp add: append_file_def)
qed

lemma fst_append_file:
  "map fst (append_file name t d) = (if name \<in> fst ` set d then map fst d else map fst d @ [name])"
proof (cases "map_of d name")
  case None
  moreover from this have "name \<notin> fst ` set d" by (simp add: map_of_eq_None_iff)
  ultimately show ?thesis by (simp add: append_file_def)
next
  case (Some c)
  then have "name \<in> fst ` set d" by (metis domI dom_map_of_conv_image_fst)
  moreover have "map fst (map (\<lambda>(n, c). if n = name then (n, c @ t) else (n, c)) e) = map fst e" for e
    by (induction e) auto
  ultimately show ?thesis using Some by (simp add: append_file_def)
qed

lemma append_file_twice: "append_file name t (append_file name [] d) = append_file name t d"
proof (cases "map_of d name")
  case None
  then have "fst x \<noteq> name" if "x \<in> set d" for x using that by (force simp: map_of_eq_None_iff)
  then have "map (\<lambda>(n, c). if n = name then (n, c @ t) else (n, c)) d = d"
    by (intro map_idI) (simp add: case_prod_unfold)
  then show ?thesis using None by (simp add: append_file_def map_add_def)
next
  case (Some c)
  moreover have "map (\<lambda>(n, c). if n = name then (n, c @ []) else (n, c)) e = e" for e :: log_dir
    by (induction e) auto
  ultimately show ?thesis by (simp add: append_file_def)
qed

lemma is_log_of_log_name: "is_log_of pfx (log_name pfx date)"
  by (simp add: is_log_of_def log_name_def starts_with_iff_prefix ends_with_def lit_def)

lemma log_try_Inr [simp]: "log_try r d = (Inr x, d') \<longleftrightarrow> r = Inr x \<and> d' = d"
  by (auto simp: log_try_def split: sum.splits)

lemma write_line_Inr [simp]:
  "write_line io name line d = (Inr u, d') \<longleftrightarrow> lg_write io = None \<and> d' = append_file name line d"
  by (auto simp: write_line_def split: option.splits)

text \<open>What a successful call did.\<close>

lemma log_append_Inr:
  assumes "log_append io date pfx command stream txt d = (Inr u, d')"
    and "\<And>d. lg_read_dir io d = Inr (map fst d)"
  shows "\<exists>now. lg_now io = Inr now \<and>
    d' = prune pfx (append_file (log_name pfx (date (now div 86400))) (log_line now command stream txt) d)"
proof -
  obtain now d1 where now: "lg_now io = Inr now"
    and d1: "d1 = append_file (log_name pfx (date (now div 86400))) (log_line now command stream txt) d"
    and rm: "remove_logs (lg_remove io) (excess_logs pfx (map fst d1)) d1 = (Inr (), d')"
    using assms by (auto simp: log_append_def abind_Inr append_file_twice Let_def)
  then show ?thesis using remove_logs_ok [OF rm] by (auto simp: prune_def Let_def)
qed

text \<open>Actions that leave the file \<open>n\<close> alone.\<close>

definition leaves :: "str \<Rightarrow> (str, log_dir, 'a) act \<Rightarrow> bool" where
  "leaves n m \<longleftrightarrow> (\<forall>d. map_of (snd (m d)) n = map_of d n)"

lemma leaves_abind: "leaves n m \<Longrightarrow> (\<And>x. leaves n (f x)) \<Longrightarrow> leaves n (abind m f)"
  by (auto simp: leaves_def abind_def split: prod.splits sum.splits) (metis snd_conv)+

lemma leaves_call: "leaves n (log_try r)" "leaves n (\<lambda>d. log_try (g d) d)" "leaves n (\<lambda>d. (h, d))"
  by (auto simp: leaves_def log_try_def split: sum.splits)

lemma log_write_other:
  assumes "\<not> is_log_of pfx n"
  shows "map_of (log_write io date pfx command stream txt d) n = map_of d n"
proof -
  have name: "n \<noteq> log_name pfx x" for x using assms is_log_of_log_name by blast
  have "n \<notin> set (excess_logs pfx ns)" for ns using assms excess_subset by blast
  then have "leaves n (remove_logs rm (excess_logs pfx ns))" for rm ns
    by (simp add: leaves_def remove_logs_other)
  moreover have "leaves n (write_line io (log_name pfx x) line)" for x line
    using name by (auto simp: leaves_def write_line_def map_of_append_file split: option.splits)
  moreover have "leaves n (\<lambda>d. (Inr (), append_file (log_name pfx x) [] d))" for x
    using name by (simp add: leaves_def map_of_append_file)
  ultimately have "leaves n (log_append io date pfx command stream txt)"
    by (simp add: log_append_def leaves_abind leaves_call Let_def)
  then show ?thesis by (simp add: leaves_def log_write_def)
qed

text \<open>
  A log entry is added and a week is kept: a successful call leaves the sanitised line at the end of
  the day's file, unless that file itself was the excess, leaves at most seven files of the role,
  removes no file whose name, which carries the date, comes after that of a kept one; and
  whatever fails, no file of another role or name is touched.
\<close>

theorem log_append_keeps_week:
  "(\<forall>n. \<not> is_log_of pfx n \<longrightarrow> map_of (log_write io date pfx command stream text d) n = map_of d n) \<and>
   (distinct (map fst d) \<and> (\<forall>d. lg_read_dir io d = Inr (map fst d)) \<and>
      log_append io date pfx command stream text d = (Inr (), d') \<longrightarrow>
    (\<exists>now name. lg_now io = Inr now \<and> name = log_name pfx (date (now div 86400)) \<and>
       (map_of d' name = None \<or>
        map_of d' name = Some ((case map_of d name of Some c \<Rightarrow> c | None \<Rightarrow> []) @ log_line now command stream text)) \<and>
       length (filter (is_log_of pfx) (map fst d')) \<le> 7 \<and>
       (\<forall>n \<in> insert name (set (map fst d)) - set (map fst d').
          \<forall>m \<in> set (map fst d'). is_log_of pfx m \<longrightarrow> n \<le> m)))"
proof (intro conjI impI, goal_cases)
  case 1
  show ?case using log_write_other by blast
next
  case 2
  then obtain now where now: "lg_now io = Inr now"
    "d' = prune pfx (append_file (log_name pfx (date (now div 86400))) (log_line now command stream text) d)"
    using log_append_Inr [of io date pfx command stream _ d] by blast
  let ?name = "log_name pfx (date (now div 86400))"
  let ?d1 = "append_file ?name (log_line now command stream text) d"
  have names: "set (map fst ?d1) = insert ?name (set (map fst d))" by (auto simp: fst_append_file)
  have dist: "distinct (map fst ?d1)" using 2 by (auto simp: fst_append_file)
  have "map_of d' n = None \<or> map_of d' n = map_of ?d1 n" for n
  proof (cases "n \<in> set (excess_logs pfx (map fst ?d1))")
    case True
    then have "n \<notin> fst ` set d'" by (auto simp: now(2) prune_def Let_def)
    then show ?thesis by (simp add: map_of_eq_None_iff)
  next
    case False
    then show ?thesis unfolding now(2) prune_def Let_def by (simp only: map_of_filter_other simp_thms)
  qed
  then have "map_of d' ?name = None \<or> map_of d' ?name =
      Some ((case map_of d ?name of Some c \<Rightarrow> c | None \<Rightarrow> []) @ log_line now command stream text)"
    by (metis map_of_append_file)
  then show ?case
    using now prune_keeps_newest [OF dist, of pfx] names by (intro exI [of _ now] exI [of _ ?name]) simp
qed

definition working_log :: log_io where
  "working_log = \<lparr>lg_open_lock = Inr (), lg_lock = Inr (), lg_now = Inr 0, lg_open = (\<lambda>_. Inr ()), lg_write = None,
     lg_read_dir = (\<lambda>d. Inr (map fst d)), lg_remove = (\<lambda>_. Inr ()), lg_unlock = Inr ()\<rparr>"

theorem log_append_keeps_week_witness:
  "\<exists>d'. log_append working_log (\<lambda>_. lit ''1970-01-01'') (lit ''devtunnel'') [] [] [] [] = (Inr (), d') \<and>
     length (filter (is_log_of (lit ''devtunnel'')) (map fst d')) \<le> 7"
proof -
  have "\<exists>d'. log_append working_log (\<lambda>_. lit ''1970-01-01'') (lit ''devtunnel'') [] [] [] [] = (Inr (), d')"
    by (simp add: log_append_def log_try_def write_line_def working_log_def abind_def excess_logs_def
        append_file_def is_log_of_log_name Let_def)
  then obtain d' where d: "log_append working_log (\<lambda>_. lit ''1970-01-01'') (lit ''devtunnel'') [] [] [] [] = (Inr (), d')"
    by blast
  have "lg_read_dir working_log d = Inr (map fst d)" for d by (simp add: working_log_def)
  then show ?thesis
    using log_append_keeps_week [of "lit ''devtunnel''" working_log "\<lambda>_. lit ''1970-01-01''" "[]" "[]" "[]" "[]" d'] d
    by fastforce
qed

section \<open>Following a log\<close>

text \<open>The newest log is one file that only grows, as appending does, and nothing fails.\<close>

fun growing :: "str \<Rightarrow> str \<Rightarrow> u8 list \<Rightarrow> show_obs list \<Rightarrow> bool" where
  "growing pfx name old [] = True"
| "growing pfx name old (r # rs) =
     (\<exists>d content. show_listing r = Inr d \<and> newest_log pfx d = Some (name, Inr (old @ content)) \<and>
        so_write r = Inr () \<and> growing pfx name (old @ content) rs)"

text \<open>What the last round finds in the file.\<close>

definition last_contents :: "str \<Rightarrow> show_obs list \<Rightarrow> (str \<times> (io_error + u8 list)) option" where
  "last_contents pfx rs = (case show_listing (last rs) of Inr d \<Rightarrow> newest_log pfx d | Inl _ \<Rightarrow> None)"

lemma show_loop_from:
  assumes "growing pfx name old rs" and "sh_current st = name" and "sh_offset st = length old"
  shows "\<exists>new. show_loop pfx role True rs st = (new, None) \<and>
    (rs \<noteq> [] \<longrightarrow> last_contents pfx rs = Some (name, Inr (old @ new))) \<and> (rs = [] \<longrightarrow> new = [])"
  using assms
proof (induction rs arbitrary: old st)
  case (Cons r rs)
  then obtain d content where c: "show_listing r = Inr d" "newest_log pfx d = Some (name, Inr (old @ content))"
    "so_write r = Inr ()" "growing pfx name (old @ content) rs"
    by auto
  have "show_data name (old @ content) st = (content, \<lparr>sh_current = name, sh_offset = length (old @ content)\<rparr>)"
    using Cons.prems(2,3) by (simp add: show_data_def Let_def)
  then show ?case
    using Cons.IH [OF c(4), of "\<lparr>sh_current = name, sh_offset = length (old @ content)\<rparr>"] c
    by (cases rs) (auto simp: last_contents_def)
qed simp

text \<open>
  Following a log shows it exactly once: as long as the newest file stays the same and is only
  appended to, what is printed over any number of rounds is the contents of the file at the last
  round, with no byte twice and none left out.
\<close>

theorem show_follow_exact:
  assumes "growing pfx name [] rs" and "rs \<noteq> []" and "name \<noteq> []" and "role_prefix role = Some pfx"
  shows "\<exists>bytes. show_logs_of role True rs = (bytes, None) \<and> last_contents pfx rs = Some (name, Inr bytes)"
proof -
  obtain r rest where rs: "rs = r # rest" using assms(2) by (cases rs) auto
  then obtain d content where c: "show_listing r = Inr d" "newest_log pfx d = Some (name, Inr content)"
    "so_write r = Inr ()" "growing pfx name content rest"
    using assms(1) by auto
  have "show_data name content show_init = (content, \<lparr>sh_current = name, sh_offset = length content\<rparr>)"
    using assms(3) by (simp add: show_data_def show_init_def Let_def)
  then show ?thesis
    using show_loop_from [OF c(4), of "\<lparr>sh_current = name, sh_offset = length content\<rparr>" role] c assms(4)
    by (cases rest) (auto simp: rs last_contents_def show_logs_of_def)
qed

definition demo_obs :: "(str \<times> u8 list) list \<Rightarrow> show_obs" where
  "demo_obs d = \<lparr>so_dir = Inr (map (\<lambda>(n, c). (n, Inr c)) d), so_write = Inr ()\<rparr>"

lemmas show_eval = show_listing_def demo_obs_def newest_log_def is_log_of_def show_data_def show_init_def
  role_prefix_def show_logs_of_def last_contents_def text_eval Let_def

theorem show_follow_exact_witness:
  "\<exists>bytes. show_logs_of (lit ''host'') True
       [demo_obs [(lit ''devtunnel.1.log'', [1])], demo_obs [(lit ''devtunnel.1.log'', [1, 2])]] = (bytes, None) \<and>
     last_contents (lit ''devtunnel'') [demo_obs [(lit ''devtunnel.1.log'', [1])], demo_obs [(lit ''devtunnel.1.log'', [1, 2])]] =
       Some (lit ''devtunnel.1.log'', Inr bytes)"
proof -
  have "growing (lit ''devtunnel'') (lit ''devtunnel.1.log'') []
      [demo_obs [(lit ''devtunnel.1.log'', [1])], demo_obs [(lit ''devtunnel.1.log'', [1, 2])]]"
    by (simp add: show_eval)
  from show_follow_exact [OF this, of "lit ''host''"] show ?thesis
    by (simp add: role_prefix_def text_eval)
qed

text \<open>
  A change of the day can hide lines from a follower: what was written to the old file after the
  last round before the new day's file appeared is never shown, since a round only looks at the
  newest file.
\<close>

theorem follow_misses_rollover:
  "show_logs_of (lit ''host'') True
     [demo_obs [(lit ''devtunnel.1.log'', [1])],
      demo_obs [(lit ''devtunnel.1.log'', [1, 2]), (lit ''devtunnel.2.log'', [3])]] = ([1, 3], None)"
  by (simp add: show_eval)

end
