(* ===== verification/Ipc.thy ===== *)
theory Ipc
  imports Logs
begin

text \<open>
  \<open>devtunnel/ipc.rs\<close>: the messages between a proxy and the broker. Turning a message into JSON and
  back is the parameter pair \<open>to_vec\<close> and \<open>from_slice\<close>; a message travels as its length in four
  bytes, most significant first, and then its bytes. The checks on the broker's files work on
  what the operating system reports about them.
\<close>

definition VERSION :: u32 where "VERSION = 1"

record endpoint =
  ep_port :: u16
  ep_token :: str

record ipc_request =
  rq_version :: u32
  rq_token :: str
  rq_remote_port :: u16
  rq_local_port :: "u16 option"

record ipc_response =
  rs_version :: u32
  rs_error :: "str option"

datatype ipc_error = IpcTooLarge | IpcInvalid | IpcIo io_error | IpcCheck str

section \<open>Framing\<close>

definition u32_bytes :: "nat \<Rightarrow> u8 list" where
  "u32_bytes n = map word_of_nat [n div 2 ^ 24 mod 256, n div 2 ^ 16 mod 256, n div 2 ^ 8 mod 256, n mod 256]"

definition bytes_u32 :: "u8 list \<Rightarrow> nat" where
  "bytes_u32 bs = foldl (\<lambda>n b. n * 256 + unat b) 0 bs"

definition MAX_MESSAGE :: nat where "MAX_MESSAGE = 4096"

definition ipc_send :: "('m \<Rightarrow> u8 list) \<Rightarrow> 'm \<Rightarrow> ipc_error + u8 list" where
  "ipc_send to_vec message =
     (let bytes = to_vec message
      in if length bytes \<le> MAX_MESSAGE then Inr (u32_bytes (length bytes) @ bytes) else Inl IpcTooLarge)"

text \<open>\<open>read_u32\<close> and \<open>read_exact\<close> fail at the end of the stream.\<close>

definition ipc_receive ::
  "(u8 list \<Rightarrow> 'm option) \<Rightarrow> u8 list \<Rightarrow> ipc_error + 'm \<times> u8 list" where
  "ipc_receive from_slice stream =
     (if length stream < 4 then Inl (IpcIo (IoError OtherKind []))
      else
        let len = bytes_u32 (take 4 stream); rest = drop 4 stream
        in if \<not> len \<le> MAX_MESSAGE then Inl IpcTooLarge
           else if length rest < len then Inl (IpcIo (IoError OtherKind []))
           else case from_slice (take len rest) of
                  None \<Rightarrow> Inl IpcInvalid
                | Some m \<Rightarrow> Inr (m, drop len rest))"

section \<open>Private files\<close>

text \<open>What \<open>symlink_metadata\<close> and the opened file report.\<close>

record file_meta =
  fm_is_file :: bool
  fm_is_dir :: bool
  fm_uid :: u32
  fm_mode :: u32
  fm_attributes :: u32
  fm_len :: nat

definition is_reparse_point :: "file_meta \<Rightarrow> bool" where
  "is_reparse_point m \<longleftrightarrow> fm_attributes m AND 0x400 \<noteq> 0"

text \<open>\<open>secure\<close>: the path itself must be a file or directory. On Unix so must what was opened without
  following links, it must be ours, and then its mode is set (the result \<open>Some mode\<close>); on Windows
  it must not be a reparse point and gets an access list of its own, with the outcome \<open>restricted\<close>.\<close>

definition secure ::
  "platform \<Rightarrow> io_error + file_meta \<Rightarrow> io_error + file_meta \<Rightarrow> u32 \<Rightarrow> (u32 \<Rightarrow> io_error + unit) \<Rightarrow>
   ipc_error + unit \<Rightarrow> ipc_error + u32 option" where
  "secure os link_meta opened euid set_permissions restricted =
     (case link_meta of
        Inl e \<Rightarrow> Inl (IpcIo e)
      | Inr m \<Rightarrow>
          (if \<not> (fm_is_file m \<or> fm_is_dir m)
           then Inl (IpcCheck (lit ''broker path must be a regular file or directory''))
           else case os of
             Unix \<Rightarrow>
               (case opened of
                  Inl e \<Rightarrow> Inl (IpcIo e)
                | Inr f \<Rightarrow>
                    (if \<not> (fm_is_file f \<or> fm_is_dir f) then Inl (IpcCheck (lit ''invalid broker path type''))
                     else if fm_uid f \<noteq> euid then Inl (IpcCheck (lit ''broker path has a different owner''))
                     else
                       let mode = (if fm_is_dir f then 448 else 384)
                       in case set_permissions mode of Inl e \<Rightarrow> Inl (IpcIo e) | Inr _ \<Rightarrow> Inr (Some mode)))
           | Windows \<Rightarrow>
               (if is_reparse_point m then Inl (IpcCheck (lit ''broker path must not be a reparse point''))
                else case restricted of Inl e \<Rightarrow> Inl e | Inr _ \<Rightarrow> Inr None)))"

text \<open>\<open>directory\<close>: both levels are created and made private before the path is used.\<close>

definition ipc_directory ::
  "os_env \<Rightarrow> (path \<Rightarrow> io_error + unit) \<Rightarrow> (path \<Rightarrow> ipc_error + u32 option) \<Rightarrow> ipc_error + path" where
  "ipc_directory os create_dir_all secure_path =
     (let root = state_dir os; brokers = path_join root (lit ''brokers'')
      in case create_dir_all root of
           Inl e \<Rightarrow> Inl (IpcIo e)
         | Inr _ \<Rightarrow>
             rbind (secure_path root) (\<lambda>_.
               case create_dir_all brokers of
                 Inl e \<Rightarrow> Inl (IpcIo e)
               | Inr _ \<Rightarrow> rbind (secure_path brokers) (\<lambda>_. Inr brokers)))"

text \<open>The read is limited to 4097 bytes, so that a file that grew since its length was asked for is
  still noticed.\<close>

definition read_endpoint ::
  "platform \<Rightarrow> io_error + file_meta \<times> (io_error + u8 list) \<Rightarrow> u32 \<Rightarrow> ipc_error + u8 list" where
  "read_endpoint os opened euid =
     (case opened of
        Inl e \<Rightarrow> Inl (IpcIo e)
      | Inr (m, content) \<Rightarrow>
          (if \<not> fm_is_file m then Inl (IpcCheck (lit ''broker metadata must be a regular file''))
           else if os = Unix \<and> \<not> (fm_uid m = euid \<and> fm_mode m AND 63 = 0)
             then Inl (IpcCheck (lit ''broker metadata is not private to this user''))
           else if os = Windows \<and> is_reparse_point m
             then Inl (IpcCheck (lit ''broker metadata must not be a reparse point''))
           else if \<not> fm_len m \<le> MAX_MESSAGE then Inl (IpcCheck (lit ''broker metadata too large''))
           else case content of
                  Inl e \<Rightarrow> Inl (IpcIo e)
                | Inr c \<Rightarrow>
                    (let bytes = take 4097 c
                     in if \<not> length bytes \<le> MAX_MESSAGE then Inl (IpcCheck (lit ''broker metadata too large''))
                        else Inr bytes)))"

section \<open>Properties\<close>

lemma length_u32_bytes [simp]: "length (u32_bytes n) = 4"
  by (simp add: u32_bytes_def)

lemma unat_byte: "n < 256 \<Longrightarrow> unat (word_of_nat n :: u8) = n"
  by (simp add: unsigned_of_nat take_bit_eq_mod)

lemma bytes_u32_bytes: "n < 2 ^ 16 \<Longrightarrow> bytes_u32 (u32_bytes n) = n"
  by (simp add: bytes_u32_def u32_bytes_def unat_byte)

lemma ipc_receive_frame:
  assumes "from_slice (to_vec m) = Some m" and "ipc_send to_vec m = Inr frame"
  shows "ipc_receive from_slice (frame @ rest) = Inr (m, rest)"
proof -
  have len: "length (to_vec m) \<le> MAX_MESSAGE" and f: "frame = u32_bytes (length (to_vec m)) @ to_vec m"
    using assms(2) by (auto simp: ipc_send_def Let_def split: if_splits)
  have "bytes_u32 (u32_bytes (length (to_vec m))) = length (to_vec m)"
    using len by (intro bytes_u32_bytes) (simp add: MAX_MESSAGE_def)
  with len f assms(1) show ?thesis by (simp add: ipc_receive_def Let_def)
qed

text \<open>
  The framing is faithful: a message that fits is received as it was sent, whatever follows
  it in the stream is left there, and a message of more than 4096 bytes is refused on both
  sides before it is read.
\<close>

theorem ipc_roundtrip:
  assumes "from_slice (to_vec m) = Some m"
  shows "(case ipc_send to_vec m of
      Inl e \<Rightarrow> e = IpcTooLarge \<and> MAX_MESSAGE < length (to_vec m)
    | Inr frame \<Rightarrow> ipc_receive from_slice (frame @ rest) = Inr (m, rest))"
proof (cases "ipc_send to_vec m")
  case (Inl e)
  then show ?thesis by (auto simp: ipc_send_def Let_def split: if_splits)
next
  case (Inr frame)
  then show ?thesis using ipc_receive_frame [of from_slice to_vec m frame] assms by simp
qed

theorem ipc_roundtrip_witness:
  "ipc_receive (\<lambda>bs. if bs = [7, 8] then Some (3 :: nat) else None) ([0, 0, 0, 2, 7, 8] @ [9]) = Inr (3, [9])"
proof -
  have send: "ipc_send (\<lambda>_. [7, 8]) (3 :: nat) = Inr [0, 0, 0, 2, 7, 8]"
    by (simp add: ipc_send_def u32_bytes_def MAX_MESSAGE_def)
  show ?thesis
    using ipc_roundtrip [of "\<lambda>bs. if bs = [7, 8] then Some (3 :: nat) else None" "\<lambda>_. [7, 8]" 3 "[9]"]
    by (simp add: send)
qed

lemma read_endpoint_Inr:
  "read_endpoint os opened euid = Inr bytes \<longleftrightarrow>
     (\<exists>m. opened = Inr (m, Inr bytes) \<and> fm_is_file m \<and> (os = Unix \<longrightarrow> fm_uid m = euid \<and> fm_mode m AND 63 = 0) \<and>
        (os = Windows \<longrightarrow> \<not> is_reparse_point m) \<and> fm_len m \<le> MAX_MESSAGE \<and> length bytes \<le> MAX_MESSAGE)"
proof (cases opened)
  case (Inr p)
  obtain m c where p: "p = (m, c)" by (cases p)
  show ?thesis
  proof (cases c)
    case (Inr content)
    have "length (take 4097 content) \<le> 4096 \<longleftrightarrow> length content \<le> 4096" by (simp add: min_def)
    then show ?thesis using \<open>opened = Inr p\<close> p Inr by (auto simp: read_endpoint_def MAX_MESSAGE_def Let_def)
  qed (use Inr p in \<open>auto simp: read_endpoint_def\<close>)
qed (simp add: read_endpoint_def)

text \<open>
  The broker's capability is only read from a private file: whatever is accepted is the whole
  contents of a regular file of at most 4096 bytes, on Unix of the same user and with no access
  for anybody else, on Windows not reached through a reparse point.
\<close>

theorem read_endpoint_private:
  assumes "read_endpoint os opened euid = Inr bytes"
  shows "\<exists>m. opened = Inr (m, Inr bytes) \<and> fm_is_file m \<and> length bytes \<le> MAX_MESSAGE \<and>
    (case os of Unix \<Rightarrow> fm_uid m = euid \<and> fm_mode m AND 63 = 0 | Windows \<Rightarrow> \<not> is_reparse_point m)"
  using assms by (cases os) (auto simp: read_endpoint_Inr)

definition private_meta :: "nat \<Rightarrow> file_meta" where
  "private_meta n = \<lparr>fm_is_file = True, fm_is_dir = False, fm_uid = 5, fm_mode = 384, fm_attributes = 0, fm_len = n\<rparr>"

theorem read_endpoint_private_witness:
  "\<exists>m. (Inr (private_meta 1, Inr [1]) :: io_error + file_meta \<times> (io_error + u8 list)) = Inr (m, Inr [1]) \<and>
     fm_is_file m \<and> fm_uid m = 5 \<and> fm_mode m AND 63 = 0"
proof -
  have "read_endpoint Unix (Inr (private_meta 1, Inr [1])) 5 = Inr [1]"
    by (simp add: read_endpoint_Inr private_meta_def MAX_MESSAGE_def)
  from read_endpoint_private [OF this] show ?thesis by simp
qed

end
