(* ===== verification/Process.thy ===== *)
theory Process
  imports Session
begin

text \<open>
  \<open>devtunnel/process.rs\<close>: reading a child's output line by line, the events of an owned process
  and how it is stopped. The guardian that ties the process to its owner is in \<open>Guardian\<close>.
\<close>

section \<open>Lines\<close>

datatype process_event =
    Line string str
  | Exited bool "i32 option"

definition LINE_LIMIT :: nat where "LINE_LIMIT = 65536"

definition oversized_text :: str where
  "oversized_text = lit ''[oversized output line omitted]''"

text \<open>The mutable variables of \<open>drain\<close> are \<open>line\<close> and \<open>oversized\<close>; a byte either ends a line or is
  added to it.\<close>

record drain_state =
  dr_line :: "u8 list"
  dr_oversized :: bool

definition drain_init :: drain_state where
  "drain_init = \<lparr>dr_line = [], dr_oversized = False\<rparr>"

definition trim_end_cr :: "str \<Rightarrow> str" where
  "trim_end_cr s = rev (dropWhile (\<lambda>c. c = 13) (rev s))"

definition drain_byte :: "drain_state \<Rightarrow> u8 \<Rightarrow> str list \<times> drain_state" where
  "drain_byte st byte =
     (if byte = 10 then
        ([if dr_oversized st then oversized_text else trim_end_cr (from_utf8_lossy (dr_line st))],
         drain_init)
      else if length (dr_line st) < LINE_LIMIT then ([], st\<lparr>dr_line := dr_line st @ [byte]\<rparr>)
      else ([], st\<lparr>dr_oversized := True\<rparr>))"

fun drain_bytes :: "drain_state \<Rightarrow> u8 list \<Rightarrow> str list \<times> drain_state" where
  "drain_bytes st [] = ([], st)"
| "drain_bytes st (b # bs) =
     (case drain_byte st b of (ls, st') \<Rightarrow>
        (case drain_bytes st' bs of (ls', st'') \<Rightarrow> (ls @ ls', st'')))"

fun drain_chunks :: "drain_state \<Rightarrow> u8 list list \<Rightarrow> str list \<times> drain_state" where
  "drain_chunks st [] = ([], st)"
| "drain_chunks st (c # cs) =
     (case drain_bytes st c of (ls, st') \<Rightarrow>
        (case drain_chunks st' cs of (ls', st'') \<Rightarrow> (ls @ ls', st'')))"

definition drain_last :: "drain_state \<Rightarrow> str list" where
  "drain_last st =
     (if dr_oversized st \<or> dr_line st \<noteq> []
      then [if dr_oversized st then oversized_text else from_utf8_lossy (dr_line st)] else [])"

text \<open>A send fails only when the receiver is gone, and then the reader returns: \<open>Some n\<close> is a receiver
  that went away after \<open>n\<close> events.\<close>

definition drain :: "string \<Rightarrow> nat option \<Rightarrow> u8 list list \<Rightarrow> process_event list" where
  "drain stream dropped chunks =
     (case drain_chunks drain_init chunks of
        (ls, st) \<Rightarrow>
          (let events = map (Line stream) (ls @ drain_last st)
           in case dropped of None \<Rightarrow> events | Some n \<Rightarrow> take n events))"

section \<open>Events of an owned process\<close>

text \<open>The queue the two readers fill, closed when both are done; the child; the liveness pipe.\<close>

record owned_process =
  op_queue :: "process_event list"
  op_liveness :: bool
  op_exited :: bool

definition spawned :: "process_event list \<Rightarrow> owned_process" where
  "spawned q = \<lparr>op_queue = q, op_liveness = True, op_exited = False\<rparr>"

definition exit_event :: "str + exit_status \<Rightarrow> process_event" where
  "exit_event wait =
     (case wait of Inr st \<Rightarrow> Exited (es_code st = Some 0) (es_code st) | Inl _ \<Rightarrow> Exited False None)"

definition next_event ::
  "(str + exit_status) \<Rightarrow> owned_process \<Rightarrow> process_event option \<times> owned_process" where
  "next_event wait p =
     (case op_queue p of
        e # q \<Rightarrow> (Some e, p\<lparr>op_queue := q\<rparr>)
      | [] \<Rightarrow>
          (if op_exited p then (None, p)
           else (Some (exit_event wait), p\<lparr>op_exited := True\<rparr>)))"

definition stop_process :: "owned_process \<Rightarrow> owned_process" where
  "stop_process p = p\<lparr>op_liveness := False\<rparr>"

text \<open>\<open>shutdown\<close> closes the liveness pipe and takes events until there are none; \<open>fuel\<close> counts the
  events taken before the ten seconds are over.\<close>

fun take_events :: "nat \<Rightarrow> (str + exit_status) \<Rightarrow> owned_process \<Rightarrow> process_event list \<times> owned_process" where
  "take_events 0 wait p = ([], p)"
| "take_events (Suc n) wait p =
     (case next_event wait p of
        (None, p') \<Rightarrow> ([], p')
      | (Some e, p') \<Rightarrow> (case take_events n wait p' of (es, p'') \<Rightarrow> (e # es, p'')))"

definition shutdown_process :: "nat \<Rightarrow> (str + exit_status) \<Rightarrow> owned_process \<Rightarrow> owned_process" where
  "shutdown_process fuel wait p = snd (take_events fuel wait (stop_process p))"

section \<open>Properties\<close>

lemma drain_bytes_append:
  "drain_bytes st (xs @ ys) =
     (case drain_bytes st xs of (ls, st') \<Rightarrow> (case drain_bytes st' ys of (ls', st'') \<Rightarrow> (ls @ ls', st'')))"
  by (induction xs arbitrary: st) (auto split: prod.splits)

lemma drain_chunks_concat: "drain_chunks st cs = drain_bytes st (concat cs)"
  by (induction cs arbitrary: st) (auto simp: drain_bytes_append split: prod.splits)

text \<open>A line without its end, read from a fresh state.\<close>

lemma drain_bytes_line:
  assumes "10 \<notin> set l" and "length (dr_line st) + length l \<le> LINE_LIMIT" and "\<not> dr_oversized st"
  shows "drain_bytes st l = ([], st\<lparr>dr_line := dr_line st @ l\<rparr>)"
  using assms
proof (induction l arbitrary: st)
  case (Cons b l)
  have "drain_byte st b = ([], st\<lparr>dr_line := dr_line st @ [b]\<rparr>)"
    using Cons.prems by (auto simp: drain_byte_def)
  then show ?case using Cons.prems Cons.IH [of "st\<lparr>dr_line := dr_line st @ [b]\<rparr>"] by simp
qed simp

lemma drain_bytes_oversized:
  assumes "10 \<notin> set l" and "length (dr_line st) = LINE_LIMIT"
  shows "drain_bytes st l = ([], st\<lparr>dr_oversized := dr_oversized st \<or> l \<noteq> []\<rparr>)"
  using assms
proof (induction l arbitrary: st)
  case (Cons b l)
  have "drain_byte st b = ([], st\<lparr>dr_oversized := True\<rparr>)"
    using Cons.prems by (auto simp: drain_byte_def)
  then show ?case using Cons.prems Cons.IH [of "st\<lparr>dr_oversized := True\<rparr>"] by simp
qed simp

text \<open>What one complete line of output becomes.\<close>

definition line_text :: "u8 list \<Rightarrow> str" where
  "line_text l = (if length l \<le> LINE_LIMIT then trim_end_cr (from_utf8_lossy l) else oversized_text)"

lemma drain_long:
  assumes "10 \<notin> set l" and "\<not> length l \<le> LINE_LIMIT"
  shows "drain_bytes drain_init l = ([], \<lparr>dr_line = take LINE_LIMIT l, dr_oversized = True\<rparr>)"
proof -
  have split: "l = take LINE_LIMIT l @ drop LINE_LIMIT l" by simp
  have "10 \<notin> set (take LINE_LIMIT l)" "10 \<notin> set (drop LINE_LIMIT l)"
    using assms by (auto dest: in_set_takeD in_set_dropD)
  then show ?thesis
    using assms(2) drain_bytes_line [of "take LINE_LIMIT l" drain_init]
      drain_bytes_oversized [of "drop LINE_LIMIT l" "\<lparr>dr_line = take LINE_LIMIT l, dr_oversized = False\<rparr>"]
    by (subst split, subst drain_bytes_append) (simp add: drain_init_def)
qed

lemma drain_complete_line:
  assumes "10 \<notin> set l"
  shows "drain_bytes drain_init (l @ [10]) = ([line_text l], drain_init)"
proof (cases "length l \<le> LINE_LIMIT")
  case True
  then show ?thesis
    using assms drain_bytes_line [of l drain_init]
    by (simp add: drain_bytes_append drain_init_def drain_byte_def line_text_def)
next
  case False
  then show ?thesis
    using drain_long [OF assms] by (simp add: drain_bytes_append drain_byte_def line_text_def)
qed

text \<open>What an output says, line by line: the bytes up to each line feed, and what is left at the end, from
  which no carriage return is taken.\<close>

definition last_text :: "u8 list \<Rightarrow> str" where
  "last_text l = (if length l \<le> LINE_LIMIT then from_utf8_lossy l else oversized_text)"

lemma tl_dropWhile_less: "bs \<noteq> [] \<Longrightarrow> length (tl (dropWhile P bs)) < length bs"
  using length_dropWhile_le [of P bs] by (cases bs) simp_all

function output_texts :: "u8 list \<Rightarrow> str list" where
  "output_texts bs =
     (if bs = [] then []
      else if 10 \<in> set bs
      then line_text (takeWhile (\<lambda>b. b \<noteq> 10) bs) # output_texts (tl (dropWhile (\<lambda>b. b \<noteq> 10) bs))
      else [last_text bs])"
  by pat_completeness auto
termination
  by (relation "measure length") (auto simp: tl_dropWhile_less simp del: length_tl)

declare output_texts.simps [simp del]

lemma drain_rest:
  assumes "10 \<notin> set l"
  shows "\<exists>st. drain_bytes drain_init l = ([], st) \<and> drain_last st = (if l = [] then [] else [last_text l])"
proof (cases "length l \<le> LINE_LIMIT")
  case True
  then show ?thesis
    using assms drain_bytes_line [of l drain_init] by (simp add: drain_init_def drain_last_def last_text_def)
next
  case False
  then show ?thesis
    using drain_long [OF assms] by (auto simp: drain_last_def last_text_def LINE_LIMIT_def)
qed

lemma drain_texts:
  "case drain_bytes drain_init bs of (ls, st) \<Rightarrow> ls @ drain_last st = output_texts bs"
proof (induction bs rule: output_texts.induct)
  case (1 bs)
  let ?l = "takeWhile (\<lambda>b. b \<noteq> 10) bs" and ?r = "dropWhile (\<lambda>b. b \<noteq> 10) bs"
  show ?case
  proof (cases "10 \<in> set bs")
    case True
    then have r: "?r = 10 # tl ?r" by (induction bs) auto
    then have bs: "bs = (?l @ [10]) @ tl ?r" by (metis append.assoc append_Cons append_Nil takeWhile_dropWhile_id)
    have l: "10 \<notin> set ?l" using set_takeWhileD by fastforce
    obtain ls st where d: "drain_bytes drain_init (tl ?r) = (ls, st)" by fastforce
    have "drain_bytes drain_init bs = (line_text ?l # ls, st)"
      using drain_complete_line [OF l] d by (subst bs, subst drain_bytes_append) simp
    then show ?thesis using 1 True d by (auto simp: output_texts.simps [of bs])
  next
    case False
    then show ?thesis using drain_rest [OF False] by (auto simp: output_texts.simps [of bs])
  qed
qed

text \<open>The reader says exactly this, however the bytes are cut into chunks.\<close>

lemma drain_output: "drain stream None chunks = map (Line stream) (output_texts (concat chunks))"
  using drain_texts [of "concat chunks"]
  by (auto simp: drain_def drain_chunks_concat Let_def simp del: map_append split: prod.splits)

text \<open>
  The reader delivers the child's lines as they are: however the bytes are cut into chunks, a
  stream of complete lines arrives as one event per line in order, each line decoded without its
  line end, and a line of more than 65536 bytes is replaced by a notice and does not disturb the
  lines after it; a receiver that goes away has got the first of these events.
\<close>

theorem drain_lines:
  assumes "concat chunks = concat (map (\<lambda>l. l @ [10]) ls)" and "\<forall>l \<in> set ls. 10 \<notin> set l"
  shows "drain stream None chunks = map (\<lambda>l. Line stream (line_text l)) ls \<and>
    drain stream (Some n) chunks = take n (map (\<lambda>l. Line stream (line_text l)) ls)"
proof -
  have "drain_bytes drain_init (concat (map (\<lambda>l. l @ [10]) ls)) = (map line_text ls, drain_init)"
    using assms(2)
  proof (induction ls)
    case (Cons l ls)
    have "drain_bytes drain_init (concat (map (\<lambda>l. l @ [10]) (l # ls))) =
        drain_bytes drain_init ((l @ [10]) @ concat (map (\<lambda>l. l @ [10]) ls))" by simp
    also have "\<dots> = (line_text l # map line_text ls, drain_init)"
      using Cons drain_complete_line [of l] by (simp only: drain_bytes_append) simp
    finally show ?case by simp
  qed simp
  then show ?thesis
    using assms(1) by (simp add: drain_def drain_chunks_concat drain_last_def drain_init_def Let_def comp_def)
qed

theorem drain_lines_witness:
  "drain ''stdout'' None [[104], [105, 13, 10, 120], [10]] =
     [Line ''stdout'' (line_text [104, 105, 13]), Line ''stdout'' (line_text [120])]"
  using drain_lines [of "[[104], [105, 13, 10, 120], [10]]" "[[104, 105, 13], [120]]" "''stdout''"] by simp

lemma take_events_all:
  "length (op_queue p) + 2 \<le> fuel \<Longrightarrow> \<not> op_exited p \<Longrightarrow>
   take_events fuel wait p = (op_queue p @ [exit_event wait], p\<lparr>op_queue := [], op_exited := True\<rparr>)"
proof (induction "op_queue p" arbitrary: p fuel)
  case Nil
  have "Suc (Suc 0) \<le> fuel" using Nil(1,2) by (simp add: Nil(1) [symmetric])
  then obtain n where n: "fuel = Suc (Suc n)" by (metis Suc_le_D Suc_le_mono)
  have "op_queue p = []" using Nil(1) by simp
  then show ?case using Nil(3) by (simp add: n next_event_def)
next
  case (Cons a q)
  then obtain n where n: "fuel = Suc n" by (cases fuel) auto
  have nx: "next_event wait p = (Some a, p\<lparr>op_queue := q\<rparr>)" using Cons(2) [symmetric] by (simp add: next_event_def)
  have "take_events n wait (p\<lparr>op_queue := q\<rparr>) = (q @ [exit_event wait], p\<lparr>op_queue := [], op_exited := True\<rparr>)"
    using Cons(1) [of "p\<lparr>op_queue := q\<rparr>" n] Cons(3,4) Cons(2) [symmetric] n by simp
  then show ?case using n nx Cons(2) [symmetric] by simp
qed

text \<open>
  A process's events end with its exit: taking events one by one gives every queued output
  line first, then exactly one exit event, and then none; so output is never lost behind the
  exit.
\<close>

theorem events_end_with_exit:
  assumes "length q + 2 \<le> fuel"
  shows "fst (take_events fuel wait (spawned q)) = q @ [exit_event wait] \<and>
    fst (next_event wait (snd (take_events fuel wait (spawned q)))) = None"
  using take_events_all [of "spawned q" fuel wait] assms
  by (simp add: spawned_def next_event_def)

theorem events_end_with_exit_witness:
  "fst (take_events 3 (Inl []) (spawned [Line ''stdout'' []])) = [Line ''stdout'' []] @ [Exited False None]"
  using events_end_with_exit [of "[Line ''stdout'' []]" 3 "Inl []"] by (simp add: exit_event_def)

end
