(* ===== verification/Guardian.thy ===== *)
theory Guardian
  imports Process
begin

text \<open>
  \<open>devtunnel/process.rs\<close>: how a \<open>devtunnel\<close> process is started and how its life is tied to its
  owner's. \<open>spawn_owned\<close> starts this program again as a guardian, with its standard input as the
  liveness pipe; the guardian starts the CLI in a process group (a job object on Windows), and ends
  the whole group when the pipe is closed or the CLI has exited. Starting processes, reading the
  pipe and asking after the child are observations; the loops are \<open>None\<close> while the observations so
  far have not ended them.
\<close>

section \<open>Starting an owned process\<close>

datatype stdio = StdPiped | StdNull | StdInherit

record child_command =
  cc_program :: str
  cc_args :: "str list"
  cc_stdin :: stdio
  cc_stdout :: stdio
  cc_stderr :: stdio
  cc_env :: "(str \<times> str) list"
  cc_group :: bool
  cc_flags :: u32

definition BIN_VARIABLE :: str where "BIN_VARIABLE = lit ''SSHDT_DEVTUNNEL_BIN''"

definition CREATE_NO_WINDOW :: u32 where "CREATE_NO_WINDOW = 0x08000000"

definition owned_command :: "platform \<Rightarrow> path \<Rightarrow> str list \<Rightarrow> path option \<Rightarrow> child_command" where
  "owned_command os exe argv binary =
     \<lparr>cc_program = exe, cc_args = lit ''devtunnel-guardian'' # argv,
      cc_stdin = StdPiped, cc_stdout = StdPiped, cc_stderr = StdPiped,
      cc_env = (case binary of Some b \<Rightarrow> [(BIN_VARIABLE, b)] | None \<Rightarrow> []),
      cc_group = (os = Unix), cc_flags = (if os = Windows then CREATE_NO_WINDOW else 0)\<rparr>"

text \<open>What the child writes until it ends, on each of its two streams, and the order in which the
  readers' events reach the queue.\<close>

record child_output =
  co_stdout :: "u8 list list"
  co_stderr :: "u8 list list"

definition spawn_owned ::
  "platform \<Rightarrow> io_error + path \<Rightarrow> (child_command \<Rightarrow> io_error + child_output) \<Rightarrow>
   (process_event list \<Rightarrow> process_event list \<Rightarrow> process_event list) \<Rightarrow>
   str list \<Rightarrow> path option \<Rightarrow> str + owned_process" where
  "spawn_owned os current_exe spawn merge argv binary =
     (case current_exe of
        Inl e \<Rightarrow> Inl (io_text e)
      | Inr exe \<Rightarrow>
          (case spawn (owned_command os exe argv binary) of
             Inl _ \<Rightarrow> Inl (lit ''start Dev Tunnel process guardian'')
           | Inr out \<Rightarrow>
               Inr (spawned (merge (drain ''stdout'' None (co_stdout out)) (drain ''stderr'' None (co_stderr out))))))"

section \<open>The liveness pipe\<close>

text \<open>The guardian's thread reads its standard input until the end of the file or an error and then
  sends one message; \<open>pipe_closed\<close> says whether the reads so far have ended its loop.\<close>

datatype stdin_read = ReadEnd | ReadFailed | ReadByte

fun pipe_closed :: "stdin_read list \<Rightarrow> bool" where
  "pipe_closed [] = False"
| "pipe_closed (ReadByte # rs) = pipe_closed rs"
| "pipe_closed (ReadEnd # rs) = True"
| "pipe_closed (ReadFailed # rs) = True"

section \<open>The child\<close>

definition guarded_binary :: "(str \<Rightarrow> str option) \<Rightarrow> str" where
  "guarded_binary var = (case var BIN_VARIABLE of Some b \<Rightarrow> b | None \<Rightarrow> lit ''devtunnel'')"

definition guarded_command :: "platform \<Rightarrow> str \<Rightarrow> str list \<Rightarrow> child_command" where
  "guarded_command os binary argv =
     \<lparr>cc_program = binary, cc_args = argv, cc_stdin = StdNull, cc_stdout = StdInherit, cc_stderr = StdInherit,
      cc_env = [], cc_group = (os = Unix), cc_flags = 0\<rparr>"

datatype guardian_effect =
    Started child_command u32
  | KillGroup u32
  | Reaped u32
  | StartedJob child_command
  | KilledJob
  | ReapedJob
  | DroppedJob

definition code_or_1 :: "exit_status \<Rightarrow> i32" where
  "code_or_1 st = (case es_code st of Some c \<Rightarrow> c | None \<Rightarrow> 1)"

text \<open>One round of the Unix loop: the reads of the pipe that were done when \<open>recv_timeout\<close> gave up
  or got the message, and the answer of \<open>waitid\<close>: its result and \<open>si_pid\<close>.\<close>

record unix_poll =
  up_reads :: "stdin_read list"
  up_result :: i32
  up_pid :: u32

fun unix_loop :: "unix_poll list \<Rightarrow> bool" where
  "unix_loop [] = False"
| "unix_loop (p # ps) =
     (if pipe_closed (up_reads p) then True
      else if up_result p \<noteq> 0 then True
      else if up_pid p \<noteq> 0 then True
      else unix_loop ps)"

definition run_unix_child ::
  "(child_command \<Rightarrow> io_error + u32) \<Rightarrow> str \<Rightarrow> str list \<Rightarrow> unix_poll list \<Rightarrow> io_error + exit_status \<Rightarrow>
     (guardian_effect list \<times> (str + i32)) option" where
  "run_unix_child spawn binary argv polls wait =
     (let command = guarded_command Unix binary argv
      in case spawn command of
           Inl _ \<Rightarrow> Some ([], Inl (lit ''start devtunnel CLI''))
         | Inr pid \<Rightarrow>
             (if \<not> unix_loop polls then None
              else Some (case wait of
                           Inl e \<Rightarrow> ([Started command pid, KillGroup pid], Inl (io_text e))
                         | Inr status \<Rightarrow>
                             ([Started command pid, KillGroup pid, Reaped pid], Inr (code_or_1 status)))))"

text \<open>The Windows loop. The wrapped child is killed with its job when it is dropped, on every way
  out.\<close>

record job_poll =
  jp_reads :: "stdin_read list"
  jp_kill :: "io_error + unit"
  jp_wait :: "io_error + exit_status"
  jp_try_wait :: "io_error + exit_status option"

fun job_loop :: "job_poll list \<Rightarrow> (guardian_effect list \<times> (str + i32)) option" where
  "job_loop [] = None"
| "job_loop (p # ps) =
     (if pipe_closed (jp_reads p)
      then (case jp_kill p of
              Inl e \<Rightarrow> Some ([], Inl (io_text e))
            | Inr _ \<Rightarrow>
                (case jp_wait p of
                   Inl e \<Rightarrow> Some ([KilledJob], Inl (io_text e))
                 | Inr status \<Rightarrow> Some ([KilledJob, ReapedJob], Inr (code_or_1 status))))
      else (case jp_try_wait p of
              Inl e \<Rightarrow> Some ([], Inl (io_text e))
            | Inr (Some status) \<Rightarrow>
                Some (ReapedJob # (case jp_kill p of Inr _ \<Rightarrow> [KilledJob] | Inl _ \<Rightarrow> []), Inr (code_or_1 status))
            | Inr None \<Rightarrow> job_loop ps))"

definition run_windows_child ::
  "(child_command \<Rightarrow> io_error + unit) \<Rightarrow> str \<Rightarrow> str list \<Rightarrow> job_poll list \<Rightarrow>
     (guardian_effect list \<times> (str + i32)) option" where
  "run_windows_child spawn binary argv polls =
     (let command = guarded_command Windows binary argv
      in case spawn command of
           Inl _ \<Rightarrow> Some ([], Inl (lit ''start devtunnel CLI''))
         | Inr _ \<Rightarrow>
             map_option (\<lambda>(es, r). (StartedJob command # es @ [DroppedJob], r)) (job_loop polls))"

text \<open>What the operating system does for a guardian.\<close>

record guardian_env =
  ge_reads :: "stdin_read list"
  ge_var :: "str \<Rightarrow> str option"
  ge_spawn :: "child_command \<Rightarrow> io_error + u32"
  ge_polls :: "unix_poll list"
  ge_wait :: "io_error + exit_status"
  ge_spawn_job :: "child_command \<Rightarrow> io_error + unit"
  ge_job_polls :: "job_poll list"

definition run_guarded :: "platform \<Rightarrow> guardian_env \<Rightarrow> str list \<Rightarrow> (guardian_effect list \<times> (str + i32)) option" where
  "run_guarded os env argv =
     (let binary = guarded_binary (ge_var env)
      in case os of
           Unix \<Rightarrow> run_unix_child (ge_spawn env) binary argv (ge_polls env) (ge_wait env)
         | Windows \<Rightarrow> run_windows_child (ge_spawn_job env) binary argv (ge_job_polls env))"

text \<open>How the guardian process ends: \<open>Ok(())\<close>, an error, or \<open>exit(code)\<close>.\<close>

datatype guardian_end = GuardOk | GuardError str | GuardExit i32

definition guardian :: "platform \<Rightarrow> guardian_env \<Rightarrow> str list \<Rightarrow> (guardian_effect list \<times> guardian_end) option" where
  "guardian os env argv =
     (if pipe_closed (ge_reads env) then Some ([], GuardOk)
      else map_option (\<lambda>(es, r). (es, case r of
              Inl e \<Rightarrow> GuardError e
            | Inr code \<Rightarrow> if code \<noteq> 0 then GuardExit code else GuardOk)) (run_guarded os env argv))"

section \<open>Nothing outlives the owner\<close>

lemma unix_loop_ends: "p \<in> set ps \<Longrightarrow> pipe_closed (up_reads p) \<Longrightarrow> unix_loop ps"
  by (induction ps) auto

lemma job_loop_ends: "p \<in> set ps \<Longrightarrow> pipe_closed (jp_reads p) \<Longrightarrow> job_loop ps \<noteq> None"
  by (induction ps) (auto split: sum.split option.split)

text \<open>What a run of the guardian must have done to the child it started: the group was killed, before
  its leader was reaped, or the job was killed by being dropped at the very end.\<close>

definition child_ended :: "guardian_effect list \<Rightarrow> bool" where
  "child_ended es \<longleftrightarrow>
     (\<exists>c pid. es = [Started c pid, KillGroup pid] \<or> es = [Started c pid, KillGroup pid, Reaped pid]) \<or>
     (\<exists>c es'. es = StartedJob c # es' @ [DroppedJob] \<and> (\<forall>c'. StartedJob c' \<notin> set es'))"

lemma job_loop_effects: "job_loop ps = Some (es, r) \<Longrightarrow> StartedJob c \<notin> set es"
  by (induction ps arbitrary: es r) (auto split: sum.splits option.splits if_splits)

text \<open>The unix outcome in full.\<close>

lemma run_unix_child_Some:
  "run_unix_child spawn binary argv polls wait = Some (es, r) \<Longrightarrow> es = [] \<and> (\<exists>e. r = Inl e) \<or> child_ended es"
  by (auto simp: run_unix_child_def child_ended_def Let_def split: sum.splits if_splits)

lemma run_windows_child_Some:
  "run_windows_child spawn binary argv polls = Some (es, r) \<Longrightarrow> es = [] \<and> (\<exists>e. r = Inl e) \<or> child_ended es"
  by (auto simp: run_windows_child_def child_ended_def Let_def dest: job_loop_effects split: sum.splits)

lemma run_guarded_Some:
  "run_guarded os env argv = Some (es, r) \<Longrightarrow> es = [] \<and> (\<exists>e. r = Inl e) \<or> child_ended es"
  by (cases os) (auto simp: run_guarded_def Let_def dest!: run_unix_child_Some run_windows_child_Some)

text \<open>The owner's end of the liveness pipe was seen closed, before the child was started or in a round
  of the loop.\<close>

definition owner_gone :: "platform \<Rightarrow> guardian_env \<Rightarrow> bool" where
  "owner_gone os env \<longleftrightarrow>
     pipe_closed (ge_reads env) \<or>
     (case os of
        Unix \<Rightarrow> list_ex (\<lambda>p. pipe_closed (up_reads p)) (ge_polls env)
      | Windows \<Rightarrow> list_ex (\<lambda>p. pipe_closed (jp_reads p)) (ge_job_polls env))"

lemma run_guarded_ends:
  "owner_gone os env \<Longrightarrow> \<not> pipe_closed (ge_reads env) \<Longrightarrow> run_guarded os env argv \<noteq> None"
  by (cases os)
     (auto simp: owner_gone_def list_ex_iff run_guarded_def run_unix_child_def run_windows_child_def Let_def
       dest: unix_loop_ends job_loop_ends split: sum.split)


definition demo_guard :: guardian_env where
  "demo_guard =
     \<lparr>ge_reads = [], ge_var = (\<lambda>_. None), ge_spawn = (\<lambda>_. Inr 7),
      ge_polls = [\<lparr>up_reads = [ReadByte], up_result = 0, up_pid = 0\<rparr>, \<lparr>up_reads = [ReadByte, ReadEnd], up_result = 0, up_pid = 0\<rparr>],
      ge_wait = Inr \<lparr>es_code = None, es_signal = Some 9\<rparr>, ge_spawn_job = (\<lambda>_. Inr ()), ge_job_polls = []\<rparr>"

lemma demo_guard_run:
  "guardian Unix demo_guard [lit ''host''] =
     Some ([Started (guarded_command Unix (lit ''devtunnel'') [lit ''host'']) 7, KillGroup 7, Reaped 7], GuardExit 1)"
  by (simp add: guardian_def run_guarded_def run_unix_child_def demo_guard_def guarded_binary_def code_or_1_def Let_def)


section \<open>What the owner hears\<close>

text \<open>The exit status with which the guardian process ends: a failed \<open>main\<close> exits with 1, and a Unix exit
  status has eight bits.\<close>

definition guardian_status :: "platform \<Rightarrow> guardian_end \<Rightarrow> exit_status" where
  "guardian_status os how =
     (let code = (case how of GuardOk \<Rightarrow> 0 | GuardError _ \<Rightarrow> 1 | GuardExit c \<Rightarrow> c)
      in \<lparr>es_code = Some (if os = Unix then word_of_nat (unat code mod 256) else code), es_signal = None\<rparr>)"

text \<open>The status of the CLI the guardian was given by the system.\<close>

definition cli_status :: "platform \<Rightarrow> guardian_env \<Rightarrow> exit_status \<Rightarrow> bool" where
  "cli_status os env st \<longleftrightarrow>
     (case os of
        Unix \<Rightarrow> ge_wait env = Inr st
      | Windows \<Rightarrow> \<exists>p \<in> set (ge_job_polls env). jp_wait p = Inr st \<or> jp_try_wait p = Inr (Some st))"

definition reaped :: "guardian_effect list \<Rightarrow> bool" where
  "reaped es \<longleftrightarrow> ReapedJob \<in> set es \<or> (\<exists>pid. Reaped pid \<in> set es)"

lemma reaped_job: "reaped (StartedJob c # es @ [DroppedJob]) \<longleftrightarrow> reaped es"
  by (simp add: reaped_def)

lemma job_loop_reaped:
  "job_loop ps = Some (es, r) \<Longrightarrow> reaped es \<Longrightarrow>
     \<exists>p \<in> set ps. \<exists>st. (jp_wait p = Inr st \<or> jp_try_wait p = Inr (Some st)) \<and> r = Inr (code_or_1 st)"
  by (induction ps arbitrary: es r) (auto simp: reaped_def split: sum.splits option.splits if_splits)

lemma run_guarded_reaped:
  assumes "run_guarded os env argv = Some (es, r)" and "reaped es"
  shows "\<exists>st. cli_status os env st \<and> r = Inr (code_or_1 st)"
proof (cases os)
  case Unix
  then show ?thesis using assms
    by (auto simp: run_guarded_def run_unix_child_def cli_status_def reaped_def Let_def split: sum.splits if_splits)
next
  case Windows
  then obtain es' where "job_loop (ge_job_polls env) = Some (es', r)" "reaped es'"
    using assms by (auto simp: run_guarded_def run_windows_child_def reaped_job Let_def split: sum.splits) (simp add: reaped_def)
  then show ?thesis using job_loop_reaped [of "ge_job_polls env" es' r] Windows by (auto simp: cli_status_def)
qed

lemma guardian_reaped:
  assumes "guardian os env argv = Some (es, how)" and "reaped es"
  shows "\<exists>st. cli_status os env st \<and> how = (if code_or_1 st \<noteq> 0 then GuardExit (code_or_1 st) else GuardOk)"
proof -
  obtain r where r: "run_guarded os env argv = Some (es, r)"
      "how = (case r of Inl e \<Rightarrow> GuardError e | Inr code \<Rightarrow> if code \<noteq> 0 then GuardExit code else GuardOk)"
    using assms by (auto simp: guardian_def reaped_def split: if_splits)
  then show ?thesis using run_guarded_reaped [OF r(1) assms(2)] by auto
qed

lemma guardian_code:
  assumes "how = (if code_or_1 st \<noteq> 0 then GuardExit (code_or_1 st) else GuardOk)"
    and "\<And>c. os = Unix \<Longrightarrow> es_code st = Some c \<Longrightarrow> unat c < 256"
  shows "es_code (guardian_status os how) = Some (code_or_1 st)"
  using assms by (cases "es_code st") (auto simp: guardian_status_def code_or_1_def)


lemma append_shuffles: "xs @ ys \<in> shuffles xs ys"
  by (induction xs) (auto intro: Cons_in_shuffles_leftI)


end
