(* ===== verification/Broker.thy ===== *)
theory Broker
  imports Retry Ipc Guardian
begin

text \<open>
  \<open>devtunnel/client.rs\<close>: the client side of a tunnel. A proxy process asks the broker for a stream;
  the broker runs one connector process, learns from its output which ports are forwarded where,
  and gives up when it has been idle. The broker's \<open>select!\<close> loop is a step function over the
  events it waits for; the clock's reading comes with the event.
\<close>

section \<open>Reading the connector's output\<close>

definition startup_forwarding_failure :: "str \<Rightarrow> bool" where
  "startup_forwarding_failure line \<longleftrightarrow>
     contains line (lit ''System.InvalidOperationException: Port '') \<and>
     contains line (lit '' is not being forwarded.'')"

definition strip_ssh :: "str \<Rightarrow> str" where
  "strip_ssh line =
     (case strip_prefix (lit ''SSH: '') (trim line) of Some r \<Rightarrow> r | None \<Rightarrow> trim line)"

definition or_else :: "'a option \<Rightarrow> 'a option \<Rightarrow> 'a option" where
  "or_else a b = (case a of Some x \<Rightarrow> Some x | None \<Rightarrow> b)"

definition parse_bare_addr :: "str \<Rightarrow> socket_addr option" where
  "parse_bare_addr local =
     Option.bind (rsplit_once 58 local) (\<lambda>(ip, port).
       Option.bind (parse_ip ip) (\<lambda>a.
         Option.bind (parse_u16 port) (\<lambda>p. Some \<lparr>sa_ip = a, sa_port = p, sa_scope = 0\<rparr>)))"

definition listening_line :: "str \<Rightarrow> socket_addr option" where
  "listening_line line =
     (let l = strip_ssh line in
      Option.bind (or_else (strip_prefix (lit ''PortForwardingService listening on '') l)
                           (strip_prefix (lit ''PortForwardingService also listening on '') l)) (\<lambda>local0.
      Option.bind (strip_suffix [46] local0) (\<lambda>local.
      Option.bind (or_else (parse_socket_addr local) (parse_bare_addr local)) (\<lambda>address.
        if is_loopback (sa_ip address) \<and> sa_port address \<noteq> 0 then Some address else None))))"

definition forwarding_line :: "str \<Rightarrow> (u16 \<times> socket_addr) option" where
  "forwarding_line line =
     (let l = strip_ssh line in
      Option.bind (strip_prefix (lit ''Forwarding from '') l) (\<lambda>rest.
      Option.bind (split_once_str (lit '' to host port '') rest) (\<lambda>(local0, remote0).
      Option.bind (parse_socket_addr local0) (\<lambda>local.
      Option.bind (parse_u16 (case strip_suffix [46] remote0 of Some r \<Rightarrow> r | None \<Rightarrow> remote0)) (\<lambda>remote.
        if is_loopback (sa_ip local) \<and> sa_port local \<noteq> 0 \<and> remote \<noteq> 0
        then Some (remote, local) else None)))))"

section \<open>Capabilities and banners\<close>

definition same_token :: "str \<Rightarrow> str \<Rightarrow> bool" where
  "same_token a b \<longleftrightarrow>
     str_len a = str_len b \<and>
     foldl (\<lambda>d (x, y). d OR (x XOR y)) 0 (zip (as_bytes a) (as_bytes b)) = 0"

definition bytes_of :: "string \<Rightarrow> u8 list" where
  "bytes_of s = map of_char s"

definition ssh_ident :: "u8 list \<Rightarrow> bool" where
  "ssh_ident line \<longleftrightarrow>
     (prefix (bytes_of ''SSH-2.0-'') line \<or> prefix (bytes_of ''SSH-1.99-'') line) \<and> length line \<le> 255"

text \<open>The loop of \<open>read_ssh_banner\<close>: how many bytes it may still read, the stream, \<open>prefix\<close> and
  \<open>start\<close>. A short stream is a read error.\<close>

fun banner_loop :: "nat \<Rightarrow> u8 list \<Rightarrow> u8 list \<Rightarrow> nat \<Rightarrow> io_error + u8 list \<times> u8 list" where
  "banner_loop 0 s pfx start = Inl (IoError OtherKind (lit ''invalid SSH identification''))"
| "banner_loop (Suc n) [] pfx start = Inl (IoError OtherKind [])"
| "banner_loop (Suc n) (b # s) pfx start =
     (let pfx' = pfx @ [b]
      in if b = 10
         then (if ssh_ident (drop start pfx') then Inr (pfx', s)
               else banner_loop n s pfx' (length pfx'))
         else banner_loop n s pfx' start)"

definition read_ssh_banner :: "u8 list \<Rightarrow> io_error + u8 list \<times> u8 list" where
  "read_ssh_banner s = banner_loop 8192 s [] 0"

section \<open>Leases\<close>

record lease_state =
  le_count :: nat
  le_idle_until :: instant
  le_stopping :: bool

definition lease_default :: "instant \<Rightarrow> lease_state" where
  "lease_default now = \<lparr>le_count = 0, le_idle_until = now + secs 5, le_stopping = False\<rparr>"

definition lease_acquire :: "lease_state \<Rightarrow> bool \<times> lease_state" where
  "lease_acquire l = (if le_stopping l then (False, l) else (True, l\<lparr>le_count := le_count l + 1\<rparr>))"

definition lease_drop :: "instant \<Rightarrow> lease_state \<Rightarrow> lease_state" where
  "lease_drop now l =
     (let l' = l\<lparr>le_count := le_count l - 1\<rparr>
      in if le_count l' = 0 then l'\<lparr>le_idle_until := now + secs 5\<rparr> else l')"

definition begin_idle_shutdown :: "instant \<Rightarrow> lease_state \<Rightarrow> bool \<times> lease_state" where
  "begin_idle_shutdown now l =
     (let l' = (if le_count l = 0 \<and> le_idle_until l \<le> now then l\<lparr>le_stopping := True\<rparr> else l)
      in (le_stopping l', l'))"

section \<open>The connector\<close>

record forwarding =
  fw_ports :: "u16 \<rightharpoonup> socket_addr"
  fw_error :: "str option"
  fw_generation :: u64

definition forwarding_default :: forwarding where
  "forwarding_default = \<lparr>fw_ports = Map.empty, fw_error = None, fw_generation = 0\<rparr>"

text \<open>A \<open>BTreeMap\<close> keyed by addresses, as the list of its entries in key order.\<close>

definition addr_key :: "socket_addr \<Rightarrow> nat list" where
  "addr_key a =
     (case sa_ip a of
        V4 p q r s \<Rightarrow> [4, unat p, unat q, unat r, unat s]
      | V6 gs \<Rightarrow> 6 # map unat gs) @ [unat (sa_port a), unat (sa_scope a)]"

fun btree_insert :: "socket_addr \<Rightarrow> u16 \<Rightarrow> (socket_addr \<times> u16) list \<Rightarrow> (socket_addr \<times> u16) list" where
  "btree_insert k v [] = [(k, v)]"
| "btree_insert k v ((k', v') # xs) =
     (if addr_key k < addr_key k' then (k, v) # (k', v') # xs
      else if addr_key k = addr_key k' then (k, v) # xs
      else (k', v') # btree_insert k v xs)"

record active_connector =
  ac_announcements :: "(socket_addr \<times> u16) list"
  ac_listeners :: "socket_addr list"
  ac_startup_deadline :: "instant option"

datatype connector = CWaiting instant | CActive active_connector | CStopping

definition connector_stop :: "instant \<Rightarrow> connector \<Rightarrow> forwarding \<Rightarrow> connector \<times> forwarding" where
  "connector_stop now c fw =
     (case c of
        CActive _ \<Rightarrow>
          (CStopping, fw\<lparr>fw_ports := Map.empty, fw_generation := fw_generation fw + 1\<rparr>)
      | _ \<Rightarrow> (CWaiting now, fw))"

definition publish_one :: "socket_addr list \<Rightarrow> forwarding \<Rightarrow> socket_addr \<times> u16 \<Rightarrow> forwarding" where
  "publish_one listeners fw entry =
     (case entry of (local, remote) \<Rightarrow>
        if local \<in> set listeners then
          (let selected = (case fw_ports fw remote of Some a \<Rightarrow> a | None \<Rightarrow> local);
               selected' = (if is_ipv4 (sa_ip local) then local else selected)
           in fw\<lparr>fw_ports := (fw_ports fw)(remote \<mapsto> selected')\<rparr>)
        else fw)"

definition publish :: "active_connector \<Rightarrow> forwarding \<Rightarrow> forwarding" where
  "publish a fw = foldl (publish_one (ac_listeners a)) fw (ac_announcements a)"

definition ports_empty :: "forwarding \<Rightarrow> bool" where
  "ports_empty fw \<longleftrightarrow> dom (fw_ports fw) = {}"

section \<open>The broker's loop\<close>

record broker =
  bk_running :: bool
  bk_sessions :: nat
  bk_requested :: "u16 list"
  bk_connector :: connector
  bk_forwarding :: forwarding
  bk_retry :: retry
  bk_network :: network_changes
  bk_leases :: lease_state

definition broker_start :: "bool \<Rightarrow> instant \<Rightarrow> broker" where
  "broker_start watcher now =
     \<lparr>bk_running = True, bk_sessions = 0, bk_requested = [], bk_connector = CWaiting now,
      bk_forwarding = forwarding_default, bk_retry = retry_default,
      bk_network = begin_wait (network_new watcher now), bk_leases = lease_default now\<rparr>"

datatype broker_event =
    BAccepted
  | BStart u16
  | BRetry instant bool network_changes
  | BLine instant str
  | BEnded instant
  | BJoined
  | BTick instant
  | BAcquire
  | BDrop instant

text \<open>The branches of the \<open>select!\<close>. \<open>BRetry now ok n\<close> is the end of \<open>wait_until\<close>, which left the
  watcher in the state \<open>n\<close>; \<open>ok\<close> says whether the connector could be spawned. \<open>BAcquire\<close> and
  \<open>BDrop\<close> are what the session tasks do to the shared lease count.\<close>

definition on_retry :: "instant \<Rightarrow> bool \<Rightarrow> network_changes \<Rightarrow> broker \<Rightarrow> broker" where
  "on_retry now ok n b =
     (let b1 = b\<lparr>bk_network := begin_wait n\<rparr>
      in if ok
         then b1\<lparr>bk_connector := CActive \<lparr>ac_announcements = [], ac_listeners = [],
                ac_startup_deadline = Some (now + secs 30)\<rparr>\<rparr>
         else (case retry_failed now (bk_retry b1) of
                 (delay, r) \<Rightarrow> b1\<lparr>bk_retry := r, bk_connector := CWaiting (now + delay)\<rparr>))"

definition stop_connector :: "instant \<Rightarrow> broker \<Rightarrow> broker" where
  "stop_connector now b =
     (case connector_stop now (bk_connector b) (bk_forwarding b) of
        (c, fw) \<Rightarrow> b\<lparr>bk_connector := c, bk_forwarding := fw\<rparr>)"

definition begin_wait_if_started :: "active_connector \<Rightarrow> broker \<Rightarrow> broker" where
  "begin_wait_if_started a b =
     (if ac_startup_deadline a = None then b\<lparr>bk_network := begin_wait (bk_network b)\<rparr> else b)"

definition on_line :: "instant \<Rightarrow> str \<Rightarrow> broker \<Rightarrow> broker" where
  "on_line now line b =
     (case bk_connector b of
        CActive a \<Rightarrow>
          (if startup_forwarding_failure line then stop_connector now (begin_wait_if_started a b)
           else
             let a1 = (case forwarding_line line of
                         Some (remote, local) \<Rightarrow>
                           a\<lparr>ac_announcements := btree_insert local remote (ac_announcements a)\<rparr>
                       | None \<Rightarrow> a);
                 a2 = (case listening_line line of
                         Some local \<Rightarrow> a1\<lparr>ac_listeners := List.insert local (ac_listeners a1)\<rparr>
                       | None \<Rightarrow> a1)
             in b\<lparr>bk_connector := CActive a2\<rparr>)
      | _ \<Rightarrow> b)"

definition on_ended :: "instant \<Rightarrow> broker \<Rightarrow> broker" where
  "on_ended now b =
     (let b1 = (case bk_connector b of
                  CActive a \<Rightarrow> stop_connector now (begin_wait_if_started a b)
                | _ \<Rightarrow> b)
      in case retry_failed now (bk_retry b1) of
           (delay, r) \<Rightarrow> b1\<lparr>bk_retry := r, bk_connector := CWaiting (now + delay)\<rparr>)"

definition on_tick :: "instant \<Rightarrow> broker \<Rightarrow> broker" where
  "on_tick now b =
     (case begin_idle_shutdown now (bk_leases b) of
        (stopping, l) \<Rightarrow>
          (if stopping then b\<lparr>bk_leases := l, bk_running := False\<rparr>
           else
             let b1 = b\<lparr>bk_leases := l\<rparr>
             in case bk_connector b1 of
                  CActive a \<Rightarrow>
                    (let fw = publish a (bk_forwarding b1); b2 = b1\<lparr>bk_forwarding := fw\<rparr>
                     in if \<not> ports_empty fw
                        then b2\<lparr>bk_connector := CActive (a\<lparr>ac_startup_deadline := None\<rparr>),
                                bk_retry := retry_ready now (bk_retry b2)\<rparr>
                        else if (case ac_startup_deadline a of Some d \<Rightarrow> d \<le> now | None \<Rightarrow> False)
                          then stop_connector now b2
                        else b2)
                | _ \<Rightarrow> b1))"

fun broker_step :: "broker \<Rightarrow> broker_event \<Rightarrow> broker" where
  "broker_step b BAccepted = (if bk_sessions b \<ge> 256 then b else b\<lparr>bk_sessions := bk_sessions b + 1\<rparr>)"
| "broker_step b (BStart port) = b\<lparr>bk_requested := List.insert port (bk_requested b)\<rparr>"
| "broker_step b (BRetry now ok n) = on_retry now ok n b"
| "broker_step b (BLine now line) = on_line now line b"
| "broker_step b (BEnded now) = on_ended now b"
| "broker_step b BJoined = b\<lparr>bk_sessions := bk_sessions b - 1\<rparr>"
| "broker_step b (BTick now) = on_tick now b"
| "broker_step b BAcquire = b\<lparr>bk_leases := snd (lease_acquire (bk_leases b))\<rparr>"
| "broker_step b (BDrop now) = b\<lparr>bk_leases := lease_drop now (bk_leases b)\<rparr>"

text \<open>Which events can come: the wait only runs for a waiting connector with something requested,
  a waiting connector has no output, leases are dropped by those who hold one, and the
  generation counter is far from its end.\<close>

fun broker_adm :: "broker \<Rightarrow> broker_event \<Rightarrow> bool" where
  "broker_adm b (BRetry now ok n) =
     (bk_running b \<and> bk_requested b \<noteq> [] \<and> (\<exists>t. bk_connector b = CWaiting t))"
| "broker_adm b (BLine now line) =
     (bk_running b \<and> (\<forall>t. bk_connector b \<noteq> CWaiting t) \<and> unat (fw_generation (bk_forwarding b)) < 2 ^ 64 - 1)"
| "broker_adm b (BEnded now) =
     (bk_running b \<and> (\<forall>t. bk_connector b \<noteq> CWaiting t) \<and> unat (fw_generation (bk_forwarding b)) < 2 ^ 64 - 1)"
| "broker_adm b (BTick now) = (bk_running b \<and> unat (fw_generation (bk_forwarding b)) < 2 ^ 64 - 1)"
| "broker_adm b BJoined = (bk_running b \<and> 0 < bk_sessions b)"
| "broker_adm b (BDrop now) = (0 < le_count (bk_leases b))"
| "broker_adm b BAcquire = True"
| "broker_adm b _ = bk_running b"

section \<open>Serving a request\<close>

datatype serve_outcome =
    BadToken | NoLease | Refused str | Serving

text \<open>The checks of \<open>serve\<close> before anything is started, in their order, with the effect on the
  leases.\<close>

definition serve_admit :: "str \<Rightarrow> ipc_request \<Rightarrow> lease_state \<Rightarrow> serve_outcome \<times> lease_state" where
  "serve_admit token request l =
     (if \<not> same_token (rq_token request) token then (BadToken, l)
      else case lease_acquire l of
             (False, l') \<Rightarrow> (NoLease, l')
           | (True, l') \<Rightarrow>
               (if rq_version request \<noteq> VERSION then (Refused (lit ''incompatible sshdt tunnel manager''), l')
                else if rq_remote_port request = 0 \<or> rq_local_port request = Some 0
                  then (Refused (lit ''invalid port''), l')
                else (Serving, l')))"

text \<open>One round of the loop in \<open>serve\<close> on a snapshot of the forwarding: an error ends it, a
  forwarded port gives the address to dial, otherwise it waits for a change.\<close>

datatype serve_round = RoundError str | RoundDial socket_addr u64 | RoundWait

definition serve_round_of :: "ipc_request \<Rightarrow> forwarding \<Rightarrow> serve_round" where
  "serve_round_of request fw =
     (case fw_error fw of
        Some e \<Rightarrow> RoundError e
      | None \<Rightarrow>
          (case fw_ports fw (rq_remote_port request) of
             Some address \<Rightarrow>
               RoundDial (case rq_local_port request of
                            Some port \<Rightarrow> \<lparr>sa_ip = ipv4_localhost, sa_port = port, sa_scope = 0\<rparr>
                          | None \<Rightarrow> address) (fw_generation fw)
           | None \<Rightarrow> RoundWait))"

text \<open>A connection made for a snapshot is only used while the generation is the same.\<close>

definition serve_accept :: "u64 \<Rightarrow> forwarding \<Rightarrow> bool" where
  "serve_accept generation now_fw \<longleftrightarrow> fw_generation now_fw = generation"

section \<open>Relays\<close>

text \<open>Live relays by local port; a relay whose users are gone is dead.\<close>

type_synonym relays = "(u16 \<times> (u16 \<times> bool)) list"

definition ensure_relay :: "(u16 \<Rightarrow> bool) \<Rightarrow> relays \<Rightarrow> u16 \<Rightarrow> u16 \<Rightarrow> str + relays" where
  "ensure_relay can_bind rs port remote_port =
     (let live = filter (\<lambda>(p, remote, alive). alive) rs
      in case map_of live port of
           Some (remote, _) \<Rightarrow>
             (if remote = remote_port then Inr live
              else Inl (lit ''local port '' @ show_nat (unat port) @ lit '' already routes to a different destination''))
         | None \<Rightarrow>
             (if can_bind port then Inr ((port, remote_port, True) # live)
              else Inl (lit ''local port '' @ show_nat (unat port) @ lit '' is unavailable'')))"

section \<open>The proxy\<close>

record proxy_request =
  px_tunnel :: str
  px_remote_port :: u16
  px_local_port :: "u16 option"
  px_timeout :: duration

definition proxy_check :: "proxy_request \<Rightarrow> str + unit" where
  "proxy_check r =
     rbind (validate_tunnel_id (px_tunnel r)) (\<lambda>_.
       if \<not> (px_remote_port r \<noteq> 0 \<and> px_local_port r \<noteq> Some 0)
       then Inl (lit ''port must be between 1 and 65535'')
       else if px_timeout r = 0 then Inl (lit ''timeout must be positive'')
       else Inr ())"

datatype try_lock = LockOk | LockWouldBlock | LockError io_error

definition broker_lock_held :: "try_lock \<Rightarrow> io_error + bool" where
  "broker_lock_held r =
     (case r of LockOk \<Rightarrow> Inr False | LockWouldBlock \<Rightarrow> Inr True | LockError e \<Rightarrow> Inl e)"

text \<open>What the proxy makes of the broker's answer.\<close>

definition check_response :: "ipc_response \<Rightarrow> str + unit" where
  "check_response r =
     (if rs_version r \<noteq> VERSION
      then Inl (lit ''incompatible sshdt tunnel manager; close existing sessions before retrying'')
      else case rs_error r of Some e \<Rightarrow> Inl e | None \<Rightarrow> Inr ())"

definition hello :: "proxy_request \<Rightarrow> endpoint \<Rightarrow> ipc_request" where
  "hello r ep = \<lparr>rq_version = VERSION, rq_token = ep_token ep,
     rq_remote_port = px_remote_port r, rq_local_port = px_local_port r\<rparr>"

section \<open>Capabilities\<close>

lemma same_token_bytes: "same_token a b \<longleftrightarrow> as_bytes a = as_bytes b"
  by (auto simp: same_token_def length_as_bytes [symmetric] fold_or_xor_0)

interpretation token_eq: byte_equality same_token as_bytes
  by unfold_locales (rule same_token_bytes)

text \<open>
  C13. Only the holder of the capability is served: a request with another token changes nothing
  and starts nothing; one with the right token is served only with the right version and valid
  ports, and only while the broker is not stopping.
\<close>

theorem serve_needs_capability:
  assumes "valid_str token" and "valid_str (rq_token request)"
  shows "(fst (serve_admit token request l) = Serving \<longleftrightarrow>
      rq_token request = token \<and> \<not> le_stopping l \<and> rq_version request = VERSION \<and>
      rq_remote_port request \<noteq> 0 \<and> rq_local_port request \<noteq> Some 0) \<and>
    (rq_token request \<noteq> token \<longrightarrow> serve_admit token request l = (BadToken, l))"
proof -
  have "same_token (rq_token request) token \<longleftrightarrow> rq_token request = token"
    using token_eq.same_iff_eq [OF as_bytes_inj] assms by simp
  then show ?thesis by (auto simp: serve_admit_def lease_acquire_def)
qed

theorem serve_needs_capability_witness:
  "fst (serve_admit (lit ''ab'') \<lparr>rq_version = 1, rq_token = lit ''ab'', rq_remote_port = 22, rq_local_port = None\<rparr>
     (lease_default 0)) = Serving"
  using serve_needs_capability [of "lit ''ab''"
      "\<lparr>rq_version = 1, rq_token = lit ''ab'', rq_remote_port = 22, rq_local_port = None\<rparr>" "lease_default 0"]
  by (simp add: text_eval valid_str_def scalar_def lease_default_def VERSION_def)

section \<open>Banners\<close>

lemma banner_loop_ok:
  assumes "banner_loop n s pfx start = Inr (p, r)" and "start \<le> length pfx"
  shows "p @ r = pfx @ s \<and> length p \<le> length pfx + n \<and> (\<exists>st. start \<le> st \<and> ssh_ident (drop st p))"
  using assms
proof (induction n arbitrary: s pfx start)
  case (Suc n)
  obtain b s' where s: "s = b # s'" using Suc.prems by (cases s) auto
  show ?case
  proof (cases "b = 10 \<and> ssh_ident (drop start (pfx @ [b]))")
    case True
    then have "p = pfx @ [b] \<and> r = s'" using Suc.prems(1) by (auto simp: s Let_def)
    then show ?thesis using True s by (intro conjI exI [of _ start]) auto
  next
    case False
    let ?st = "if b = 10 then Suc (length pfx) else start"
    have "banner_loop n s' (pfx @ [b]) ?st = Inr (p, r)"
      using False Suc.prems by (auto simp: s Let_def)
    then have ih: "p @ r = (pfx @ [b]) @ s' \<and> length p \<le> length (pfx @ [b]) + n \<and>
        (\<exists>st. ?st \<le> st \<and> ssh_ident (drop st p))"
      using Suc.prems(2) by (intro Suc.IH) auto
    then obtain st where "?st \<le> st" "ssh_ident (drop st p)" by blast
    moreover have "start \<le> ?st" using Suc.prems(2) by simp
    ultimately have "start \<le> st \<and> ssh_ident (drop st p)" by (metis le_trans)
    then show ?thesis using ih by (intro conjI exI [of _ st]) (simp_all add: s)
  qed
qed simp

text \<open>
  Probing the SSH banner loses nothing: what was read and what is still in the stream make
  up the stream, at most 8192 bytes were read, and they end in an SSH identification line of at
  most 255 bytes.
\<close>

theorem read_ssh_banner_ok:
  assumes "read_ssh_banner stream = Inr (pfx, rest)"
  shows "stream = pfx @ rest \<and> length pfx \<le> 8192 \<and> (\<exists>start. ssh_ident (drop start pfx))"
  using banner_loop_ok [of 8192 stream "[]" 0 pfx rest] assms by (auto simp: read_ssh_banner_def)

section \<open>The broker's invariant\<close>

definition addr_ok :: "socket_addr \<Rightarrow> bool" where
  "addr_ok a \<longleftrightarrow> is_loopback (sa_ip a) \<and> sa_port a \<noteq> 0"

lemma forwarding_line_ok: "forwarding_line line = Some (remote, local) \<Longrightarrow> addr_ok local \<and> remote \<noteq> 0"
  by (auto simp: forwarding_line_def addr_ok_def Let_def Option.bind_eq_Some_conv split: if_splits)

definition good_route :: "active_connector \<Rightarrow> u16 \<Rightarrow> socket_addr \<Rightarrow> bool" where
  "good_route a remote local \<longleftrightarrow> addr_ok local \<and> remote \<noteq> 0 \<and> local \<in> set (ac_listeners a)"

definition routes_ok :: "connector \<Rightarrow> forwarding \<Rightarrow> bool" where
  "routes_ok c fw \<longleftrightarrow>
     (case c of
        CActive a \<Rightarrow>
          (\<forall>(local, remote) \<in> set (ac_announcements a). addr_ok local \<and> remote \<noteq> 0) \<and>
          (\<forall>remote local. fw_ports fw remote = Some local \<longrightarrow> good_route a remote local)
      | _ \<Rightarrow> fw_ports fw = Map.empty)"

definition broker_inv :: "broker \<Rightarrow> bool" where
  "broker_inv b \<longleftrightarrow>
     routes_ok (bk_connector b) (bk_forwarding b) \<and> retry_inv (bk_retry b) \<and> bk_sessions b \<le> 256 \<and>
     (le_stopping (bk_leases b) \<longrightarrow> le_count (bk_leases b) = 0) \<and>
     (\<not> bk_running b \<longrightarrow> le_stopping (bk_leases b))"

lemma btree_insert_set: "set (btree_insert k v xs) \<subseteq> insert (k, v) (set xs)"
  by (induction k v xs rule: btree_insert.induct) (auto split: if_split_asm)

lemma publish_one_good:
  assumes "\<forall>remote local. fw_ports fw remote = Some local \<longrightarrow> good_route a remote local"
    and "addr_ok (fst entry) \<and> snd entry \<noteq> 0"
  shows "\<forall>remote local. fw_ports (publish_one (ac_listeners a) fw entry) remote = Some local \<longrightarrow>
    good_route a remote local"
  using assms
  by (auto simp: publish_one_def good_route_def Let_def split: prod.splits if_splits option.splits)

lemma publish_good:
  assumes "\<forall>remote local. fw_ports fw remote = Some local \<longrightarrow> good_route a remote local"
    and "\<forall>(local, remote) \<in> set es. addr_ok local \<and> remote \<noteq> 0"
  shows "\<forall>remote local. fw_ports (foldl (publish_one (ac_listeners a)) fw es) remote = Some local \<longrightarrow>
    good_route a remote local"
  using assms
proof (induction es arbitrary: fw)
  case (Cons e es)
  then show ?case using publish_one_good [OF Cons.prems(1), of e] by (simp add: case_prod_unfold)
qed simp

lemma publish_routes: "routes_ok (CActive a) fw \<Longrightarrow> routes_ok (CActive a) (publish a fw)"
  using publish_good [of fw a "ac_announcements a"] by (simp add: routes_ok_def publish_def)

lemma stop_routes: "connector_stop now c fw = (c', fw') \<Longrightarrow> routes_ok c fw \<Longrightarrow> routes_ok c' fw'"
  by (auto simp: connector_stop_def routes_ok_def split: connector.splits)

lemma stop_connector_inv [inv_intros]: "broker_inv b \<Longrightarrow> broker_inv (stop_connector now b)"
  by (auto simp: broker_inv_def stop_connector_def split: prod.splits intro: stop_routes)

lemma begin_wait_if_started_simps [simp]:
  "broker_inv (begin_wait_if_started a b) = broker_inv b"
  "bk_connector (begin_wait_if_started a b) = bk_connector b"
  "bk_forwarding (begin_wait_if_started a b) = bk_forwarding b"
  by (simp_all add: begin_wait_if_started_def broker_inv_def)

lemma routes_deadline: "routes_ok (CActive (a\<lparr>ac_startup_deadline := d\<rparr>)) fw \<longleftrightarrow> routes_ok (CActive a) fw"
  by (simp add: routes_ok_def good_route_def)

lemma on_line_inv:
  assumes "broker_inv b"
  shows "broker_inv (on_line now line b)"
proof (cases "\<exists>a. bk_connector b = CActive a \<and> \<not> startup_forwarding_failure line")
  case False
  then show ?thesis
    using assms stop_connector_inv by (auto simp: on_line_def split: connector.splits)
next
  case True
  then obtain a where a: "bk_connector b = CActive a" "\<not> startup_forwarding_failure line" by blast
  let ?a1 = "case forwarding_line line of
      Some (remote, local) \<Rightarrow> a\<lparr>ac_announcements := btree_insert local remote (ac_announcements a)\<rparr> | None \<Rightarrow> a"
  let ?a2 = "case listening_line line of
      Some local \<Rightarrow> ?a1\<lparr>ac_listeners := List.insert local (ac_listeners ?a1)\<rparr> | None \<Rightarrow> ?a1"
  have r: "routes_ok (CActive a) (bk_forwarding b)" using assms a by (simp add: broker_inv_def)
  have r1: "routes_ok (CActive ?a1) (bk_forwarding b)"
  proof (cases "forwarding_line line")
    case (Some rl)
    then obtain remote local where rl: "forwarding_line line = Some (remote, local)" by (cases rl) auto
    then show ?thesis
      using r forwarding_line_ok [OF rl] btree_insert_set [of local remote "ac_announcements a"]
      by (auto simp: routes_ok_def good_route_def)
  qed (use r in simp)
  have "routes_ok (CActive ?a2) (bk_forwarding b)"
    using r1 by (cases "listening_line line") (auto simp: routes_ok_def good_route_def)
  moreover have "on_line now line b = b\<lparr>bk_connector := CActive ?a2\<rparr>" using a by (simp add: on_line_def Let_def)
  ultimately show ?thesis using assms by (simp add: broker_inv_def)
qed

lemma wait_after_failure_inv:
  "broker_inv b \<Longrightarrow> fw_ports (bk_forwarding b) = Map.empty \<Longrightarrow>
   broker_inv (case retry_failed now (bk_retry b) of (delay, r) \<Rightarrow> b\<lparr>bk_retry := r, bk_connector := CWaiting (now + delay)\<rparr>)"
  using retry_failed_inv [of "bk_retry b" now]
  by (auto simp: broker_inv_def routes_ok_def split: prod.splits)

lemma stop_connector_ports: "bk_connector b = CActive a \<Longrightarrow> fw_ports (bk_forwarding (stop_connector now b)) = Map.empty"
  by (simp add: stop_connector_def connector_stop_def)

lemma on_ended_inv:
  assumes "broker_inv b"
  shows "broker_inv (on_ended now b)"
proof (cases "bk_connector b")
  case (CActive a)
  then show ?thesis
    using assms wait_after_failure_inv [of "stop_connector now (begin_wait_if_started a b)" now]
      stop_connector_inv [of "begin_wait_if_started a b" now] stop_connector_ports [of "begin_wait_if_started a b" a now]
    by (simp add: on_ended_def Let_def)
qed (use assms wait_after_failure_inv [of b now] in \<open>auto simp: on_ended_def Let_def broker_inv_def routes_ok_def\<close>)

lemma on_retry_inv:
  assumes "broker_inv b" and "bk_connector b = CWaiting t"
  shows "broker_inv (on_retry now ok n b)"
proof -
  let ?b = "b\<lparr>bk_network := begin_wait n\<rparr>"
  have "broker_inv ?b" and e: "fw_ports (bk_forwarding ?b) = Map.empty"
    using assms by (simp_all add: broker_inv_def routes_ok_def)
  then show ?thesis
    using wait_after_failure_inv [of ?b now]
    by (cases ok) (simp add: on_retry_def Let_def broker_inv_def routes_ok_def, simp add: on_retry_def Let_def)
qed

lemma on_tick_inv:
  assumes "broker_inv b"
  shows "broker_inv (on_tick now b)"
proof -
  obtain stopping l where l: "begin_idle_shutdown now (bk_leases b) = (stopping, l)" by (metis prod.exhaust)
  have lo: "le_stopping l = stopping" "le_stopping l \<longrightarrow> le_count l = 0"
    using l assms by (auto simp: begin_idle_shutdown_def broker_inv_def Let_def split: if_splits)
  show ?thesis
  proof (cases "stopping \<or> (\<forall>a. bk_connector b \<noteq> CActive a)")
    case True
    have "\<not> stopping \<Longrightarrow> bk_running b" using l assms
      by (auto simp: begin_idle_shutdown_def broker_inv_def Let_def split: if_splits)
    with True assms lo show ?thesis
      by (auto simp: on_tick_def l broker_inv_def Let_def split: connector.splits)
  next
    case False
    then obtain a where a: "bk_connector b = CActive a" "\<not> stopping" by blast
    have run: "bk_running b" using a(2) l assms
      by (auto simp: begin_idle_shutdown_def broker_inv_def Let_def split: if_splits)
    let ?b2 = "b\<lparr>bk_leases := l, bk_forwarding := publish a (bk_forwarding b)\<rparr>"
    have b2: "broker_inv ?b2"
      using assms lo a run publish_routes [of a "bk_forwarding b"] by (simp add: broker_inv_def)
    moreover have "broker_inv (?b2\<lparr>bk_connector := CActive (a\<lparr>ac_startup_deadline := None\<rparr>),
        bk_retry := retry_ready now (bk_retry ?b2)\<rparr>)"
      using b2 a by (simp add: broker_inv_def routes_deadline) (simp add: retry_inv_def retry_ready_def)
    ultimately show ?thesis
      using a l stop_connector_inv [OF b2] by (simp add: on_tick_def Let_def split: option.split)
  qed
qed

interpretation broker_system: step_system broker_adm broker_step broker_inv
proof
  fix b e assume b: "broker_inv b" "broker_adm b e"
  then show "broker_inv (broker_step b e)"
  proof (cases e)
    case (BRetry now ok n)
    then show ?thesis using b on_retry_inv by auto
  next
    case (BDrop now)
    then show ?thesis using b by (auto simp: broker_inv_def lease_drop_def Let_def)
  qed (auto simp: on_line_inv on_ended_inv on_tick_inv, auto simp: broker_inv_def lease_acquire_def)
qed

lemma broker_start_inv [inv_intros]: "broker_inv (broker_start watcher now)"
  by (simp add: broker_inv_def broker_start_def routes_ok_def forwarding_default_def lease_default_def
      retry_inv_def retry_default_def secs_def)

section \<open>Properties of the broker\<close>

text \<open>The clauses of the invariant that concern a published route.\<close>

lemma inv_route:
  assumes "broker_inv b" and "fw_ports (bk_forwarding b) remote = Some local"
  shows "\<exists>a. bk_connector b = CActive a \<and> local \<in> set (ac_listeners a) \<and> is_loopback (sa_ip local) \<and>
    sa_port local \<noteq> 0 \<and> remote \<noteq> 0"
  using assms by (auto simp: broker_inv_def routes_ok_def good_route_def addr_ok_def split: connector.splits)

text \<open>
  C12. The broker only hands out addresses of its own machine that the running connector listens
  on: along every run, a published route has a loopback address with a non-zero port that the
  connector reported as listening, and there are no routes while no connector is running.
\<close>

theorem broker_routes_loopback:
  assumes "run_ok broker_adm broker_step (broker_start watcher now) es"
    and "fw_ports (bk_forwarding (foldl broker_step (broker_start watcher now) es)) remote = Some local"
  shows "\<exists>a. bk_connector (foldl broker_step (broker_start watcher now) es) = CActive a \<and>
    local \<in> set (ac_listeners a) \<and> is_loopback (sa_ip local) \<and> sa_port local \<noteq> 0 \<and> remote \<noteq> 0"
  using inv_route [OF broker_system.run_inv [OF broker_start_inv assms(1)] assms(2)] .

definition demo_events :: "broker_event list" where
  "demo_events =
     [BAcquire, BStart 2222, BRetry 0 True (network_new False 0),
      BLine 1 (lit ''SSH: Forwarding from 127.0.0.1:2223 to host port 2222.''),
      BLine 2 (lit ''SSH: PortForwardingService listening on 127.0.0.1:2223.''), BTick 100]"

lemma demo_forwarding:
  "forwarding_line (lit ''SSH: Forwarding from 127.0.0.1:2223 to host port 2222.'') =
     Some (2222, \<lparr>sa_ip = V4 127 0 0 1, sa_port = 2223, sa_scope = 0\<rparr>)"
  by (simp add: forwarding_line_def strip_ssh_def text_eval Let_def)

lemma demo_listening:
  "listening_line (lit ''SSH: PortForwardingService listening on 127.0.0.1:2223.'') =
     Some \<lparr>sa_ip = V4 127 0 0 1, sa_port = 2223, sa_scope = 0\<rparr>"
  by (simp add: listening_line_def strip_ssh_def or_else_def text_eval Let_def)

lemma demo_other_lines:
  "listening_line (lit ''SSH: Forwarding from 127.0.0.1:2223 to host port 2222.'') = None"
  "forwarding_line (lit ''SSH: PortForwardingService listening on 127.0.0.1:2223.'') = None"
  "\<not> startup_forwarding_failure (lit ''SSH: Forwarding from 127.0.0.1:2223 to host port 2222.'')"
  "\<not> startup_forwarding_failure (lit ''SSH: PortForwardingService listening on 127.0.0.1:2223.'')"
  by (simp_all add: listening_line_def forwarding_line_def startup_forwarding_failure_def strip_ssh_def
      or_else_def text_eval Let_def)

lemmas demo_eval = demo_events_def broker_start_def on_retry_def on_line_def on_tick_def
  demo_forwarding demo_listening demo_other_lines lease_acquire_def lease_default_def
  begin_idle_shutdown_def publish_def publish_one_def ports_empty_def forwarding_default_def
  secs_def Let_def

lemma demo_events_ok: "run_ok broker_adm broker_step (broker_start False 0) demo_events"
  by (simp add: demo_eval)

lemma demo_events_route:
  "fw_ports (bk_forwarding (foldl broker_step (broker_start False 0) demo_events)) 2222 =
     Some \<lparr>sa_ip = V4 127 0 0 1, sa_port = 2223, sa_scope = 0\<rparr>"
  by (simp add: demo_eval)

theorem broker_routes_loopback_witness:
  "\<exists>a. bk_connector (foldl broker_step (broker_start False 0) demo_events) = CActive a \<and>
     \<lparr>sa_ip = V4 127 0 0 1, sa_port = 2223, sa_scope = 0\<rparr> \<in> set (ac_listeners a)"
  using broker_routes_loopback [OF demo_events_ok demo_events_route] by blast

text \<open>What a step does to the routes and their generation: it keeps the generation and every
  routed port, or it moves the generation on.\<close>

definition keeps_routes :: "forwarding \<Rightarrow> forwarding \<Rightarrow> bool" where
  "keeps_routes fw fw' \<longleftrightarrow>
     (fw_generation fw' = fw_generation fw \<and> dom (fw_ports fw) \<subseteq> dom (fw_ports fw')) \<or>
     fw_generation fw' = fw_generation fw + 1"

lemma keeps_routes_refl [simp]: "keeps_routes fw fw"
  by (simp add: keeps_routes_def)

lemma publish_keeps: "keeps_routes fw (publish a fw)"
proof -
  have "fw_generation (foldl (publish_one ls) fw es) = fw_generation fw \<and>
      dom (fw_ports fw) \<subseteq> dom (fw_ports (foldl (publish_one ls) fw es))" for ls es
  proof (induction es arbitrary: fw)
    case (Cons e es)
    have "fw_generation (publish_one ls fw e) = fw_generation fw \<and>
        dom (fw_ports fw) \<subseteq> dom (fw_ports (publish_one ls fw e))"
      by (auto simp: publish_one_def Let_def split: prod.splits)
    then show ?case using Cons.IH [of "publish_one ls fw e"] by auto
  qed simp
  then show ?thesis by (simp add: publish_def keeps_routes_def)
qed

lemma publish_stop_keeps:
  "keeps_routes fw (bk_forwarding (stop_connector now (b\<lparr>bk_forwarding := publish a fw\<rparr>)))"
proof -
  have "fw_generation (publish a fw) = fw_generation fw \<or> fw_generation (publish a fw) = fw_generation fw + 1"
    using publish_keeps [of fw a] by (auto simp: keeps_routes_def)
  moreover have "fw_generation (publish a fw) = fw_generation fw"
  proof -
    have "fw_generation (foldl (publish_one ls) fw es) = fw_generation fw" for ls es
      by (induction es arbitrary: fw) (auto simp: publish_one_def Let_def split: prod.splits)
    then show ?thesis by (simp add: publish_def)
  qed
  ultimately show ?thesis
    using publish_keeps [of fw a]
    by (auto simp: keeps_routes_def stop_connector_def connector_stop_def split: connector.splits)
qed

lemma stop_keeps: "keeps_routes (bk_forwarding b) (bk_forwarding (stop_connector now b))"
  by (auto simp: keeps_routes_def stop_connector_def connector_stop_def split: connector.splits)

lemma broker_step_keeps: "keeps_routes (bk_forwarding b) (bk_forwarding (broker_step b e))"
proof (cases e)
  case (BLine now line)
  then show ?thesis
    using stop_keeps [of "begin_wait_if_started _ b" now]
    by (auto simp: on_line_def Let_def split: connector.splits)
next
  case (BEnded now)
  then show ?thesis
    using stop_keeps [of "begin_wait_if_started _ b" now]
    by (auto simp: on_ended_def Let_def split: connector.splits prod.splits)
next
  case (BTick now)
  then show ?thesis
    using publish_keeps publish_stop_keeps
    by (auto simp: on_tick_def Let_def split: connector.splits prod.splits option.splits)
qed (auto simp: on_retry_def Let_def split: prod.splits)

lemma generation_step:
  assumes "broker_adm b e"
  shows "unat (fw_generation (bk_forwarding b)) \<le> unat (fw_generation (bk_forwarding (broker_step b e)))"
    and "fw_generation (bk_forwarding (broker_step b e)) = fw_generation (bk_forwarding b) \<Longrightarrow>
      dom (fw_ports (bk_forwarding b)) \<subseteq> dom (fw_ports (bk_forwarding (broker_step b e)))"
proof -
  let ?g = "fw_generation (bk_forwarding b)" and ?g' = "fw_generation (bk_forwarding (broker_step b e))"
  note keep = broker_step_keeps [of b e, unfolded keeps_routes_def]
  have "?g' = ?g \<or> unat ?g < 2 ^ 64 - 1"
    using assms by (cases e) (auto simp: on_retry_def Let_def split: prod.splits)
  then show "unat ?g \<le> unat ?g'"
    using keep by (auto simp: unat_word_ariths)
  have "?g + 1 \<noteq> ?g" by simp
  then show "dom (fw_ports (bk_forwarding b)) \<subseteq> dom (fw_ports (bk_forwarding (broker_step b e)))" if "?g' = ?g"
    using keep that by auto
qed

interpretation broker_gen: monotone_system broker_adm broker_step broker_inv
  "\<lambda>b. unat (fw_generation (bk_forwarding b))"
  by unfold_locales (rule generation_step(1))

lemma run_keeps_routes:
  assumes "broker_inv b" and "run_ok broker_adm broker_step b es"
    and "fw_generation (bk_forwarding (foldl broker_step b es)) = fw_generation (bk_forwarding b)"
  shows "dom (fw_ports (bk_forwarding b)) \<subseteq> dom (fw_ports (bk_forwarding (foldl broker_step b es)))"
  using assms
proof (induction es arbitrary: b)
  case (Cons e es)
  let ?b = "broker_step b e"
  have adm: "broker_adm b e" and ok: "run_ok broker_adm broker_step ?b es" using Cons.prems(2) by simp_all
  have inv: "broker_inv ?b" using broker_system.step_inv [OF Cons.prems(1) adm] .
  have "unat (fw_generation (bk_forwarding b)) \<le> unat (fw_generation (bk_forwarding ?b))"
    by (rule generation_step(1) [OF adm])
  moreover have "unat (fw_generation (bk_forwarding ?b)) \<le>
      unat (fw_generation (bk_forwarding (foldl broker_step ?b es)))"
    using broker_gen.run_mono [OF inv ok] .
  ultimately have same: "fw_generation (bk_forwarding ?b) = fw_generation (bk_forwarding b)"
    using Cons.prems(3) by (simp add: word_unat_eq_iff)
  then show ?case
    using generation_step(2) [OF adm same] Cons.IH [OF inv ok] Cons.prems(3) by auto
qed simp

text \<open>
  A stream is bound to the connector it was opened through: the generation never goes back,
  and as long as it is the same, every port that was routed is still routed; so a session that
  compares generations notices every loss of its route.
\<close>

theorem routes_kept_within_generation:
  assumes "run_ok broker_adm broker_step (broker_start watcher now) (xs @ ys)"
    and "b = foldl broker_step (broker_start watcher now) xs" and "b' = foldl broker_step b ys"
  shows "unat (fw_generation (bk_forwarding b)) \<le> unat (fw_generation (bk_forwarding b')) \<and>
    (serve_accept (fw_generation (bk_forwarding b)) (bk_forwarding b') \<longrightarrow>
       dom (fw_ports (bk_forwarding b)) \<subseteq> dom (fw_ports (bk_forwarding b')))"
proof -
  have inv: "broker_inv b"
    using broker_system.run_inv_along [OF broker_start_inv assms(1)] by (simp add: assms(2))
  have ok: "run_ok broker_adm broker_step b ys"
    using assms(1) by (simp add: run_ok_append assms(2))
  show ?thesis
    using broker_gen.run_mono [OF inv ok] run_keeps_routes [OF inv ok]
    by (simp add: assms(3) serve_accept_def)
qed

theorem routes_kept_within_generation_witness:
  "unat (fw_generation (bk_forwarding (foldl broker_step (broker_start False 0) (take 5 demo_events)))) \<le>
   unat (fw_generation (bk_forwarding (foldl broker_step (foldl broker_step (broker_start False 0) (take 5 demo_events))
     (drop 5 demo_events))))"
  using routes_kept_within_generation [of False 0 "take 5 demo_events" "drop 5 demo_events"] demo_events_ok
  by simp

text \<open>
  The broker stops only when nobody uses it: when its loop has ended no lease is held, none
  can be taken any more, and it had been without a lease until the idle time was over.
\<close>

theorem broker_stops_idle:
  assumes "run_ok broker_adm broker_step (broker_start watcher now) es"
    and "b = foldl broker_step (broker_start watcher now) es" and "\<not> bk_running b"
  shows "le_count (bk_leases b) = 0 \<and> lease_acquire (bk_leases b) = (False, bk_leases b)"
  using broker_system.run_inv [OF broker_start_inv assms(1)] assms(2,3)
  by (simp add: broker_inv_def lease_acquire_def)

theorem broker_stops_idle_witness:
  "le_count (bk_leases (foldl broker_step (broker_start False 0) [BTick 5000])) = 0"
  using broker_stops_idle [of False 0 "[BTick 5000]"]
  by (simp add: broker_start_def on_tick_def begin_idle_shutdown_def lease_default_def secs_def Let_def
      forwarding_default_def)

section \<open>Relays\<close>

text \<open>
  A local port leads to one place: a relay is only created on a port that has no live relay,
  an existing one is only shared for the same destination, and after every successful call the
  port routes to the requested destination while every other live relay is unchanged.
\<close>

theorem ensure_relay_exclusive:
  assumes "ensure_relay can_bind rs port remote = Inr rs'"
  shows "map_of rs' port = Some (remote, True) \<and>
    (\<forall>p. p \<noteq> port \<longrightarrow> map_of rs' p = map_of (filter (\<lambda>(p, remote, alive). alive) rs) p) \<and>
    (\<forall>old. map_of (filter (\<lambda>(p, remote, alive). alive) rs) port = Some old \<longrightarrow> fst old = remote)"
proof -
  have alive: "snd old" if "map_of (filter (\<lambda>(p, remote, alive). alive) rs) port = Some old" for old
    using map_of_SomeD [OF that] by auto
  show ?thesis
    using assms alive by (auto simp: ensure_relay_def Let_def split: option.splits if_splits prod.splits)
qed

theorem ensure_relay_exclusive_witness:
  "\<exists>rs'. ensure_relay (\<lambda>_. True) [(2222, 22, True), (80, 8080, False)] 80 22 = Inr rs' \<and>
     map_of rs' 80 = Some (22, True)"
proof -
  have r: "ensure_relay (\<lambda>_. True) [(2222, 22, True), (80, 8080, False)] 80 22 = Inr [(80, 22, True), (2222, 22, True)]"
    by (simp add: ensure_relay_def Let_def)
  show ?thesis using r ensure_relay_exclusive [OF r] by blast
qed

lemma banner_loop_numeral:
  "banner_loop (numeral k) (b # s) pfx start =
     (let pfx' = pfx @ [b]
      in if b = 10
         then (if ssh_ident (drop start pfx') then Inr (pfx', s)
               else banner_loop (pred_numeral k) s pfx' (length pfx'))
         else banner_loop (pred_numeral k) s pfx' start)"
  by (simp add: numeral_eq_Suc)

theorem read_ssh_banner_ok_witness:
  "\<exists>start. ssh_ident (drop start (bytes_of ''SSH-2.0-x'' @ [10]))"
proof -
  have r: "read_ssh_banner (bytes_of ''SSH-2.0-x'' @ [10, 7]) = Inr (bytes_of ''SSH-2.0-x'' @ [10], [7])"
    by (simp add: read_ssh_banner_def bytes_of_def ssh_ident_def Let_def banner_loop_numeral)
  show ?thesis using read_ssh_banner_ok [OF r] by blast
qed

end
