(* ===== verification/Cli.thy ===== *)
theory Cli
  imports Serving Broker
begin

text \<open>
  \<open>main.rs\<close>: the command line. Parsing the arguments is the \<open>argh\<close> library's, so \<open>args\<close> is the
  record it fills; here are what the program makes of it: the effective configuration, the
  options saved for the launch at login, the log level and the choice of what to run.
\<close>

section \<open>Arguments\<close>

datatype service_command =
    SvcEnable | SvcDisable | SvcUninstall | SvcStatus | SvcStart | SvcStop | SvcRestart
  | SvcLogs bool bool bool

record proxy_args =
  pa_tunnel_id :: str
  pa_port :: u16
  pa_timeout :: str
  pa_local_port :: str

datatype command =
    CmdService service_command
  | CmdProxy proxy_args
  | CmdBroker str
  | CmdGuardian "str list"

record args =
  arg_port :: "u16 option"
  arg_host_key :: "path list"
  arg_config :: "path option"
  arg_no_config :: bool
  arg_log_file :: "path option"
  arg_debug :: bool
  arg_verbose :: bool
  arg_quiet :: bool
  arg_bind :: "ip_addr option"
  arg_host_key_passphrase :: "str option"
  arg_password :: "str option"
  arg_authorized_keys :: "path list"
  arg_pubkey :: "str list"
  arg_shell :: "str option"
  arg_sftp_root :: "path option"
  arg_strict_user :: bool
  arg_allow_user :: "str list"
  arg_no_forward :: bool
  arg_login_grace :: "u64 option"
  arg_max_startups :: "u32 option"
  arg_devtunnel_enable :: bool
  arg_devtunnel_disable :: bool
  arg_devtunnel_id :: "str option"
  arg_devtunnel_label :: "str list"
  arg_devtunnel_bin :: "path option"
  arg_devtunnel_auto_create :: bool
  arg_devtunnel_timeout :: "str option"
  arg_check :: bool
  arg_version :: bool
  arg_service_run :: bool
  arg_command :: "command option"

section \<open>The effective configuration\<close>

datatype cli_error =
    CliMessage str
  | CliLoad path error
  | CliConfig error

definition select_config_path :: "(path \<Rightarrow> bool) \<Rightarrow> path option \<Rightarrow> bool \<Rightarrow> path option \<Rightarrow> path option" where
  "select_config_path exists explicit no_config home =
     (case explicit of
        Some p \<Rightarrow> Some p
      | None \<Rightarrow>
          (if no_config then None
           else Option.bind home (\<lambda>h.
             let p = path_join (path_join h (lit ''.ssh'')) (lit ''sshdt_config'')
             in if exists p then Some p else None)))"

definition override :: "'a option \<Rightarrow> ('a \<Rightarrow> 'c \<Rightarrow> 'c) \<Rightarrow> 'c \<Rightarrow> 'c" where
  "override v put c = (case v of Some x \<Rightarrow> put x c | None \<Rightarrow> c)"

definition on_flag :: "bool \<Rightarrow> ('c \<Rightarrow> 'c) \<Rightarrow> 'c \<Rightarrow> 'c" where
  "on_flag b f c = (if b then f c else c)"

text \<open>The flags, applied in the order of the source.\<close>

definition apply_server_flags :: "args \<Rightarrow> config \<Rightarrow> config" where
  "apply_server_flags a c =
     (let c = override (arg_port a) (\<lambda>p c. c\<lparr>cfg_port := p\<rparr>) c;
          c = override (arg_bind a) (\<lambda>b c. c\<lparr>cfg_bind := b\<rparr>) c;
          c = on_flag (arg_host_key a \<noteq> []) (\<lambda>c. c\<lparr>cfg_host_keys := arg_host_key a\<rparr>) c;
          c = override (arg_host_key_passphrase a) (\<lambda>p c. c\<lparr>cfg_host_key_passphrase := Some p\<rparr>) c;
          c = override (arg_password a) (\<lambda>p c. c\<lparr>cfg_password := Some p\<rparr>) c;
          c = c\<lparr>cfg_authorized_keys := cfg_authorized_keys c @ arg_authorized_keys a\<rparr>;
          c = c\<lparr>cfg_authorized_key_lines := cfg_authorized_key_lines c @ arg_pubkey a\<rparr>;
          c = override (arg_shell a) (\<lambda>s c. c\<lparr>cfg_shell := Some s\<rparr>) c;
          c = override (arg_sftp_root a) (\<lambda>r c. c\<lparr>cfg_sftp_root := Some r\<rparr>) c;
          c = on_flag (arg_strict_user a) (\<lambda>c. c\<lparr>cfg_require_current_user := True\<rparr>) c;
          c = c\<lparr>cfg_allow_users := cfg_allow_users c @ arg_allow_user a\<rparr>;
          c = on_flag (arg_no_forward a) (\<lambda>c. c\<lparr>cfg_allow_tcp_forwarding := False\<rparr>) c;
          c = override (arg_login_grace a) (\<lambda>g c. c\<lparr>cfg_login_grace_secs := g\<rparr>) c
      in override (arg_max_startups a) (\<lambda>n c. c\<lparr>cfg_max_startups := n\<rparr>) c)"

definition apply_tunnel_flags :: "args \<Rightarrow> dev_tunnel_config \<Rightarrow> str + dev_tunnel_config" where
  "apply_tunnel_flags a d =
     (let d = on_flag (arg_devtunnel_enable a) (\<lambda>d. d\<lparr>dt_enabled := True\<rparr>) d;
          d = on_flag (arg_devtunnel_disable a) (\<lambda>d. d\<lparr>dt_enabled := False\<rparr>) d;
          d = override (arg_devtunnel_id a) (\<lambda>i d. d\<lparr>dt_id := Some i\<rparr>) d;
          d = on_flag (arg_devtunnel_label a \<noteq> []) (\<lambda>d. d\<lparr>dt_labels := arg_devtunnel_label a\<rparr>) d;
          d = override (arg_devtunnel_bin a) (\<lambda>b d. d\<lparr>dt_bin := Some b\<rparr>) d;
          d = on_flag (arg_devtunnel_auto_create a) (\<lambda>d. d\<lparr>dt_auto_create := True\<rparr>) d
      in case arg_devtunnel_timeout a of
           None \<Rightarrow> Inr d
         | Some t \<Rightarrow> rbind (parse_tunnel_timeout t) (\<lambda>n. Inr (d\<lparr>dt_timeout_secs := n\<rparr>)))"

definition map_error :: "('e \<Rightarrow> 'f) \<Rightarrow> 'e + 'a \<Rightarrow> 'f + 'a" where
  "map_error f r = (case r of Inl e \<Rightarrow> Inl (f e) | Inr x \<Rightarrow> Inr x)"

definition base_config ::
  "read_file \<Rightarrow> (path \<Rightarrow> bool) \<Rightarrow> path option \<Rightarrow> args \<Rightarrow> cli_error + config" where
  "base_config read exists home a =
     (case select_config_path exists (arg_config a) (arg_no_config a) home of
        Some p \<Rightarrow> map_error (CliLoad p) (load_file read home p)
      | None \<Rightarrow> Inr config_default)"

definition build_config ::
  "read_file \<Rightarrow> (path \<Rightarrow> bool) \<Rightarrow> path option \<Rightarrow> args \<Rightarrow> cli_error + config" where
  "build_config read exists home a =
     (if \<not> (arg_config a = None \<or> \<not> arg_no_config a)
      then Inl (CliMessage (lit ''--config and --no-config cannot be used together''))
      else if arg_devtunnel_enable a \<and> arg_devtunnel_disable a
      then Inl (CliMessage (lit ''--devtunnel-enable and --devtunnel-disable cannot be used together''))
      else
        rbind (base_config read exists home a) (\<lambda>c0.
          let c1 = apply_server_flags a c0
          in rbind (map_error CliMessage (apply_tunnel_flags a (cfg_dev_tunnel c1))) (\<lambda>d.
               let c2 = c1\<lparr>cfg_dev_tunnel := d\<rparr>
               in rbind (map_error CliConfig (validate_dev_tunnel c2)) (\<lambda>_. Inr c2))))"

section \<open>Options for the launch at login\<close>

definition push_option :: "str list \<Rightarrow> string \<Rightarrow> str option \<Rightarrow> str list" where
  "push_option result name val =
     (case val of Some v \<Rightarrow> result @ [lit name, v] | None \<Rightarrow> result)"

definition push_switch :: "str list \<Rightarrow> string \<Rightarrow> bool \<Rightarrow> str list" where
  "push_switch result name enabled = (if enabled then result @ [lit name] else result)"

text \<open>The path operations of the target system.\<close>

record path_ops =
  po_is_absolute :: "path \<Rightarrow> bool"
  po_join :: "path \<Rightarrow> path \<Rightarrow> path"

definition unix_paths :: path_ops where
  "unix_paths = \<lparr>po_is_absolute = is_absolute, po_join = path_join\<rparr>"

definition push_path_option :: "path_ops \<Rightarrow> path option \<Rightarrow> str list \<Rightarrow> string \<Rightarrow> path \<Rightarrow> str + str list" where
  "push_path_option po cwd result name p =
     (if po_is_absolute po p then Inr (result @ [lit name, p])
      else case cwd of
             None \<Rightarrow> Inl (lit ''failed to resolve the current directory'')
           | Some d \<Rightarrow> Inr (result @ [lit name, po_join po d p]))"

fun push_paths :: "path_ops \<Rightarrow> path option \<Rightarrow> str list \<Rightarrow> string \<Rightarrow> path list \<Rightarrow> str + str list" where
  "push_paths po cwd result name [] = Inr result"
| "push_paths po cwd result name (p # ps) =
     rbind (push_path_option po cwd result name p) (\<lambda>result'. push_paths po cwd result' name ps)"

definition push_all :: "str list \<Rightarrow> string \<Rightarrow> str list \<Rightarrow> str list" where
  "push_all result name vals = foldl (\<lambda>r v. push_option r name (Some v)) result vals"

abbreviation opt_list :: "'a option \<Rightarrow> 'a list" where
  "opt_list v \<equiv> (case v of Some x \<Rightarrow> [x] | None \<Rightarrow> [])"

text \<open>\<open>show_ip\<close> stands for the textual form of an address.\<close>

definition startup_args :: "path_ops \<Rightarrow> (ip_addr \<Rightarrow> str) \<Rightarrow> path option \<Rightarrow> args \<Rightarrow> str + str list" where
  "startup_args po show_ip cwd a =
     (let r = push_switch [] ''--devtunnel-enable'' (arg_devtunnel_enable a);
          r = push_switch r ''--devtunnel-disable'' (arg_devtunnel_disable a);
          r = push_option r ''--devtunnel-id'' (arg_devtunnel_id a);
          r = push_all r ''--devtunnel-label'' (arg_devtunnel_label a)
      in rbind (push_paths po cwd r ''--devtunnel-bin'' (opt_list (arg_devtunnel_bin a))) (\<lambda>r.
      let r = push_switch r ''--devtunnel-auto-create'' (arg_devtunnel_auto_create a);
          r = push_option r ''--devtunnel-timeout'' (arg_devtunnel_timeout a);
          r = push_option r ''--port'' (map_option (\<lambda>p. show_nat (unat p)) (arg_port a))
      in rbind (push_paths po cwd r ''--host-key'' (arg_host_key a)) (\<lambda>r.
         rbind (push_paths po cwd r ''--config'' (opt_list (arg_config a))) (\<lambda>r.
      let r = push_switch r ''--no-config'' (arg_no_config a)
      in rbind (push_paths po cwd r ''--log-file'' (opt_list (arg_log_file a))) (\<lambda>r.
      let r = push_switch r ''--debug'' (arg_debug a);
          r = push_switch r ''--verbose'' (arg_verbose a);
          r = push_switch r ''--quiet'' (arg_quiet a);
          r = push_option r ''--bind'' (map_option show_ip (arg_bind a));
          r = push_option r ''--host-key-passphrase'' (arg_host_key_passphrase a);
          r = push_option r ''--password'' (arg_password a)
      in rbind (push_paths po cwd r ''--authorized-keys'' (arg_authorized_keys a)) (\<lambda>r.
      let r = push_all r ''--pubkey'' (arg_pubkey a);
          r = push_option r ''--shell'' (arg_shell a)
      in rbind (push_paths po cwd r ''--sftp-root'' (opt_list (arg_sftp_root a))) (\<lambda>r.
      let r = push_switch r ''--strict-user'' (arg_strict_user a);
          r = push_all r ''--allow-user'' (arg_allow_user a);
          r = push_switch r ''--no-forward'' (arg_no_forward a);
          r = push_option r ''--login-grace'' (map_option (\<lambda>n. show_nat (unat n)) (arg_login_grace a));
          r = push_option r ''--max-startups'' (map_option (\<lambda>n. show_nat (unat n)) (arg_max_startups a))
      in Inr r)))))))"

section \<open>What to run\<close>

datatype service_action =
    ActEnable | ActDisable | ActUninstall | ActStatus | ActStart | ActStop | ActRestart | ActLogs bool

datatype run_action =
    RunVersion
  | RunRefused str
  | RunService service_action "str list"
  | RunServiceStatus
  | RunTunnelLogs string bool
  | RunProxy proxy_request
  | RunBroker str
  | RunGuardian "str list"
  | RunCheck
  | RunServer args bool

definition manage_service ::
  "path_ops \<Rightarrow> (ip_addr \<Rightarrow> str) \<Rightarrow> path option \<Rightarrow> service_command \<Rightarrow> args \<Rightarrow> run_action" where
  "manage_service po show_ip cwd cmd a =
     (case cmd of
        SvcLogs follow dt dtc \<Rightarrow>
          (if dt \<and> dtc then RunRefused (lit ''choose --devtunnel or --devtunnel-client'')
           else if dt \<or> dtc then RunTunnelLogs (if dt then ''host'' else ''client'') follow
           else RunService (ActLogs follow) [])
      | SvcEnable \<Rightarrow>
          (case startup_args po show_ip cwd a of
             Inl e \<Rightarrow> RunRefused e
           | Inr opts \<Rightarrow> RunService ActEnable opts)
      | SvcDisable \<Rightarrow> RunService ActDisable []
      | SvcUninstall \<Rightarrow> RunService ActUninstall []
      | SvcStatus \<Rightarrow> RunServiceStatus
      | SvcStart \<Rightarrow> RunService ActStart []
      | SvcStop \<Rightarrow> RunService ActStop []
      | SvcRestart \<Rightarrow> RunService ActRestart [])"

definition proxy_of :: "proxy_args \<Rightarrow> str + proxy_request" where
  "proxy_of p =
     rbind (parse_tunnel_timeout (pa_timeout p)) (\<lambda>t.
     rbind (if pa_local_port p = lit ''auto'' then Inr None
            else rbind (ok_or (lit ''local port must be auto or a number'') (parse_u16 (pa_local_port p)))
                   (\<lambda>n. Inr (Some n))) (\<lambda>local_port.
       Inr \<lparr>px_tunnel = pa_tunnel_id p, px_remote_port = pa_port p, px_local_port = local_port,
            px_timeout = secs (unat t)\<rparr>))"

text \<open>The options saved by \<open>service enable\<close> are parsed again with the parser of the command line, \<open>parse_args\<close>,
  whose error is the text it would print.\<close>

definition parse_saved_service_args :: "(str list \<Rightarrow> str + args) \<Rightarrow> str list \<Rightarrow> str + args" where
  "parse_saved_service_args parse_args arguments =
     map_error (\<lambda>e. lit ''invalid saved sshdt service options: '' @ trim e) (parse_args arguments)"

text \<open>\<open>main\<close>: \<open>saved\<close> is the result of \<open>saved_startup_args\<close>; the flag of \<open>RunServer\<close> is service mode.\<close>

definition dispatch_command ::
  "platform \<Rightarrow> str + str list \<Rightarrow> (str list \<Rightarrow> str + args) \<Rightarrow> path_ops \<Rightarrow> (ip_addr \<Rightarrow> str) \<Rightarrow> path option \<Rightarrow> args \<Rightarrow>
     run_action" where
  "dispatch_command os saved parse_args po show_ip cwd a =
     (if arg_version a then RunVersion
      else if arg_service_run a then
        (case os of
           Unix \<Rightarrow> RunRefused (lit ''service mode is currently supported only on Windows'')
         | Windows \<Rightarrow>
             (case rbind saved (parse_saved_service_args parse_args) of
                Inl e \<Rightarrow> RunRefused e
              | Inr a' \<Rightarrow> RunServer a' True))
      else case arg_command a of
             Some (CmdService cmd) \<Rightarrow> manage_service po show_ip cwd cmd a
           | Some (CmdProxy p) \<Rightarrow> (case proxy_of p of Inl e \<Rightarrow> RunRefused e | Inr r \<Rightarrow> RunProxy r)
           | Some (CmdBroker t) \<Rightarrow> RunBroker t
           | Some (CmdGuardian xs) \<Rightarrow> RunGuardian xs
           | None \<Rightarrow> if arg_check a then RunCheck else RunServer a False)"

definition log_level :: "args \<Rightarrow> string" where
  "log_level a =
     (if arg_quiet a then ''error'' else if arg_debug a \<or> arg_verbose a then ''debug'' else ''info'')"

section \<open>Precedence\<close>

lemma override_simps [simp]: "override None f c = c" "override (Some x) f c = f x c"
  by (simp_all add: override_def)

lemma on_flag_simps [simp]: "on_flag True f c = f c" "on_flag False f c = c"
  by (simp_all add: on_flag_def)

lemma override_other: "(\<And>x c. sel (put x c) = sel c) \<Longrightarrow> sel (override v put c) = sel c"
  by (cases v) simp_all

lemma on_flag_other: "(\<And>c. sel (f c) = sel c) \<Longrightarrow> sel (on_flag b f c) = sel c"
  by (cases b) simp_all

lemma override_this: "(\<And>x c. sel (put x c) = k x) \<Longrightarrow> sel (override v put c) = (case v of Some x \<Rightarrow> k x | None \<Rightarrow> sel c)"
  by (cases v) simp_all

lemma on_flag_this: "(\<And>c. sel (f c) = k) \<Longrightarrow> sel (on_flag b f c) = (if b then k else sel c)"
  by (cases b) simp_all

lemmas other_field =
  override_other [where sel = cfg_port] on_flag_other [where sel = cfg_port]
  override_other [where sel = cfg_bind] on_flag_other [where sel = cfg_bind]
  override_other [where sel = cfg_password] on_flag_other [where sel = cfg_password]
  override_other [where sel = cfg_authorized_keys] on_flag_other [where sel = cfg_authorized_keys]
  override_other [where sel = cfg_authorized_key_lines] on_flag_other [where sel = cfg_authorized_key_lines]
  override_other [where sel = cfg_allow_anonymous] on_flag_other [where sel = cfg_allow_anonymous]
  override_other [where sel = cfg_allow_users] on_flag_other [where sel = cfg_allow_users]
  override_other [where sel = cfg_require_current_user] on_flag_other [where sel = cfg_require_current_user]
  override_other [where sel = cfg_allow_tcp_forwarding] on_flag_other [where sel = cfg_allow_tcp_forwarding]
  override_other [where sel = cfg_sftp_root] on_flag_other [where sel = cfg_sftp_root]
  override_other [where sel = cfg_dev_tunnel] on_flag_other [where sel = cfg_dev_tunnel]

lemma apply_server_flags_fields:
  "cfg_port (apply_server_flags a c) = (case arg_port a of Some p \<Rightarrow> p | None \<Rightarrow> cfg_port c)"
  "cfg_bind (apply_server_flags a c) = (case arg_bind a of Some b \<Rightarrow> b | None \<Rightarrow> cfg_bind c)"
  "cfg_password (apply_server_flags a c) = (case arg_password a of Some p \<Rightarrow> Some p | None \<Rightarrow> cfg_password c)"
  "cfg_authorized_keys (apply_server_flags a c) = cfg_authorized_keys c @ arg_authorized_keys a"
  "cfg_authorized_key_lines (apply_server_flags a c) = cfg_authorized_key_lines c @ arg_pubkey a"
  "cfg_allow_anonymous (apply_server_flags a c) = cfg_allow_anonymous c"
  "cfg_allow_users (apply_server_flags a c) = cfg_allow_users c @ arg_allow_user a"
  "cfg_require_current_user (apply_server_flags a c) \<longleftrightarrow> arg_strict_user a \<or> cfg_require_current_user c"
  "cfg_allow_tcp_forwarding (apply_server_flags a c) \<longleftrightarrow> \<not> arg_no_forward a \<and> cfg_allow_tcp_forwarding c"
  "cfg_sftp_root (apply_server_flags a c) = (case arg_sftp_root a of Some r \<Rightarrow> Some r | None \<Rightarrow> cfg_sftp_root c)"
  "cfg_dev_tunnel (apply_server_flags a c) = cfg_dev_tunnel c"
  unfolding apply_server_flags_def Let_def
  by (simp_all add: other_field override_this [where sel = cfg_port] override_this [where sel = cfg_bind]
      override_this [where sel = cfg_password] override_this [where sel = cfg_sftp_root]
      on_flag_this [where sel = cfg_require_current_user and k = True] on_flag_this [where sel = cfg_allow_tcp_forwarding and k = False]
      split: option.split)

lemma map_error_Inr [simp]: "map_error f r = Inr x \<longleftrightarrow> r = Inr x"
  by (simp add: map_error_def split: sum.split)

lemma build_config_Inr:
  assumes "build_config read exists home a = Inr c"
  shows "\<exists>c0 d. base_config read exists home a = Inr c0 \<and>
    apply_tunnel_flags a (cfg_dev_tunnel (apply_server_flags a c0)) = Inr d \<and>
    c = (apply_server_flags a c0)\<lparr>cfg_dev_tunnel := d\<rparr> \<and> validate_dev_tunnel c = Inr ()"
  using assms
  by (auto simp: build_config_def Let_def split: if_splits)

lemma build_config_anonymous:
  assumes "build_config read exists home a = Inr c" and "base_config read exists home a = Inr c0"
  shows "cfg_allow_anonymous c \<longleftrightarrow> cfg_allow_anonymous c0"
  using build_config_Inr [OF assms(1)] assms(2) by (auto simp: apply_server_flags_fields)

text \<open>
  Flags narrow what a configuration file allows and never silently widen it: whatever the
  file says, the flags cannot turn anonymous access on, cannot turn forwarding on, cannot drop
  an accepted user, a key or the strict-user mode, and the result has passed the tunnel checks.
\<close>

theorem build_config_restricts:
  assumes "build_config read exists home a = Inr c" and "base_config read exists home a = Inr c0"
  shows "(cfg_allow_anonymous c \<longrightarrow> cfg_allow_anonymous c0) \<and>
    (cfg_allow_tcp_forwarding c \<longrightarrow> cfg_allow_tcp_forwarding c0) \<and>
    set (cfg_allow_users c0) \<subseteq> set (cfg_allow_users c) \<and>
    (cfg_require_current_user c0 \<longrightarrow> cfg_require_current_user c) \<and>
    set (cfg_authorized_keys c0) \<subseteq> set (cfg_authorized_keys c) \<and>
    (has_explicit_auth c0 \<longrightarrow> has_explicit_auth c) \<and> validate_dev_tunnel c = Inr ()"
proof -
  obtain d where c: "c = (apply_server_flags a c0)\<lparr>cfg_dev_tunnel := d\<rparr>" "validate_dev_tunnel c = Inr ()"
    using build_config_Inr [OF assms(1)] assms(2) by auto
  then show ?thesis
    by (auto simp: apply_server_flags_fields has_explicit_auth_def split: option.split)
qed

definition no_args :: args where
  "no_args = \<lparr>arg_port = None, arg_host_key = [], arg_config = None, arg_no_config = True, arg_log_file = None,
     arg_debug = False, arg_verbose = False, arg_quiet = False, arg_bind = None, arg_host_key_passphrase = None,
     arg_password = None, arg_authorized_keys = [], arg_pubkey = [], arg_shell = None, arg_sftp_root = None,
     arg_strict_user = False, arg_allow_user = [], arg_no_forward = True, arg_login_grace = None,
     arg_max_startups = None, arg_devtunnel_enable = False, arg_devtunnel_disable = False,
     arg_devtunnel_id = None, arg_devtunnel_label = [], arg_devtunnel_bin = None,
     arg_devtunnel_auto_create = False, arg_devtunnel_timeout = None, arg_check = False, arg_version = False,
     arg_service_run = False, arg_command = None\<rparr>"

theorem build_config_restricts_witness:
  "\<exists>c. build_config (\<lambda>_. Inl (IoError NotFound [])) (\<lambda>_. False) None no_args = Inr c \<and>
     (cfg_allow_anonymous c \<longrightarrow> cfg_allow_anonymous config_default)"
proof -
  let ?r = "\<lambda>_. Inl (IoError NotFound [])"
  have b: "base_config ?r (\<lambda>_. False) None no_args = Inr config_default"
    by (simp add: base_config_def select_config_path_def no_args_def)
  have "\<exists>c. build_config ?r (\<lambda>_. False) None no_args = Inr c"
    by (simp add: build_config_def b) (simp add: no_args_def apply_tunnel_flags_def apply_server_flags_def
        map_error_def Let_def validate_dev_tunnel_def config_default_def dev_tunnel_default_def)
  then obtain c where c: "build_config ?r (\<lambda>_. False) None no_args = Inr c" by blast
  then show ?thesis using build_config_restricts [OF c b] by blast
qed

end
