(* ===== verification/Utf16.thy ===== *)
theory Utf16
  imports Utf8
begin

text \<open>
  UTF-16, as \<open>str::encode_utf16\<close>, \<open>OsStr::encode_wide\<close> and \<open>String::from_utf16_lossy\<close> use it on the way
  to and from the Windows interfaces.
\<close>

definition enc16 :: "ch \<Rightarrow> nat list" where
  "enc16 c =
     (if c < 0x10000 then [c]
      else [0xD800 + (c - 0x10000) div 0x400, 0xDC00 + (c - 0x10000) mod 0x400])"

definition encode_utf16 :: "str \<Rightarrow> u16 list" where
  "encode_utf16 s = map word_of_nat (concat (map enc16 s))"

text \<open>A string with the terminating zero the interfaces expect.\<close>

definition wide :: "str \<Rightarrow> u16 list" where
  "wide s = encode_utf16 s @ [0]"

definition high_surrogate :: "nat \<Rightarrow> bool" where
  "high_surrogate u \<longleftrightarrow> 0xD800 \<le> u \<and> u < 0xDC00"

definition low_surrogate :: "nat \<Rightarrow> bool" where
  "low_surrogate u \<longleftrightarrow> 0xDC00 \<le> u \<and> u < 0xE000"

text \<open>A surrogate without its partner becomes the replacement character.\<close>

fun decode16 :: "nat list \<Rightarrow> str" where
  "decode16 [] = []"
| "decode16 [u] = [if high_surrogate u \<or> low_surrogate u then 0xFFFD else u]"
| "decode16 (u # v # us) =
     (if high_surrogate u then
        (if low_surrogate v then (0x10000 + (u - 0xD800) * 0x400 + (v - 0xDC00)) # decode16 us
         else 0xFFFD # decode16 (v # us))
      else if low_surrogate u then 0xFFFD # decode16 (v # us)
      else u # decode16 (v # us))"

definition from_utf16_lossy :: "u16 list \<Rightarrow> str" where
  "from_utf16_lossy us = decode16 (map unat us)"

section \<open>Round trip\<close>

lemma decode16_unit: "\<not> high_surrogate u \<Longrightarrow> \<not> low_surrogate u \<Longrightarrow> decode16 (u # us) = u # decode16 us"
  by (cases us) auto

lemma decode16_enc:
  assumes "scalar c"
  shows "decode16 (enc16 c @ us) = c # decode16 us"
proof (cases "c < 0x10000")
  case True
  then have "\<not> high_surrogate c" "\<not> low_surrogate c"
    using assms by (auto simp: scalar_def high_surrogate_def low_surrogate_def)
  then show ?thesis using True by (simp add: enc16_def decode16_unit)
next
  case False
  let ?d = "c - 0x10000"
  have "?d div 0x400 < 0x400" using assms by (auto simp: scalar_def)
  then have s: "high_surrogate (0xD800 + ?d div 0x400)" "low_surrogate (0xDC00 + ?d mod 0x400)"
    by (auto simp: high_surrogate_def low_surrogate_def)
  have "?d div 0x400 * 0x400 + ?d mod 0x400 = ?d" by (rule div_mult_mod_eq)
  then have "0x10000 + ?d div 0x400 * 0x400 + ?d mod 0x400 = c" using False by linarith
  then show ?thesis using False s by (simp add: enc16_def)
qed

lemma enc16_word: "scalar c \<Longrightarrow> u \<in> set (enc16 c) \<Longrightarrow> u < 0x10000"
  by (auto simp: enc16_def scalar_def split: if_splits)

lemma from_utf16_lossy_encode:
  assumes "valid_str s"
  shows "from_utf16_lossy (encode_utf16 s) = s"
proof -
  have "unat (word_of_nat u :: u16) = u" if u: "u \<in> set (concat (map enc16 s))" for u
  proof -
    obtain c where "c \<in> set s" "u \<in> set (enc16 c)" using u by auto
    then have "u < 0x10000" using assms enc16_word by (auto simp: valid_str_def list_all_iff)
    then show ?thesis by (simp add: unsigned_of_nat take_bit_eq_mod)
  qed
  then have "map unat (encode_utf16 s) = concat (map enc16 s)"
    unfolding encode_utf16_def map_map by (intro map_idI) simp
  moreover have "decode16 (concat (map enc16 s)) = s"
    using assms by (induction s) (auto simp: valid_str_def decode16_enc)
  ultimately show ?thesis by (simp add: from_utf16_lossy_def)
qed

text \<open>A string without a zero character has none in its encoding, so that the terminating zero is the
  first one.\<close>

lemma encode_no_zero:
  assumes "valid_str s" and "0 \<notin> set s"
  shows "0 \<notin> set (encode_utf16 s)"
proof -
  have "(word_of_nat u :: u16) \<noteq> 0" if "c \<in> set s" "u \<in> set (enc16 c)" for c u
  proof -
    have c: "scalar c" "c \<noteq> 0"
      using that(1) assms(1) by (simp add: valid_str_def list_all_iff) (use that(1) assms(2) in metis)
    have "u < 0x10000" by (rule enc16_word [OF c(1) that(2)])
    moreover have "u \<noteq> 0" using that(2) c(2) by (auto simp: enc16_def split: if_splits)
    moreover have "unat (word_of_nat u :: u16) = u"
      using \<open>u < 0x10000\<close> by (simp add: unsigned_of_nat take_bit_eq_mod)
    ultimately show ?thesis by (metis unsigned_0)
  qed
  then show ?thesis by (fastforce simp: encode_utf16_def)
qed

lemma read_wide:
  assumes "valid_str s" and "0 \<notin> set s"
  shows "from_utf16_lossy (takeWhile (\<lambda>u. u \<noteq> 0) (wide s @ rest)) = s"
proof -
  have "takeWhile (\<lambda>u. u \<noteq> 0) (wide s @ rest) = encode_utf16 s"
  proof -
    have "\<forall>u \<in> set (encode_utf16 s). u \<noteq> 0" using encode_no_zero [OF assms] by metis
    from takeWhile_append_stop [OF this, of 0 rest] show ?thesis by (simp add: wide_def)
  qed
  then show ?thesis using from_utf16_lossy_encode [OF assms(1)] by simp
qed

end
