(* ===== verification/WinSecurity.thy ===== *)
theory WinSecurity
  imports Ipc Utf16
begin

text \<open>
  The Windows parts that restrict broker files and service events to the current user:
  \<open>windows_security::secure\<close> of \<open>devtunnel/ipc.rs\<close>, and \<open>current_user_sid\<close> with \<open>EventSecurity\<close> of \<open>service.rs\<close>.
  The answers of the system are the record \<open>win_env\<close>; what is opened, allocated and released is kept
  as a list of effects.
\<close>

datatype win_effect =
    WinOpenToken
  | WinCloseToken
  | WinAllocSid
  | WinFreeSid
  | WinAllocDescriptor
  | WinFreeDescriptor
  | WinSetDacl "u16 list" "u16 list"

text \<open>\<open>wn_sid_memory\<close> is what is found at the address of the formatted SID, up to and beyond its zero.\<close>

record win_env =
  wn_token :: bool
  wn_size_error :: u32
  wn_info :: bool
  wn_sid_memory :: "u16 list option"
  wn_descriptor :: "u16 list \<Rightarrow> bool"
  wn_dacl :: bool
  wn_set :: u32

definition ERROR_INSUFFICIENT_BUFFER :: u32 where "ERROR_INSUFFICIENT_BUFFER = 122"

text \<open>The loop that looks for the terminating zero, and the text in front of it.\<close>

definition sid_text :: "u16 list \<Rightarrow> str" where
  "sid_text memory = from_utf16_lossy (takeWhile (\<lambda>u. u \<noteq> 0) memory)"

section \<open>Broker files\<close>

definition file_descriptor :: "str \<Rightarrow> str" where
  "file_descriptor sid = lit ''D:P(A;OICI;FA;;;SY)(A;OICI;FA;;;'' @ sid @ lit '')''"

definition set_dacl :: "win_env \<Rightarrow> path \<Rightarrow> u16 list \<Rightarrow> win_effect list \<times> (ipc_error + unit)" where
  "set_dacl env p descriptor =
     (if \<not> wn_descriptor env descriptor then ([], Inl (IpcCheck (lit ''cannot create broker security'')))
      else if \<not> wn_dacl env
        then ([WinAllocDescriptor, WinFreeDescriptor], Inl (IpcCheck (lit ''cannot read broker security'')))
      else ([WinAllocDescriptor, WinSetDacl (wide p) descriptor, WinFreeDescriptor],
            if wn_set env = 0 then Inr ()
            else Inl (IpcCheck (lit ''cannot restrict broker path access ('' @ show_nat (unat (wn_set env)) @ lit '')''))))"

definition windows_secure :: "win_env \<Rightarrow> path \<Rightarrow> win_effect list \<times> (ipc_error + unit)" where
  "windows_secure env p =
     (if \<not> wn_token env then ([], Inl (IpcCheck (lit ''cannot read user token'')))
      else if \<not> wn_info env
        then ([WinOpenToken, WinCloseToken], Inl (IpcCheck (lit ''cannot read user identity'')))
      else case wn_sid_memory env of
             None \<Rightarrow> ([WinOpenToken, WinCloseToken], Inl (IpcCheck (lit ''cannot format user identity'')))
           | Some memory \<Rightarrow>
               (case set_dacl env p (wide (file_descriptor (sid_text memory))) of
                  (es, r) \<Rightarrow> ([WinOpenToken, WinCloseToken, WinAllocSid, WinFreeSid] @ es, r)))"

section \<open>Service events\<close>

text \<open>\<open>current_user_sid\<close>: the token and the text are released when their owners are dropped, the text
  first.\<close>

definition current_user_sid :: "win_env \<Rightarrow> win_effect list \<times> (str + str)" where
  "current_user_sid env =
     (if \<not> wn_token env then ([], Inl (lit ''failed to open the current process token''))
      else if wn_size_error env \<noteq> ERROR_INSUFFICIENT_BUFFER
        then ([WinOpenToken, WinCloseToken], Inl (lit ''failed to size the current user token''))
      else if \<not> wn_info env
        then ([WinOpenToken, WinCloseToken], Inl (lit ''failed to read the current user token''))
      else case wn_sid_memory env of
             None \<Rightarrow> ([WinOpenToken, WinCloseToken], Inl (lit ''failed to format the current user SID''))
           | Some memory \<Rightarrow> ([WinOpenToken, WinAllocSid, WinFreeSid, WinCloseToken], Inr (sid_text memory)))"

definition event_security_descriptor :: "str \<Rightarrow> str" where
  "event_security_descriptor sid = lit ''D:P(A;;GA;;;SY)(A;;GA;;;'' @ sid @ lit '')''"

definition event_security :: "win_env \<Rightarrow> str \<Rightarrow> win_effect list \<times> (str + u16 list)" where
  "event_security env sid =
     (let descriptor = wide (event_security_descriptor sid)
      in if wn_descriptor env descriptor then ([WinAllocDescriptor], Inr descriptor)
         else ([], Inl (lit ''failed to create sshdt event security'')))"

text \<open>What \<open>RunGuard::acquire\<close> needs before its events, and what it releases when it returns.\<close>

definition guard_security :: "win_env \<Rightarrow> win_effect list \<times> (str + str \<times> u16 list)" where
  "guard_security env =
     (case current_user_sid env of
        (es, Inl e) \<Rightarrow> (es, Inl e)
      | (es, Inr sid) \<Rightarrow>
          (case event_security env sid of
             (es', Inl e) \<Rightarrow> (es @ es', Inl e)
           | (es', Inr descriptor) \<Rightarrow> (es @ es' @ [WinFreeDescriptor], Inr (sid, descriptor))))"

section \<open>Nothing leaks and nothing is freed twice\<close>

text \<open>The three resources that can be held, and what an effect does to them; \<open>None\<close> for a release of
  something that is not held, or for a second acquisition over one that is still held.\<close>

record win_held =
  wh_token :: bool
  wh_sid :: bool
  wh_descriptor :: bool

fun win_use :: "win_held \<Rightarrow> win_effect \<Rightarrow> win_held option" where
  "win_use h WinOpenToken = (if wh_token h then None else Some (h\<lparr>wh_token := True\<rparr>))"
| "win_use h WinCloseToken = (if wh_token h then Some (h\<lparr>wh_token := False\<rparr>) else None)"
| "win_use h WinAllocSid = (if wh_sid h then None else Some (h\<lparr>wh_sid := True\<rparr>))"
| "win_use h WinFreeSid = (if wh_sid h then Some (h\<lparr>wh_sid := False\<rparr>) else None)"
| "win_use h WinAllocDescriptor = (if wh_descriptor h then None else Some (h\<lparr>wh_descriptor := True\<rparr>))"
| "win_use h WinFreeDescriptor = (if wh_descriptor h then Some (h\<lparr>wh_descriptor := False\<rparr>) else None)"
| "win_use h (WinSetDacl _ _) = (if wh_descriptor h then Some h else None)"

fun win_uses :: "win_held \<Rightarrow> win_effect list \<Rightarrow> win_held option" where
  "win_uses h [] = Some h"
| "win_uses h (e # es) = Option.bind (win_use h e) (\<lambda>h'. win_uses h' es)"

definition nothing_held :: win_held where
  "nothing_held = \<lparr>wh_token = False, wh_sid = False, wh_descriptor = False\<rparr>"

text \<open>
  Restricting a broker file is clean and exact: whatever the system answers, the token, the SID
  text and the descriptor are each released exactly once, after they were obtained and before the
  call returns, and the access list is set while its descriptor is still allocated; and the call
  succeeds only when the list was set on the path itself and names the system and the current
  user, as the system formats that user, and nobody else.
\<close>

theorem windows_secure_clean:
  "win_uses nothing_held (fst (windows_secure env p)) = Some nothing_held \<and>
   (snd (windows_secure env p) = Inr () \<longrightarrow>
     (\<forall>user rest. wn_sid_memory env = Some (wide user @ rest) \<longrightarrow> valid_str user \<longrightarrow> 0 \<notin> set user \<longrightarrow>
        WinSetDacl (wide p) (wide (file_descriptor user)) \<in> set (fst (windows_secure env p))))"
proof -
  have clean: "win_uses nothing_held (fst (windows_secure env p)) = Some nothing_held"
    by (simp add: windows_secure_def set_dacl_def nothing_held_def split: option.split)
  show ?thesis
  proof (intro conjI impI allI)
    fix user rest
    assume ok: "snd (windows_secure env p) = Inr ()" and m: "wn_sid_memory env = Some (wide user @ rest)"
      and u: "valid_str user" "0 \<notin> set user"
    have "sid_text (wide user @ rest) = user" using read_wide [OF u] by (simp add: sid_text_def)
    then show "WinSetDacl (wide p) (wide (file_descriptor user)) \<in> set (fst (windows_secure env p))"
      using ok m by (auto simp: windows_secure_def set_dacl_def split: if_splits)
  qed (rule clean)
qed

definition demo_win :: win_env where
  "demo_win = \<lparr>wn_token = True, wn_size_error = 122, wn_info = True, wn_sid_memory = Some (wide (lit ''S-1'') @ [7]),
     wn_descriptor = (\<lambda>_. True), wn_dacl = True, wn_set = 0\<rparr>"

theorem windows_secure_clean_witness:
  "WinSetDacl (wide (lit ''p'')) (wide (file_descriptor (lit ''S-1''))) \<in> set (fst (windows_secure demo_win (lit ''p'')))"
proof -
  have "snd (windows_secure demo_win (lit ''p'')) = Inr ()" "wn_sid_memory demo_win = Some (wide (lit ''S-1'') @ [7])"
    by (simp_all add: windows_secure_def set_dacl_def demo_win_def)
  moreover have "valid_str (lit ''S-1'')" "0 \<notin> set (lit ''S-1'')" by (simp_all add: text_eval)
  ultimately show ?thesis using windows_secure_clean [of demo_win "lit ''p''"] by blast
qed

text \<open>
  The same for the service's events: all that is obtained for a guard is released exactly once, and
  the descriptor its events are created with names the system and the current user only.
\<close>

theorem guard_security_clean:
  "win_uses nothing_held (fst (guard_security env)) = Some nothing_held \<and>
   (\<forall>sid descriptor user rest. snd (guard_security env) = Inr (sid, descriptor) \<longrightarrow>
      wn_sid_memory env = Some (wide user @ rest) \<longrightarrow> valid_str user \<longrightarrow> 0 \<notin> set user \<longrightarrow>
      sid = user \<and> descriptor = wide (event_security_descriptor user))"
proof (intro conjI impI allI)
  show "win_uses nothing_held (fst (guard_security env)) = Some nothing_held"
    by (auto simp: guard_security_def current_user_sid_def event_security_def nothing_held_def Let_def split: option.split)
next
  fix sid descriptor user rest
  assume r: "snd (guard_security env) = Inr (sid, descriptor)" and m: "wn_sid_memory env = Some (wide user @ rest)"
    and u: "valid_str user" "0 \<notin> set user"
  have "sid_text (wide user @ rest) = user" using read_wide [OF u] by (simp add: sid_text_def)
  then show "sid = user" "descriptor = wide (event_security_descriptor user)"
    using r m by (auto simp: guard_security_def current_user_sid_def event_security_def Let_def split: if_splits)
qed

theorem guard_security_clean_witness:
  "snd (guard_security demo_win) = Inr (lit ''S-1'', wide (event_security_descriptor (lit ''S-1'')))"
proof -
  obtain sid d where r: "snd (guard_security demo_win) = Inr (sid, d)"
    by (simp add: guard_security_def current_user_sid_def event_security_def demo_win_def ERROR_INSUFFICIENT_BUFFER_def Let_def)
  have "valid_str (lit ''S-1'')" "0 \<notin> set (lit ''S-1'')" by (simp_all add: text_eval)
  then show ?thesis using guard_security_clean [of demo_win] r by (simp add: demo_win_def)
qed

end
