(* ===== verification/Service.thy ===== *)
theory Service
  imports Cli WinSecurity
begin

text \<open>
  \<open>service.rs\<close>: launch at login and the control of the background process. The Windows registry
  and its value types belong to the \<open>windows_registry\<close> library and are the parameter \<open>rg\<close>, on a
  state of type \<open>'w\<close>; the polling loops take the observations of their iterations (named events,
  the child, the clock) as a list. Texts of errors are those of the outermost context.
\<close>

section \<open>The launch command\<close>

abbreviation bslash :: nat where "bslash \<equiv> 92"

definition extended_prefix :: str where "extended_prefix = [bslash, bslash, 63, bslash]"

definition quoted_path :: "path \<Rightarrow> str" where
  "quoted_path p =
     (let clean = (case strip_prefix (extended_prefix @ lit ''UNC'' @ [bslash]) p of
                     Some rest \<Rightarrow> [bslash, bslash] @ rest
                   | None \<Rightarrow> (case strip_prefix extended_prefix p of Some rest \<Rightarrow> rest | None \<Rightarrow> p))
      in [34] @ clean @ [34])"

definition launch_command :: "path \<Rightarrow> path option \<Rightarrow> str" where
  "launch_command executable console_host =
     (let service = quoted_path executable @ lit '' --service-run''
      in case console_host of
           Some h \<Rightarrow> quoted_path h @ lit '' --headless '' @ service
         | None \<Rightarrow> service)"

section \<open>The registry\<close>

datatype reg_error = RegNotFound | RegOther str

record 'w registry =
  rg_create :: "str \<Rightarrow> 'w \<Rightarrow> (reg_error + unit) \<times> 'w"
  rg_open_write :: "str \<Rightarrow> 'w \<Rightarrow> reg_error + unit"
  rg_set_multi :: "str \<Rightarrow> str \<Rightarrow> str list \<Rightarrow> 'w \<Rightarrow> (reg_error + unit) \<times> 'w"
  rg_set_string :: "str \<Rightarrow> str \<Rightarrow> str \<Rightarrow> 'w \<Rightarrow> (reg_error + unit) \<times> 'w"
  rg_set_bytes :: "str \<Rightarrow> str \<Rightarrow> u8 list \<Rightarrow> 'w \<Rightarrow> (reg_error + unit) \<times> 'w"
  rg_get_multi :: "str \<Rightarrow> str \<Rightarrow> 'w \<Rightarrow> reg_error + str list"
  rg_get_string :: "str \<Rightarrow> str \<Rightarrow> 'w \<Rightarrow> reg_error + str"
  rg_get_value :: "str \<Rightarrow> str \<Rightarrow> 'w \<Rightarrow> reg_error + u8 list"
  rg_remove_value :: "str \<Rightarrow> str \<Rightarrow> 'w \<Rightarrow> (reg_error + unit) \<times> 'w"
  rg_remove_tree :: "str \<Rightarrow> 'w \<Rightarrow> (reg_error + unit) \<times> 'w"

definition APP_NAME :: str where "APP_NAME = lit ''sshdt''"
definition SETTINGS_KEY :: str where "SETTINGS_KEY = lit ''SOFTWARE'' @ bslash # lit ''sshdt''"
definition ARGS_VALUE :: str where "ARGS_VALUE = lit ''ServiceArgs''"
definition EXECUTABLE_VALUE :: str where "EXECUTABLE_VALUE = lit ''ServiceExecutable''"
definition RUN_KEY :: str where
  "RUN_KEY = lit ''SOFTWARE'' @ bslash # lit ''Microsoft'' @ bslash # lit ''Windows'' @ bslash #
     lit ''CurrentVersion'' @ bslash # lit ''Run''"
definition STARTUP_APPROVED_KEY :: str where
  "STARTUP_APPROVED_KEY = lit ''SOFTWARE'' @ bslash # lit ''Microsoft'' @ bslash # lit ''Windows'' @ bslash #
     lit ''CurrentVersion'' @ bslash # lit ''Explorer'' @ bslash # lit ''StartupApproved'' @ bslash # lit ''Run''"
definition STARTUP_ENABLED :: "u8 list" where "STARTUP_ENABLED = 2 # replicate 11 0"

type_synonym ('w, 'a) reg_act = "(str, 'w, 'a) act"

definition with_context :: "string \<Rightarrow> ('w \<Rightarrow> (reg_error + 'a) \<times> 'w) \<Rightarrow> ('w, 'a) reg_act" where
  "with_context msg m w = (case m w of (Inl e, w') \<Rightarrow> (Inl (lit msg), w') | (Inr x, w') \<Rightarrow> (Inr x, w'))"

text \<open>The two writes after one \<open>create\<close> that are chained without a context of their own.\<close>

definition set_run_entry :: "'w registry \<Rightarrow> str \<Rightarrow> 'w \<Rightarrow> (reg_error + unit) \<times> 'w" where
  "set_run_entry rg command w =
     (case rg_create rg RUN_KEY w of
        (Inl e, w') \<Rightarrow> (Inl e, w')
      | (Inr _, w') \<Rightarrow> rg_set_string rg RUN_KEY APP_NAME command w')"

definition approve_startup :: "'w registry \<Rightarrow> ('w, unit) reg_act" where
  "approve_startup rg w =
     (case rg_open_write rg STARTUP_APPROVED_KEY w of
        Inr _ \<Rightarrow>
          with_context ''failed to enable sshdt in Windows startup settings''
            (rg_set_bytes rg STARTUP_APPROVED_KEY APP_NAME STARTUP_ENABLED) w
      | Inl RegNotFound \<Rightarrow> (Inr (), w)
      | Inl (RegOther _) \<Rightarrow> (Inl (lit ''failed to open Windows startup settings''), w))"

definition enable :: "'w registry \<Rightarrow> path \<Rightarrow> path option \<Rightarrow> str list \<Rightarrow> ('w, unit) reg_act" where
  "enable rg executable console_host opts =
     (let command = launch_command executable console_host
      in abind (with_context ''failed to open sshdt service settings'' (rg_create rg SETTINGS_KEY)) (\<lambda>_.
         abind (with_context ''failed to save sshdt service options''
                  (rg_set_multi rg SETTINGS_KEY ARGS_VALUE opts)) (\<lambda>_.
         abind (with_context ''failed to save the sshdt service executable''
                  (rg_set_string rg SETTINGS_KEY EXECUTABLE_VALUE executable)) (\<lambda>_.
         abind (with_context ''failed to enable sshdt launch at login'' (set_run_entry rg command)) (\<lambda>_.
           approve_startup rg)))))"

definition remove_value :: "'w registry \<Rightarrow> str \<Rightarrow> str \<Rightarrow> string \<Rightarrow> ('w, unit) reg_act" where
  "remove_value rg key val msg w =
     (case rg_open_write rg key w of
        Inl RegNotFound \<Rightarrow> (Inr (), w)
      | Inl (RegOther _) \<Rightarrow> (Inl (lit msg), w)
      | Inr _ \<Rightarrow>
          (case rg_remove_value rg key val w of
             (Inr _, w') \<Rightarrow> (Inr (), w')
           | (Inl RegNotFound, w') \<Rightarrow> (Inr (), w')
           | (Inl (RegOther _), w') \<Rightarrow> (Inl (lit msg), w')))"

definition disable :: "'w registry \<Rightarrow> ('w, unit) reg_act" where
  "disable rg = remove_value rg RUN_KEY APP_NAME ''failed to disable sshdt launch at login''"

definition remove_settings :: "'w registry \<Rightarrow> ('w, unit) reg_act" where
  "remove_settings rg w =
     (case rg_remove_tree rg SETTINGS_KEY w of
        (Inr _, w') \<Rightarrow> (Inr (), w')
      | (Inl RegNotFound, w') \<Rightarrow> (Inr (), w')
      | (Inl (RegOther _), w') \<Rightarrow> (Inl (lit ''failed to remove sshdt service settings''), w'))"

text \<open>\<open>uninstall\<close>, given the outcome of \<open>stop\<close>.\<close>

definition uninstall :: "'w registry \<Rightarrow> str + unit \<Rightarrow> ('w, unit) reg_act" where
  "uninstall rg stopped =
     abind (\<lambda>w. (stopped, w)) (\<lambda>_.
     abind (disable rg) (\<lambda>_.
     abind (remove_value rg STARTUP_APPROVED_KEY APP_NAME ''failed to remove sshdt from Windows startup settings'') (\<lambda>_.
       remove_settings rg)))"

definition try_saved_args :: "'w registry \<Rightarrow> 'w \<Rightarrow> str + str list option" where
  "try_saved_args rg w =
     (case rg_get_multi rg SETTINGS_KEY ARGS_VALUE w of
        Inr args \<Rightarrow> Inr (Some (filter (\<lambda>a. a \<noteq> []) args))
      | Inl RegNotFound \<Rightarrow> Inr None
      | Inl (RegOther _) \<Rightarrow> Inl (lit ''failed to read configured sshdt service options''))"

definition saved_args :: "'w registry \<Rightarrow> 'w \<Rightarrow> str + str list" where
  "saved_args rg w = rbind (try_saved_args rg w) (ok_or (lit ''sshdt service options are not configured''))"

definition saved_executable :: "'w registry \<Rightarrow> 'w \<Rightarrow> str + path" where
  "saved_executable rg w =
     (case rg_get_string rg SETTINGS_KEY EXECUTABLE_VALUE w of
        Inr p \<Rightarrow> Inr p
      | Inl _ \<Rightarrow> Inl (lit ''failed to read the configured sshdt executable''))"

definition has_run_entry :: "'w registry \<Rightarrow> 'w \<Rightarrow> str + bool" where
  "has_run_entry rg w =
     (case rg_get_string rg RUN_KEY APP_NAME w of
        Inr _ \<Rightarrow> Inr True
      | Inl RegNotFound \<Rightarrow> Inr False
      | Inl (RegOther _) \<Rightarrow> Inl (lit ''failed to read sshdt launch-at-login state''))"

definition startup_approved :: "'w registry \<Rightarrow> 'w \<Rightarrow> str + bool" where
  "startup_approved rg w =
     (case rg_get_value rg STARTUP_APPROVED_KEY APP_NAME w of
        Inr bytes \<Rightarrow> Inr (bytes \<noteq> [] \<and> hd bytes = hd STARTUP_ENABLED)
      | Inl RegNotFound \<Rightarrow> Inr True
      | Inl (RegOther _) \<Rightarrow> Inl (lit ''failed to read Windows startup settings''))"

definition launch_at_login_enabled :: "'w registry \<Rightarrow> 'w \<Rightarrow> str + bool" where
  "launch_at_login_enabled rg w =
     rbind (has_run_entry rg w) (\<lambda>entry. if entry then startup_approved rg w else Inr False)"

definition is_configured :: "'w registry \<Rightarrow> 'w \<Rightarrow> str + bool" where
  "is_configured rg w =
     rbind (try_saved_args rg w) (\<lambda>args.
       case args of
         None \<Rightarrow> Inr False
       | Some _ \<Rightarrow>
           (case rg_get_string rg SETTINGS_KEY EXECUTABLE_VALUE w of
              Inr _ \<Rightarrow> Inr True
            | Inl RegNotFound \<Rightarrow> Inr False
            | Inl (RegOther _) \<Rightarrow> Inl (lit ''failed to read sshdt service configuration'')))"

fun log_file_of :: "str list \<Rightarrow> path option" where
  "log_file_of (a # b # rest) = (if a = lit ''--log-file'' then Some b else log_file_of (b # rest))"
| "log_file_of _ = None"

definition configured_log_path :: "'w registry \<Rightarrow> 'w \<Rightarrow> str + path option" where
  "configured_log_path rg w =
     rbind (try_saved_args rg w) (\<lambda>args. Inr (log_file_of (case args of Some xs \<Rightarrow> xs | None \<Rightarrow> [])))"

section \<open>Controlling the process\<close>

text \<open>One round of each polling loop: what the named events, the child and the clock said. An
  \<open>Inl\<close> is a failed system call, \<open>late\<close> is that the deadline has passed. Each loop is \<open>None\<close> while the
  observations so far have not ended it.\<close>

record event_poll =
  ep_stop :: "str + bool"
  ep_running :: "str + bool"
  ep_running_again :: "str + bool"
  ep_late :: bool

text \<open>\<open>Inr True\<close>: the stop event was opened; \<open>Inr False\<close>: nothing runs.\<close>

fun stop_event :: "event_poll list \<Rightarrow> (str + bool) option" where
  "stop_event [] = None"
| "stop_event (p # ps) =
     (case ep_stop p of
        Inl e \<Rightarrow> Some (Inl e)
      | Inr True \<Rightarrow> Some (Inr True)
      | Inr False \<Rightarrow>
          (case ep_running p of
             Inl e \<Rightarrow> Some (Inl e)
           | Inr running \<Rightarrow>
               (if \<not> running \<or> ep_late p
                then (case ep_running_again p of
                        Inl e \<Rightarrow> Some (Inl e)
                      | Inr True \<Rightarrow> Some (Inl (lit ''sshdt is running but cannot accept a stop request''))
                      | Inr False \<Rightarrow> Some (Inr False))
                else stop_event ps)))"

fun wait_until_stopped :: "((str + bool) \<times> bool) list \<Rightarrow> (str + unit) option" where
  "wait_until_stopped [] = None"
| "wait_until_stopped ((running, late) # ps) =
     (case running of
        Inl e \<Rightarrow> Some (Inl e)
      | Inr False \<Rightarrow> Some (Inr ())
      | Inr True \<Rightarrow> if late then Some (Inl (lit ''timed out while stopping sshdt'')) else wait_until_stopped ps)"

datatype service_effect = SetStop | SpawnService path | KillService | ReapService | Print str

definition stop_service ::
  "event_poll list \<Rightarrow> bool \<Rightarrow> ((str + bool) \<times> bool) list \<Rightarrow> bool \<Rightarrow> (service_effect list \<times> (str + unit)) option" where
  "stop_service polls signalled waits print_status =
     (case stop_event polls of
        None \<Rightarrow> None
      | Some (Inl e) \<Rightarrow> Some ([], Inl e)
      | Some (Inr False) \<Rightarrow>
          Some (if print_status then [Print (lit ''sshdt is already stopped'')] else [], Inr ())
      | Some (Inr True) \<Rightarrow>
          (if \<not> signalled then Some ([], Inl (lit ''failed to request sshdt shutdown''))
           else case wait_until_stopped waits of
                  None \<Rightarrow> None
                | Some (Inl e) \<Rightarrow> Some ([SetStop], Inl e)
                | Some (Inr _) \<Rightarrow>
                    Some (SetStop # (if print_status then [Print (lit ''stopped sshdt'')] else []), Inr ())))"

record ready_poll =
  rp_ready :: "str + bool"
  rp_running :: "str + bool"
  rp_exited :: "str + str option"
  rp_late :: bool

fun wait_for_ready :: "bool \<Rightarrow> ready_poll list \<Rightarrow> (str + unit) option" where
  "wait_for_ready observed [] = None"
| "wait_for_ready observed (p # ps) =
     (case rp_ready p of
        Inl e \<Rightarrow> Some (Inl e)
      | Inr True \<Rightarrow> Some (Inr ())
      | Inr False \<Rightarrow>
          (case rp_running p of
             Inl e \<Rightarrow> Some (Inl e)
           | Inr running \<Rightarrow>
               (let observed' = (observed \<or> running)
                in if observed' \<and> \<not> running then Some (Inl (lit ''sshdt stopped before it became ready''))
                   else case rp_exited p of
                          Inl e \<Rightarrow> Some (Inl (lit ''failed to inspect sshdt startup''))
                        | Inr (Some status) \<Rightarrow>
                            Some (Inl (lit ''sshdt exited before it became ready with '' @ status))
                        | Inr None \<Rightarrow>
                            (if rp_late p then Some (Inl (lit ''timed out waiting for sshdt''))
                             else wait_for_ready observed' ps))))"

record cleanup_poll =
  cp_exited :: "str + bool"
  cp_stop :: "str + bool"
  cp_set :: bool
  cp_late :: bool

text \<open>The loop of \<open>cleanup_failed_start\<close>: \<open>Inr True\<close> when the child is gone, \<open>Inr False\<close> when it must be
  killed.\<close>

fun cleanup_loop :: "bool \<Rightarrow> cleanup_poll list \<Rightarrow> (service_effect list \<times> (str + bool)) option" where
  "cleanup_loop requested [] = None"
| "cleanup_loop requested (p # ps) =
     (case cp_exited p of
        Inl e \<Rightarrow> Some ([], Inl (lit ''failed to inspect sshdt during startup cleanup''))
      | Inr True \<Rightarrow> Some ([], Inr True)
      | Inr False \<Rightarrow>
          (if \<not> requested \<and> (case cp_stop p of Inl _ \<Rightarrow> True | Inr found \<Rightarrow> found \<and> \<not> cp_set p)
           then Some ([], Inr False)
           else
             let now = (\<not> requested \<and> cp_stop p = Inr True);
                 effects = (if now then [SetStop] else [])
             in if cp_late p then Some (effects, Inr False)
                else map_option (\<lambda>(es, r). (effects @ es, r)) (cleanup_loop (requested \<or> now) ps)))"

text \<open>\<open>exited\<close> is the last \<open>try_wait\<close>, \<open>killed\<close> the outcome of \<open>kill\<close>. \<open>wait\<close> is \<open>Child::wait\<close>, which blocks: it is
  told whether the process has ended or was made to end, and \<open>None\<close> is a wait that never returns.\<close>

definition cleanup_failed_start ::
  "cleanup_poll list \<Rightarrow> str + bool \<Rightarrow> bool \<Rightarrow> (bool \<Rightarrow> bool option) \<Rightarrow> (service_effect list \<times> (str + unit)) option" where
  "cleanup_failed_start polls exited killed wait =
     (case cleanup_loop False polls of
        None \<Rightarrow> None
      | Some (es, Inl e) \<Rightarrow> Some (es, Inl e)
      | Some (es, Inr True) \<Rightarrow> Some (es, Inr ())
      | Some (es, Inr False) \<Rightarrow>
          (case exited of
             Inl _ \<Rightarrow> Some (es, Inl (lit ''failed to inspect sshdt before forced startup cleanup''))
           | Inr gone \<Rightarrow>
               (if \<not> gone \<and> \<not> killed
                then Some (es, Inl (lit ''failed to terminate sshdt after startup error''))
                else
                  let es = es @ (if gone then [] else [KillService])
                  in case wait (gone \<or> KillService \<in> set es) of
                       None \<Rightarrow> None
                     | Some False \<Rightarrow> Some (es, Inl (lit ''failed to reap sshdt after startup error''))
                     | Some True \<Rightarrow> Some (es @ [ReapService], Inr ()))))"

text \<open>The outcomes of the system calls \<open>start\<close> makes.\<close>

record start_env =
  se_running :: "str + bool"
  se_spawned :: bool
  se_ready_polls :: "ready_poll list"
  se_cleanup_polls :: "cleanup_poll list"
  se_exited :: "str + bool"
  se_killed :: bool
  se_wait :: "bool \<Rightarrow> bool option"

definition start_service ::
  "'w registry \<Rightarrow> 'w \<Rightarrow> start_env \<Rightarrow> (service_effect list \<times> (str + unit)) option" where
  "start_service rg w env =
     (case is_configured rg w of
        Inl e \<Rightarrow> Some ([], Inl e)
      | Inr False \<Rightarrow> Some ([], Inl (lit ''sshdt is not configured; run `sshdt service enable` first''))
      | Inr True \<Rightarrow>
          (case se_running env of
             Inl e \<Rightarrow> Some ([], Inl e)
           | Inr True \<Rightarrow> Some ([Print (lit ''sshdt is already running'')], Inr ())
           | Inr False \<Rightarrow>
               (case saved_executable rg w of
                  Inl e \<Rightarrow> Some ([], Inl e)
                | Inr exe \<Rightarrow>
                    (if \<not> se_spawned env then Some ([], Inl (lit ''failed to start sshdt''))
                     else case wait_for_ready False (se_ready_polls env) of
                            None \<Rightarrow> None
                          | Some (Inr _) \<Rightarrow> Some ([SpawnService exe, Print (lit ''started sshdt'')], Inr ())
                          | Some (Inl e) \<Rightarrow>
                              map_option (\<lambda>(es, r). (SpawnService exe # es,
                                 case r of
                                   Inl _ \<Rightarrow> Inl (lit ''failed to stop sshdt after startup error: '' @ e)
                                 | Inr _ \<Rightarrow> Inl (lit ''sshdt did not become ready; run `sshdt service logs` for details'')))
                                (cleanup_failed_start (se_cleanup_polls env) (se_exited env)
                                   (se_killed env) (se_wait env))))))"

text \<open>\<open>restart\<close>: stopping quietly and starting; \<open>stopped\<close> is the outcome of \<open>stop\<close>.\<close>

definition restart_service ::
  "'w registry \<Rightarrow> 'w \<Rightarrow> service_effect list \<times> (str + unit) \<Rightarrow> start_env \<Rightarrow> (service_effect list \<times> (str + unit)) option" where
  "restart_service rg w stopped env =
     (case stopped of
        (es, Inl e) \<Rightarrow> Some (es, Inl e)
      | (es, Inr _) \<Rightarrow> map_option (\<lambda>(es', r). (es @ es', r)) (start_service rg w env))"

definition service_status :: "'w registry \<Rightarrow> 'w \<Rightarrow> str + bool \<Rightarrow> str + str" where
  "service_status rg w running =
     rbind (launch_at_login_enabled rg w) (\<lambda>enabled.
     rbind running (\<lambda>run.
       Inr (lit ''sshdt launch at login is '' @ (if enabled then lit ''enabled'' else lit ''disabled'') @
            lit ''; process is '' @ (if run then lit ''running'' else lit ''stopped''))))"

section \<open>Names and logs\<close>

definition event_name :: "str \<Rightarrow> string \<Rightarrow> str" where
  "event_name sid what = lit ''Global'' @ bslash # lit ''sshdt-service-'' @ sid @ lit ''-'' @ lit what"

definition is_service_log :: "str \<Rightarrow> bool" where
  "is_service_log name \<longleftrightarrow> starts_with name (lit ''sshdt.'') \<and> ends_with name (lit ''.log'')"

text \<open>The loop of \<open>latest_log\<close> over the entries: a failed read, or a name with its modification time.\<close>

fun latest_loop :: "(str \<times> nat) option \<Rightarrow> (str + str \<times> (str + nat)) list \<Rightarrow> str + (str \<times> nat) option" where
  "latest_loop latest [] = Inr latest"
| "latest_loop latest (Inl e # es) = Inl e"
| "latest_loop latest (Inr (name, time) # es) =
     (if \<not> is_service_log name then latest_loop latest es
      else case time of
             Inl e \<Rightarrow> Inl e
           | Inr modified \<Rightarrow>
               latest_loop
                 (if (case latest of None \<Rightarrow> True | Some (_, m) \<Rightarrow> m < modified)
                  then Some (name, modified) else latest) es)"

definition latest_log :: "(str + str \<times> (str + nat)) list \<Rightarrow> str + str option" where
  "latest_log es = rbind (latest_loop None es) (\<lambda>l. Inr (map_option fst l))"

lemma latest_loop_max:
  assumes "latest_loop latest es = Inr r"
  shows "(\<forall>n m. Inr (n, Inr m) \<in> set es \<longrightarrow> is_service_log n \<longrightarrow> (\<exists>n' m'. r = Some (n', m') \<and> m \<le> m')) \<and>
    (\<forall>n m. latest = Some (n, m) \<longrightarrow> (\<exists>n' m'. r = Some (n', m') \<and> m \<le> m'))"
  using assms
proof (induction latest es rule: latest_loop.induct)
  case (3 latest name time es)
  show ?case
  proof (cases "is_service_log name")
    case False
    then show ?thesis using 3 by auto
  next
    case True
    then obtain t where t: "time = Inr t" using 3(3) by (cases time) auto
    let ?l = "if (case latest of None \<Rightarrow> True | Some (_, m) \<Rightarrow> m < t) then Some (name, t) else latest"
    have "latest_loop ?l es = Inr r" using 3(3) True t by simp
    note ih = 3(2) [OF _ t this]
    have "\<exists>n' m'. ?l = Some (n', m') \<and> t \<le> m' \<and> (\<forall>n m. latest = Some (n, m) \<longrightarrow> m \<le> m')"
      by (auto split: option.splits)
    then obtain n1 m1 where m1: "?l = Some (n1, m1)" "t \<le> m1" "\<forall>n m. latest = Some (n, m) \<longrightarrow> m \<le> m1" by blast
    obtain n2 m2 where "r = Some (n2, m2)" "m1 \<le> m2" using ih True m1(1) by auto
    then show ?thesis using ih True t m1 by fastforce
  qed
qed auto

section \<open>What is saved is what is loaded\<close>

datatype reg_value = RegMulti "str list" | RegString str | RegBytes "u8 list"

text \<open>The documented behaviour the code relies on, for a view \<open>look\<close> of the stored values: a value
  that was written is read back and the others stay, a removed one is not found. A list of
  strings is kept when no string is empty.\<close>

definition registry_ok :: "'w registry \<Rightarrow> ('w \<Rightarrow> str \<times> str \<rightharpoonup> reg_value) \<Rightarrow> bool" where
  "registry_ok rg look \<longleftrightarrow>
     (\<forall>k w w'. rg_create rg k w = (Inr (), w') \<longrightarrow> look w' = look w) \<and>
     (\<forall>k v xs w w'. rg_set_multi rg k v xs w = (Inr (), w') \<longrightarrow> [] \<notin> set xs \<longrightarrow>
        look w' = (look w)((k, v) \<mapsto> RegMulti xs)) \<and>
     (\<forall>k v x w w'. rg_set_string rg k v x w = (Inr (), w') \<longrightarrow> look w' = (look w)((k, v) \<mapsto> RegString x)) \<and>
     (\<forall>k v x w w'. rg_set_bytes rg k v x w = (Inr (), w') \<longrightarrow> look w' = (look w)((k, v) \<mapsto> RegBytes x)) \<and>
     (\<forall>k w. rg_open_write rg k w = Inl RegNotFound \<longrightarrow> (\<forall>v. look w (k, v) = None)) \<and>
     (\<forall>k v w w'. rg_remove_value rg k v w = (Inr (), w') \<longrightarrow> look w' = (look w)((k, v) := None)) \<and>
     (\<forall>k v w w'. rg_remove_value rg k v w = (Inl RegNotFound, w') \<longrightarrow> look w' = look w \<and> look w (k, v) = None) \<and>
     (\<forall>k w w'. rg_remove_tree rg k w = (Inr (), w') \<longrightarrow> (\<forall>v. look w' (k, v) = None) \<and>
        (\<forall>k' v. k' \<noteq> k \<longrightarrow> \<not> starts_with k' (k @ [bslash]) \<longrightarrow> look w' (k', v) = look w (k', v))) \<and>
     (\<forall>k w w'. rg_remove_tree rg k w = (Inl RegNotFound, w') \<longrightarrow> look w' = look w \<and> (\<forall>v. look w (k, v) = None)) \<and>
     (\<forall>k v w xs. look w (k, v) = Some (RegMulti xs) \<longrightarrow> rg_get_multi rg k v w = Inr xs) \<and>
     (\<forall>k v w x. look w (k, v) = Some (RegString x) \<longrightarrow> rg_get_string rg k v w = Inr x) \<and>
     (\<forall>k v w x. look w (k, v) = Some (RegBytes x) \<longrightarrow> rg_get_value rg k v w = Inr x) \<and>
     (\<forall>k v w. look w (k, v) = None \<longrightarrow> rg_get_multi rg k v w = Inl RegNotFound \<and>
        rg_get_string rg k v w = Inl RegNotFound \<and> rg_get_value rg k v w = Inl RegNotFound)"

lemma with_context_Inr [simp]: "with_context msg m w = (Inr x, w') \<longleftrightarrow> m w = (Inr x, w')"
  by (auto simp: with_context_def split: prod.splits sum.splits)

lemma registry_keys [simp]:
  "SETTINGS_KEY \<noteq> RUN_KEY" "RUN_KEY \<noteq> SETTINGS_KEY" "SETTINGS_KEY \<noteq> STARTUP_APPROVED_KEY"
  "STARTUP_APPROVED_KEY \<noteq> SETTINGS_KEY" "RUN_KEY \<noteq> STARTUP_APPROVED_KEY" "STARTUP_APPROVED_KEY \<noteq> RUN_KEY"
  "ARGS_VALUE \<noteq> EXECUTABLE_VALUE" "EXECUTABLE_VALUE \<noteq> ARGS_VALUE"
  "\<not> starts_with RUN_KEY (SETTINGS_KEY @ [bslash])" "\<not> starts_with STARTUP_APPROVED_KEY (SETTINGS_KEY @ [bslash])"
  by (simp_all add: SETTINGS_KEY_def RUN_KEY_def STARTUP_APPROVED_KEY_def ARGS_VALUE_def EXECUTABLE_VALUE_def text_eval)

lemma registry_okD:
  assumes "registry_ok rg look"
  shows "rg_create rg k w = (Inr u, w') \<Longrightarrow> look w' = look w"
    and "rg_set_multi rg k v xs w = (Inr u, w') \<Longrightarrow> [] \<notin> set xs \<Longrightarrow> look w' = (look w)((k, v) \<mapsto> RegMulti xs)"
    and "rg_set_string rg k v x w = (Inr u, w') \<Longrightarrow> look w' = (look w)((k, v) \<mapsto> RegString x)"
    and "rg_set_bytes rg k v b w = (Inr u, w') \<Longrightarrow> look w' = (look w)((k, v) \<mapsto> RegBytes b)"
    and "rg_open_write rg k w = Inl RegNotFound \<Longrightarrow> look w (k, v) = None"
    and "look w (k, v) = Some (RegMulti xs) \<Longrightarrow> rg_get_multi rg k v w = Inr xs"
    and "look w (k, v) = Some (RegString x) \<Longrightarrow> rg_get_string rg k v w = Inr x"
    and "look w (k, v) = Some (RegBytes b) \<Longrightarrow> rg_get_value rg k v w = Inr b"
    and "look w (k, v) = None \<Longrightarrow> rg_get_multi rg k v w = Inl RegNotFound"
    and "look w (k, v) = None \<Longrightarrow> rg_get_string rg k v w = Inl RegNotFound"
    and "look w (k, v) = None \<Longrightarrow> rg_get_value rg k v w = Inl RegNotFound"
  using assms by (auto simp: registry_ok_def)

lemma registry_ok_remove:
  assumes "registry_ok rg look"
  shows "rg_remove_value rg k v w = (Inr u, w') \<Longrightarrow> look w' = (look w)((k, v) := None)"
    and "rg_remove_value rg k v w = (Inl RegNotFound, w') \<Longrightarrow> look w' = look w \<and> look w (k, v) = None"
    and "rg_remove_tree rg k w = (Inr u, w') \<Longrightarrow> look w' (k, v) = None"
    and "rg_remove_tree rg k w = (Inr u, w') \<Longrightarrow> k' \<noteq> k \<Longrightarrow> \<not> starts_with k' (k @ [bslash]) \<Longrightarrow>
      look w' (k', v) = look w (k', v)"
    and "rg_remove_tree rg k w = (Inl RegNotFound, w') \<Longrightarrow> look w' = look w \<and> look w (k, v) = None"
  using assms by (auto simp: registry_ok_def)

lemma remove_value_look:
  assumes "registry_ok rg look" and "remove_value rg k v msg w = (Inr u, w')"
  shows "look w' = (look w)((k, v) := None)"
proof (cases "rg_open_write rg k w")
  case (Inl e)
  then have "e = RegNotFound" "w' = w" using assms(2) by (auto simp: remove_value_def split: reg_error.splits)
  moreover have "look w (k, v) = None" if "e = RegNotFound" using registry_okD(5) [OF assms(1)] Inl that by simp
  ultimately show ?thesis by (simp add: fun_upd_idem)
next
  case (Inr x)
  obtain r where r: "rg_remove_value rg k v w = (r, w')" "r = Inr () \<or> r = Inl RegNotFound"
    using assms(2) Inr by (auto simp: remove_value_def split: prod.splits sum.splits reg_error.splits)
  from r(2) show ?thesis
  proof
    assume "r = Inr ()"
    then show ?thesis using r(1) registry_ok_remove(1) [OF assms(1)] by simp
  next
    assume "r = Inl RegNotFound"
    then have "look w' = look w" "look w (k, v) = None"
      using r(1) registry_ok_remove(2) [OF assms(1)] by simp_all
    then show ?thesis by (simp add: fun_upd_idem)
  qed
qed

text \<open>What the registry holds after the settings were written, before the startup approval.\<close>

lemma enable_look:
  assumes "registry_ok rg look" and "enable rg exe console opts w = (Inr u, w')"
  shows "\<exists>w0 w1 w2. rg_set_multi rg SETTINGS_KEY ARGS_VALUE opts w0 = (Inr (), w1) \<and>
      look w2 = (look w1)((SETTINGS_KEY, EXECUTABLE_VALUE) \<mapsto> RegString exe,
        (RUN_KEY, APP_NAME) \<mapsto> RegString (launch_command exe console)) \<and> approve_startup rg w2 = (Inr u, w')"
proof -
  obtain w1 w2 w3 w4 where st: "rg_set_multi rg SETTINGS_KEY ARGS_VALUE opts w1 = (Inr (), w2)"
    "rg_set_string rg SETTINGS_KEY EXECUTABLE_VALUE exe w2 = (Inr (), w3)"
    "set_run_entry rg (launch_command exe console) w3 = (Inr (), w4)" "approve_startup rg w4 = (Inr u, w')"
    using assms(2) by (auto simp: enable_def Let_def abind_Inr)
  obtain w3' where run: "rg_create rg RUN_KEY w3 = (Inr (), w3')"
    "rg_set_string rg RUN_KEY APP_NAME (launch_command exe console) w3' = (Inr (), w4)"
    using st(3) by (auto simp: set_run_entry_def split: prod.splits sum.splits)
  have "look w4 = (look w2)((SETTINGS_KEY, EXECUTABLE_VALUE) \<mapsto> RegString exe,
      (RUN_KEY, APP_NAME) \<mapsto> RegString (launch_command exe console))"
    using registry_okD(3) [OF assms(1) st(2)] registry_okD(1) [OF assms(1) run(1)]
      registry_okD(3) [OF assms(1) run(2)] by simp
  then show ?thesis using st(1,4) by blast
qed

lemma approve_startup_look:
  assumes "registry_ok rg look" and "approve_startup rg w = (Inr u, w')"
  shows "startup_approved rg w' = Inr True \<and> (\<forall>k v. k \<noteq> STARTUP_APPROVED_KEY \<longrightarrow> look w' (k, v) = look w (k, v))"
proof (cases "rg_open_write rg STARTUP_APPROVED_KEY w")
  case (Inl e)
  then have "e = RegNotFound" "w' = w"
    using assms(2) by (auto simp: approve_startup_def split: reg_error.splits)
  then show ?thesis
    using Inl registry_okD(5,11) [OF assms(1)] by (simp add: startup_approved_def)
next
  case (Inr x)
  then have "rg_set_bytes rg STARTUP_APPROVED_KEY APP_NAME STARTUP_ENABLED w = (Inr u, w')"
    using assms(2) by (simp add: approve_startup_def)
  from registry_okD(4) [OF assms(1) this] show ?thesis
    using registry_okD(8) [OF assms(1), of w' STARTUP_APPROVED_KEY APP_NAME STARTUP_ENABLED]
    by (simp add: startup_approved_def STARTUP_ENABLED_def)
qed

text \<open>
  Enabling is read back: after launch at login was enabled with options none of which is
  empty, the background process starts with exactly these options and the same executable, the
  settings count as configured and launch at login as enabled.
\<close>

lemma enable_roundtrip:
  assumes "registry_ok rg look" and "[] \<notin> set opts" and "enable rg exe console opts w = (Inr u, w')"
  shows "saved_args rg w' = Inr opts \<and> saved_executable rg w' = Inr exe \<and> is_configured rg w' = Inr True \<and>
    launch_at_login_enabled rg w' = Inr True"
proof -
  obtain w0 w1 w2 where w1: "rg_set_multi rg SETTINGS_KEY ARGS_VALUE opts w0 = (Inr (), w1)"
      "look w2 = (look w1)((SETTINGS_KEY, EXECUTABLE_VALUE) \<mapsto> RegString exe,
        (RUN_KEY, APP_NAME) \<mapsto> RegString (launch_command exe console))" "approve_startup rg w2 = (Inr u, w')"
    using enable_look [OF assms(1,3)] by blast
  note ap = approve_startup_look [OF assms(1) w1(3)]
  have g: "rg_get_multi rg SETTINGS_KEY ARGS_VALUE w' = Inr opts" "rg_get_string rg SETTINGS_KEY EXECUTABLE_VALUE w' = Inr exe"
    "rg_get_string rg RUN_KEY APP_NAME w' = Inr (launch_command exe console)"
    using registry_okD(2,6,7) [OF assms(1)] w1(1,2) ap assms(2) by simp_all
  moreover have "filter (\<lambda>a. a \<noteq> []) opts = opts" using assms(2) by (auto intro: filter_True)
  ultimately show ?thesis
    using ap by (simp add: saved_args_def try_saved_args_def saved_executable_def is_configured_def
        launch_at_login_enabled_def has_run_entry_def)
qed

text \<open>A list with empty strings is ambiguous in the registry, which ends each string and the list with
  the same character; what is relied on for it is that the other strings come back, in order.\<close>

definition multi_keeps_words :: "'w registry \<Rightarrow> ('w \<Rightarrow> str \<times> str \<rightharpoonup> reg_value) \<Rightarrow> bool" where
  "multi_keeps_words rg look \<longleftrightarrow>
     (\<forall>k v xs w w'. rg_set_multi rg k v xs w = (Inr (), w') \<longrightarrow>
        (\<exists>ys. look w' = (look w)((k, v) \<mapsto> RegMulti ys) \<and> filter (\<lambda>x. x \<noteq> []) ys = filter (\<lambda>x. x \<noteq> []) xs))"

lemma enable_saves_words:
  assumes "registry_ok rg look" and "multi_keeps_words rg look" and "enable rg exe console opts w = (Inr u, w')"
  shows "saved_args rg w' = Inr (filter (\<lambda>x. x \<noteq> []) opts)"
proof -
  obtain w0 w1 w2 where w1: "rg_set_multi rg SETTINGS_KEY ARGS_VALUE opts w0 = (Inr (), w1)"
      "look w2 = (look w1)((SETTINGS_KEY, EXECUTABLE_VALUE) \<mapsto> RegString exe,
        (RUN_KEY, APP_NAME) \<mapsto> RegString (launch_command exe console))" "approve_startup rg w2 = (Inr u, w')"
    using enable_look [OF assms(1,3)] by blast
  note ap = approve_startup_look [OF assms(1) w1(3)]
  obtain ys where ys: "look w1 = (look w0)((SETTINGS_KEY, ARGS_VALUE) \<mapsto> RegMulti ys)"
      "filter (\<lambda>x. x \<noteq> []) ys = filter (\<lambda>x. x \<noteq> []) opts"
    using assms(2) w1(1) unfolding multi_keeps_words_def by blast
  have "rg_get_multi rg SETTINGS_KEY ARGS_VALUE w' = Inr ys"
    using registry_okD(6) [OF assms(1)] w1(2) ys(1) ap by simp
  then show ?thesis using ys(2) by (simp add: saved_args_def try_saved_args_def)
qed

text \<open>
  Uninstalling leaves nothing behind: when it succeeds, there are no saved options, the
  settings do not count as configured and launch at login is off.
\<close>

lemma uninstall_removes:
  assumes "registry_ok rg look" and "uninstall rg stopped w = (Inr u, w')"
  shows "try_saved_args rg w' = Inr None \<and> is_configured rg w' = Inr False \<and> launch_at_login_enabled rg w' = Inr False"
proof -
  obtain w1 w2 where st: "remove_value rg RUN_KEY APP_NAME ''failed to disable sshdt launch at login'' w = (Inr (), w1)"
    "remove_value rg STARTUP_APPROVED_KEY APP_NAME ''failed to remove sshdt from Windows startup settings'' w1 = (Inr (), w2)"
    "remove_settings rg w2 = (Inr u, w')"
    using assms(2) by (auto simp: uninstall_def abind_Inr disable_def)
  have run: "look w2 (RUN_KEY, APP_NAME) = None"
    using remove_value_look [OF assms(1) st(1)] remove_value_look [OF assms(1) st(2)] by simp
  have "look w' (SETTINGS_KEY, v) = None \<and> look w' (RUN_KEY, APP_NAME) = None" for v
    using st(3) run registry_ok_remove(3-5) [OF assms(1), of SETTINGS_KEY w2]
    by (auto simp: remove_settings_def split: prod.splits sum.splits reg_error.splits)
  then show ?thesis
    using registry_okD(9,10) [OF assms(1)]
    by (simp add: try_saved_args_def is_configured_def launch_at_login_enabled_def has_run_entry_def)
qed

definition demo_registry :: "(str \<times> str \<rightharpoonup> reg_value) registry" where
  "demo_registry =
     \<lparr>rg_create = (\<lambda>k w. (Inr (), w)), rg_open_write = (\<lambda>k w. Inr ()),
      rg_set_multi = (\<lambda>k v x w. (Inr (), w((k, v) \<mapsto> RegMulti x))),
      rg_set_string = (\<lambda>k v x w. (Inr (), w((k, v) \<mapsto> RegString x))),
      rg_set_bytes = (\<lambda>k v x w. (Inr (), w((k, v) \<mapsto> RegBytes x))),
      rg_get_multi = (\<lambda>k v w. case w (k, v) of Some (RegMulti x) \<Rightarrow> Inr x | None \<Rightarrow> Inl RegNotFound | _ \<Rightarrow> Inl (RegOther [])),
      rg_get_string = (\<lambda>k v w. case w (k, v) of Some (RegString x) \<Rightarrow> Inr x | None \<Rightarrow> Inl RegNotFound | _ \<Rightarrow> Inl (RegOther [])),
      rg_get_value = (\<lambda>k v w. case w (k, v) of Some (RegBytes x) \<Rightarrow> Inr x | None \<Rightarrow> Inl RegNotFound | _ \<Rightarrow> Inl (RegOther [])),
      rg_remove_value = (\<lambda>k v w. if w (k, v) = None then (Inl RegNotFound, w) else (Inr (), w((k, v) := None))),
      rg_remove_tree = (\<lambda>k w. (Inr (), \<lambda>(k', v). if k' = k \<or> starts_with k' (k @ [bslash]) then None else w (k', v)))\<rparr>"

lemma demo_registry_ok: "registry_ok demo_registry (\<lambda>w. w)"
  by (simp add: registry_ok_def demo_registry_def)

lemma demo_enable: "\<exists>w'. enable demo_registry (lit ''s.exe'') None opts Map.empty = (Inr (), w')"
  by (simp add: enable_def abind_def with_context_def set_run_entry_def approve_startup_def demo_registry_def Let_def)

lemma demo_registry_words: "multi_keeps_words demo_registry (\<lambda>w. w)"
  by (auto simp: multi_keeps_words_def demo_registry_def)

section \<open>Starting and cleaning up\<close>

lemma wait_for_ready_ends: "p \<in> set ps \<Longrightarrow> rp_late p \<Longrightarrow> wait_for_ready observed ps \<noteq> None"
  by (induction observed ps rule: wait_for_ready.induct)
     (auto simp: Let_def split: sum.split bool.split option.split)

lemma cleanup_loop_ends: "p \<in> set ps \<Longrightarrow> cp_late p \<Longrightarrow> cleanup_loop requested ps \<noteq> None"
  by (induction ps arbitrary: requested) (auto simp: Let_def split: sum.split bool.split, blast+)

lemma cleanup_loop_gone: "cleanup_loop requested ps = Some (es, Inr True) \<Longrightarrow> \<exists>p \<in> set ps. cp_exited p = Inr True"
  by (induction requested ps arbitrary: es rule: cleanup_loop.induct)
     (auto simp: Let_def split: sum.splits bool.splits if_splits)

text \<open>The child of a start is known to be gone.\<close>

definition child_gone :: "start_env \<Rightarrow> service_effect list \<Rightarrow> bool" where
  "child_gone env es \<longleftrightarrow> ReapService \<in> set es \<or> (\<exists>p \<in> set (se_cleanup_polls env). cp_exited p = Inr True)"

lemma cleanup_gone:
  assumes "cleanup_failed_start (se_cleanup_polls env) exited killed wait = Some (es, Inr u)"
  shows "child_gone env es"
  using assms cleanup_loop_gone [of False "se_cleanup_polls env"]
  by (fastforce simp: cleanup_failed_start_def child_gone_def Let_def split: option.splits sum.splits bool.splits if_splits)

lemma cleanup_ends:
  "p \<in> set polls \<Longrightarrow> cp_late p \<Longrightarrow> wait True \<noteq> None \<Longrightarrow> cleanup_failed_start polls exited killed wait \<noteq> None"
  using cleanup_loop_ends [of p polls False]
  by (auto simp: cleanup_failed_start_def Let_def split: option.split sum.split bool.split)

lemma cleanup_effects: "cleanup_failed_start polls exited killed wait = Some (es, r) \<Longrightarrow> SpawnService exe \<notin> set es"
proof -
  have "cleanup_loop req ps = Some (es', r') \<Longrightarrow> SpawnService exe \<notin> set es'" for req ps es' r'
    by (induction req ps arbitrary: es' rule: cleanup_loop.induct)
       (auto simp: Let_def split: sum.splits bool.splits if_splits)
  then show "cleanup_failed_start polls exited killed wait = Some (es, r) \<Longrightarrow> SpawnService exe \<notin> set es"
    by (auto simp: cleanup_failed_start_def Let_def split: option.splits sum.splits bool.splits if_splits)
qed

text \<open>
  C40. Starting in the background comes to an end and cleans up: once the deadlines have passed it
  has an outcome, provided that waiting for a process that has ended or was killed returns, so it
  never waits for a process that may still run; it never starts more than one process; and when it reports a failure after
  having started the process, that process is gone, unless the message says that stopping it
  failed.
\<close>

theorem start_service_ends:
  assumes "\<exists>p \<in> set (se_ready_polls env). rp_late p" and "\<exists>p \<in> set (se_cleanup_polls env). cp_late p"
    and "se_wait env True \<noteq> None"
  shows "\<exists>es r. start_service rg w env = Some (es, r) \<and>
     length (filter (\<lambda>x. \<exists>exe. x = SpawnService exe) es) \<le> 1 \<and>
     (\<forall>e exe. r = Inl e \<longrightarrow> SpawnService exe \<in> set es \<longrightarrow>
        child_gone env es \<or> starts_with e (lit ''failed to stop sshdt after startup error: ''))"
proof (cases "\<exists>exe. is_configured rg w = Inr True \<and> se_running env = Inr False \<and> saved_executable rg w = Inr exe \<and> se_spawned env")
  case False
  then show ?thesis by (auto simp: start_service_def split: sum.split bool.split)
next
  case True
  then obtain exe where c: "is_configured rg w = Inr True" "se_running env = Inr False" "saved_executable rg w = Inr exe"
    "se_spawned env" by blast
  obtain r where r: "wait_for_ready False (se_ready_polls env) = Some r"
    using assms(1) wait_for_ready_ends by blast
  obtain es q where q: "cleanup_failed_start (se_cleanup_polls env) (se_exited env) (se_killed env) (se_wait env) = Some (es, q)"
    using assms(2,3) cleanup_ends by fastforce
  have none: "filter (\<lambda>x. \<exists>exe. x = SpawnService exe) es = []"
    using cleanup_effects [OF q] by (auto simp: filter_empty_conv)
  have gone: "child_gone env es" if "q = Inr ()" using cleanup_gone q that by blast
  show ?thesis
  proof (cases r)
    case (Inr u)
    then show ?thesis using c r by (simp add: start_service_def)
  next
    case (Inl e)
    then show ?thesis
      using c r q none gone by (cases q) (auto simp: start_service_def child_gone_def starts_with_iff_prefix)
  qed
qed

definition demo_start :: start_env where
  "demo_start =
     \<lparr>se_running = Inr False, se_spawned = True,
      se_ready_polls = [\<lparr>rp_ready = Inr False, rp_running = Inr True, rp_exited = Inr None, rp_late = False\<rparr>,
        \<lparr>rp_ready = Inr False, rp_running = Inr True, rp_exited = Inr None, rp_late = True\<rparr>],
      se_cleanup_polls = [\<lparr>cp_exited = Inr False, cp_stop = Inr True, cp_set = True, cp_late = False\<rparr>,
        \<lparr>cp_exited = Inr False, cp_stop = Inr True, cp_set = True, cp_late = True\<rparr>],
      se_exited = Inr False, se_killed = True, se_wait = (\<lambda>ended. if ended then Some True else None)\<rparr>"

definition demo_settings :: "str \<times> str \<rightharpoonup> reg_value" where
  "demo_settings = [(SETTINGS_KEY, ARGS_VALUE) \<mapsto> RegMulti [], (SETTINGS_KEY, EXECUTABLE_VALUE) \<mapsto> RegString (lit ''s'')]"

lemma demo_start_result:
  "start_service demo_registry demo_settings demo_start =
     Some ([SpawnService (lit ''s''), SetStop, KillService, ReapService],
       Inl (lit ''sshdt did not become ready; run `sshdt service logs` for details''))"
  by (simp add: start_service_def is_configured_def try_saved_args_def saved_executable_def demo_registry_def
      demo_settings_def demo_start_def cleanup_failed_start_def Let_def)

theorem start_service_ends_witness: "child_gone demo_start [SpawnService (lit ''s''), SetStop, KillService, ReapService]"
proof -
  have "\<exists>p \<in> set (se_ready_polls demo_start). rp_late p" "\<exists>p \<in> set (se_cleanup_polls demo_start). cp_late p"
    "se_wait demo_start True \<noteq> None"
    by (simp_all add: demo_start_def)
  from start_service_ends [OF this, of demo_registry demo_settings] show ?thesis
    by (auto simp: demo_start_result text_eval)
qed

end
