(* ===== verification/Guard.thy ===== *)
theory Guard
  imports Service
begin

text \<open>
  The guard of a running service (\<open>RunGuard\<close> in \<open>service.rs\<close>): three named events of the operating
  system by which the service says that it runs and that it is ready, and is asked to stop. The
  functions here are the code's; what the system does with named events (an event lives as long as
  somebody has a handle to it, creating an existing one gives a handle to it as it is) is the step
  relation over the processes of one user.
\<close>

section \<open>Handles\<close>

definition ERROR_FILE_NOT_FOUND :: u32 where "ERROR_FILE_NOT_FOUND = 2"
definition ERROR_ALREADY_EXISTS :: u32 where "ERROR_ALREADY_EXISTS = 183"

text \<open>A null handle is \<open>0\<close>; \<open>describe\<close> is the text of a system error.\<close>

definition optional_handle :: "(u32 \<Rightarrow> str) \<Rightarrow> u64 \<Rightarrow> u32 \<Rightarrow> str + u64 option" where
  "optional_handle describe handle last_error =
     (if handle \<noteq> 0 then Inr (Some handle)
      else if last_error = ERROR_FILE_NOT_FOUND then Inr None
      else Inl (describe last_error))"

definition open_event :: "(str \<Rightarrow> u64 \<times> u32) \<Rightarrow> (u32 \<Rightarrow> str) \<Rightarrow> str \<Rightarrow> str + u64 option" where
  "open_event open_event_w describe name = (case open_event_w name of (h, e) \<Rightarrow> optional_handle describe h e)"

definition is_running :: "(str \<Rightarrow> u64 \<times> u32) \<Rightarrow> (u32 \<Rightarrow> str) \<Rightarrow> str \<Rightarrow> str + bool" where
  "is_running open_event_w describe sid =
     rbind (open_event open_event_w describe (event_name sid ''running'')) (\<lambda>h. Inr (h \<noteq> None))"

section \<open>The guard\<close>

datatype ev_name = EvRunning | EvStop | EvReady

fun name_text :: "ev_name \<Rightarrow> string" where
  "name_text EvRunning = ''running''"
| "name_text EvStop = ''stop''"
| "name_text EvReady = ''ready''"

text \<open>What \<open>CreateEventW\<close> reports: a null handle, or a handle with the last error.\<close>

datatype created = CreatedNew | CreatedExisting | CreateFailed

definition created_of :: "u64 \<Rightarrow> u32 \<Rightarrow> created" where
  "created_of handle last_error =
     (if handle = 0 then CreateFailed
      else if last_error = ERROR_ALREADY_EXISTS then CreatedExisting else CreatedNew)"

datatype ev_effect =
    EvCreate ev_name created
  | EvOpen ev_name bool
  | EvSet ev_name
  | EvPoll ev_name bool
  | EvClose ev_name

text \<open>\<open>RunGuard::acquire\<close>: \<open>security\<close> is the outcome of \<open>guard_security\<close>; the handles made so far are closed
  on the way out of an error.\<close>

definition run_guard_acquire ::
  "str + str \<times> u16 list \<Rightarrow> created \<Rightarrow> created \<Rightarrow> created \<Rightarrow> ev_effect list \<times> (str + unit)" where
  "run_guard_acquire security running stop ready =
     (case security of
        Inl e \<Rightarrow> ([], Inl e)
      | Inr _ \<Rightarrow>
          (case running of
             CreateFailed \<Rightarrow> ([EvCreate EvRunning running], Inl (lit ''failed to create sshdt running event''))
           | CreatedExisting \<Rightarrow>
               ([EvCreate EvRunning running, EvClose EvRunning], Inl (lit ''sshdt is already running''))
           | CreatedNew \<Rightarrow>
               (if stop = CreateFailed
                then ([EvCreate EvRunning running, EvCreate EvStop stop, EvClose EvRunning],
                      Inl (lit ''failed to create sshdt service event''))
                else if ready = CreateFailed
                then ([EvCreate EvRunning running, EvCreate EvStop stop, EvCreate EvReady ready,
                       EvClose EvStop, EvClose EvRunning],
                      Inl (lit ''failed to create sshdt service event''))
                else ([EvCreate EvRunning running, EvCreate EvStop stop, EvCreate EvReady ready], Inr ()))))"

definition mark_ready :: "bool \<Rightarrow> ev_effect list \<times> (str + unit)" where
  "mark_ready set_event =
     (if set_event then ([EvSet EvReady], Inr ()) else ([], Inl (lit ''failed to publish sshdt readiness'')))"

datatype wait_result = WaitObject | WaitTimeout | WaitFailed

fun wait_for_stop :: "wait_result list \<Rightarrow> (ev_effect list \<times> (str + unit)) option" where
  "wait_for_stop [] = None"
| "wait_for_stop (WaitObject # ws) = Some ([EvPoll EvStop True], Inr ())"
| "wait_for_stop (WaitTimeout # ws) = map_option (\<lambda>(es, r). (EvPoll EvStop False # es, r)) (wait_for_stop ws)"
| "wait_for_stop (WaitFailed # ws) = Some ([], Inl (lit ''failed while waiting for sshdt stop request''))"

text \<open>Dropping the guard closes its handles in the order of its fields.\<close>

definition drop_guard :: "ev_effect list" where
  "drop_guard = [EvClose EvRunning, EvClose EvStop, EvClose EvReady]"

text \<open>A service process as far as the events are concerned: the guard, the server (\<open>started\<close> is whether
  it could be started), readiness, and waiting to be stopped.\<close>

record service_env =
  sn_security :: win_env
  sn_running :: created
  sn_stop :: created
  sn_ready :: created
  sn_started :: "str + unit"
  sn_set_ready :: bool
  sn_waits :: "wait_result list"

definition service_process :: "service_env \<Rightarrow> (ev_effect list \<times> (str + unit)) option" where
  "service_process env =
     (case run_guard_acquire (snd (guard_security (sn_security env))) (sn_running env) (sn_stop env) (sn_ready env) of
        (es, Inl e) \<Rightarrow> Some (es, Inl e)
      | (es, Inr _) \<Rightarrow>
          (case sn_started env of
             Inl e \<Rightarrow> Some (es @ drop_guard, Inl e)
           | Inr _ \<Rightarrow>
               (case mark_ready (sn_set_ready env) of
                  (es1, Inl e) \<Rightarrow> Some (es @ es1 @ drop_guard, Inl e)
                | (es1, Inr _) \<Rightarrow>
                    map_option (\<lambda>(es2, r). (es @ es1 @ es2 @ drop_guard, r)) (wait_for_stop (sn_waits env)))))"

text \<open>\<open>service stop\<close> in the same terms: the stop event is opened and set, and held while the running
  event is polled; \<open>n\<close> polls still find it.\<close>

definition stop_process_effects :: "nat \<Rightarrow> ev_effect list" where
  "stop_process_effects n =
     [EvOpen EvStop True, EvSet EvStop] @ concat (replicate n [EvOpen EvRunning True, EvClose EvRunning]) @
     [EvOpen EvRunning False, EvClose EvStop]"

section \<open>The processes of one user\<close>

record ev_machine =
  em_signal :: "ev_name \<Rightarrow> bool"
  em_handles :: "ev_name \<Rightarrow> nat list"
  em_done :: "nat \<Rightarrow> ev_effect list"
  em_todo :: "nat \<Rightarrow> ev_effect list"

definition ev_init :: ev_machine where
  "ev_init = \<lparr>em_signal = (\<lambda>_. False), em_handles = (\<lambda>_. []), em_done = (\<lambda>_. []), em_todo = (\<lambda>_. [])\<rparr>"

fun ev_allows :: "ev_machine \<Rightarrow> ev_effect \<Rightarrow> bool" where
  "ev_allows s (EvCreate n c) =
     (case c of CreatedNew \<Rightarrow> em_handles s n = [] | CreatedExisting \<Rightarrow> em_handles s n \<noteq> [] | CreateFailed \<Rightarrow> True)"
| "ev_allows s (EvOpen n found) = (found = (em_handles s n \<noteq> []))"
| "ev_allows s (EvPoll n signalled) = (signalled = em_signal s n)"
| "ev_allows s _ = True"

text \<open>The running event is created set, the others not; the signal of an existing event stays.\<close>

fun signal_after :: "ev_effect \<Rightarrow> (ev_name \<Rightarrow> bool) \<Rightarrow> ev_name \<Rightarrow> bool" where
  "signal_after (EvCreate n CreatedNew) f = f(n := (n = EvRunning))"
| "signal_after (EvSet n) f = f(n := True)"
| "signal_after _ f = f"

fun handles_after :: "nat \<Rightarrow> ev_effect \<Rightarrow> (ev_name \<Rightarrow> nat list) \<Rightarrow> ev_name \<Rightarrow> nat list" where
  "handles_after i (EvCreate n c) h = (if c = CreateFailed then h else h(n := i # h n))"
| "handles_after i (EvOpen n found) h = (if found then h(n := i # h n) else h)"
| "handles_after i (EvClose n) h = h(n := remove1 i (h n))"
| "handles_after i _ h = h"

definition ev_perform :: "nat \<Rightarrow> ev_effect \<Rightarrow> ev_effect list \<Rightarrow> ev_machine \<Rightarrow> ev_machine" where
  "ev_perform i e rest s =
     \<lparr>em_signal = signal_after e (em_signal s), em_handles = handles_after i e (em_handles s),
      em_done = (em_done s)(i := em_done s i @ [e]), em_todo = (em_todo s)(i := rest)\<rparr>"

text \<open>The system closes the handles of a process that ends.\<close>

definition ev_died :: "nat \<Rightarrow> ev_machine \<Rightarrow> ev_machine" where
  "ev_died i s =
     \<lparr>em_signal = em_signal s, em_handles = (\<lambda>n. filter (\<lambda>j. j \<noteq> i) (em_handles s n)),
      em_done = (em_done s)(i := em_done s i @ drop_guard), em_todo = (em_todo s)(i := [])\<rparr>"

inductive ev_step :: "ev_machine \<Rightarrow> ev_machine \<Rightarrow> bool" where
  service_starts: "em_todo s i = [] \<Longrightarrow> em_done s i = [] \<Longrightarrow> service_process env = Some (es, r) \<Longrightarrow>
    ev_step s (s\<lparr>em_todo := (em_todo s)(i := es)\<rparr>)"
| stop_starts: "em_todo s i = [] \<Longrightarrow> em_done s i = [] \<Longrightarrow>
    ev_step s (s\<lparr>em_todo := (em_todo s)(i := stop_process_effects n)\<rparr>)"
| ev_acts: "em_todo s i = e # rest \<Longrightarrow> ev_allows s e \<Longrightarrow> ev_step s (ev_perform i e rest s)"
| ev_dies: "ev_step s (ev_died i s)"

inductive_cases ev_stepE: "ev_step s s'"

text \<open>A process that holds the guard: it created the running event and has not closed it.\<close>

definition holds_guard :: "ev_machine \<Rightarrow> nat \<Rightarrow> bool" where
  "holds_guard s i \<longleftrightarrow> EvCreate EvRunning CreatedNew \<in> set (em_done s i) \<and> EvClose EvRunning \<notin> set (em_done s i)"

section \<open>One service per user\<close>

definition guard_inv :: "ev_machine \<Rightarrow> bool" where
  "guard_inv s \<longleftrightarrow>
     (\<forall>i. holds_guard s i \<longrightarrow> i \<in> set (em_handles s EvRunning)) \<and>
     (\<forall>i j. holds_guard s i \<longrightarrow> holds_guard s j \<longrightarrow> i = j)"

lemma handles_keep:
  "i \<in> set (h n) \<Longrightarrow> e \<noteq> EvClose n \<or> j \<noteq> i \<Longrightarrow> i \<in> set (handles_after j e h n)"
  by (cases e) auto

lemma holds_guard_perform:
  "holds_guard (ev_perform i e rest s) j \<longleftrightarrow>
     (if j = i then (holds_guard s i \<and> e \<noteq> EvClose EvRunning) \<or>
        (e = EvCreate EvRunning CreatedNew \<and> EvClose EvRunning \<notin> set (em_done s i))
      else holds_guard s j)"
  by (auto simp: holds_guard_def ev_perform_def)

lemma handles_perform [simp]: "em_handles (ev_perform i e rest s) = handles_after i e (em_handles s)"
  by (simp add: ev_perform_def)

lemma acts_guard_inv:
  assumes "guard_inv s" and "ev_allows s e"
  shows "guard_inv (ev_perform i e rest s)"
proof (cases "e = EvCreate EvRunning CreatedNew")
  case True
  then have "em_handles s EvRunning = []" using assms(2) by simp
  then have "\<not> holds_guard s j" for j using assms(1) by (auto simp: guard_inv_def)
  moreover have "i \<in> set (em_handles (ev_perform i e rest s) EvRunning)" by (simp add: True)
  ultimately show ?thesis by (auto simp: guard_inv_def holds_guard_perform split: if_splits)
next
  case False
  have "j \<in> set (em_handles (ev_perform i e rest s) EvRunning)" if "holds_guard (ev_perform i e rest s) j" for j
    using that False assms(1) handles_keep [of j "em_handles s" EvRunning e i]
    by (auto simp: holds_guard_perform guard_inv_def split: if_splits)
  then show ?thesis
    using False assms(1) by (auto simp: guard_inv_def holds_guard_perform split: if_splits)
qed

lemma ev_step_inv: "ev_step s s' \<Longrightarrow> guard_inv s \<Longrightarrow> guard_inv s'"
proof (induction rule: ev_step.induct)
  case (ev_acts s i e rest)
  then show ?case by (simp add: acts_guard_inv)
next
  case (ev_dies s i)
  have "holds_guard (ev_died i s) j \<longleftrightarrow> holds_guard s j \<and> j \<noteq> i" for j
    by (auto simp: holds_guard_def ev_died_def drop_guard_def)
  then show ?case using ev_dies by (auto simp: guard_inv_def ev_died_def)
qed (auto simp: guard_inv_def holds_guard_def)

interpretation ev_system: reachable_system ev_step "\<lambda>s. s = ev_init" guard_inv
  by unfold_locales (simp add: guard_inv_def holds_guard_def ev_init_def, rule ev_step_inv)

text \<open>A guard that was given is one that is held.\<close>

lemma acquired_holds:
  assumes "run_guard_acquire security running stop ready = (es, Inr u)" and "prefix es (em_done s i)"
    and "EvClose EvRunning \<notin> set (em_done s i)"
  shows "holds_guard s i"
proof -
  have "EvCreate EvRunning CreatedNew \<in> set es"
    using assms(1) by (auto simp: run_guard_acquire_def split: sum.splits created.splits if_splits)
  then show ?thesis using assms(2,3) by (auto simp: holds_guard_def dest: set_mono_prefix)
qed

text \<open>
  C17. At most one service runs per user: in every interleaving of services that start, fail, run and
  end or are killed, and of stop commands, a process whose guard was given and not yet dropped
  has a handle to the running event, and no other process has a guard that was given and not yet
  dropped.
\<close>

theorem single_service:
  assumes "ev_step\<^sup>*\<^sup>* ev_init s"
    and "run_guard_acquire sec r st rd = (es, Inr ())" and "prefix es (em_done s i)" and "EvClose EvRunning \<notin> set (em_done s i)"
  shows "i \<in> set (em_handles s EvRunning) \<and>
    (\<forall>j sec' r' st' rd' es'. run_guard_acquire sec' r' st' rd' = (es', Inr ()) \<longrightarrow> prefix es' (em_done s j) \<longrightarrow>
       EvClose EvRunning \<notin> set (em_done s j) \<longrightarrow> j = i)"
  using ev_system.reached_inv [OF refl assms(1)] acquired_holds [OF assms(2-4)] acquired_holds
  by (metis guard_inv_def)

text \<open>Running the machine along a schedule of process numbers.\<close>

fun ev_sched :: "nat list \<Rightarrow> ev_machine \<Rightarrow> ev_machine option" where
  "ev_sched [] s = Some s"
| "ev_sched (i # is) s =
     (case em_todo s i of
        [] \<Rightarrow> None
      | e # rest \<Rightarrow> if ev_allows s e then ev_sched is (ev_perform i e rest s) else None)"

lemma ev_sched_steps: "ev_sched is s = Some s' \<Longrightarrow> ev_step\<^sup>*\<^sup>* s s'"
proof (induction "is" arbitrary: s)
  case (Cons i "is")
  then obtain e rest where e: "em_todo s i = e # rest" "ev_allows s e" "ev_sched is (ev_perform i e rest s) = Some s'"
    by (auto split: list.splits if_splits)
  then show ?case
    using Cons.IH [OF e(3)] ev_acts [OF e(1,2)] by (meson converse_rtranclp_into_rtranclp)
qed simp

definition demo_service :: "created \<Rightarrow> service_env" where
  "demo_service stop = \<lparr>sn_security = demo_win, sn_running = CreatedNew, sn_stop = stop, sn_ready = CreatedNew,
     sn_started = Inr (), sn_set_ready = True, sn_waits = [WaitObject]\<rparr>"

definition demo_effects :: "created \<Rightarrow> ev_effect list" where
  "demo_effects stop = [EvCreate EvRunning CreatedNew, EvCreate EvStop stop, EvCreate EvReady CreatedNew, EvSet EvReady,
     EvPoll EvStop True, EvClose EvRunning, EvClose EvStop, EvClose EvReady]"

lemma demo_service_process:
  "stop \<noteq> CreateFailed \<Longrightarrow> service_process (demo_service stop) = Some (demo_effects stop, Inr ())"
  by (simp add: service_process_def demo_service_def run_guard_acquire_def mark_ready_def drop_guard_def
      demo_effects_def guard_security_def current_user_sid_def event_security_def demo_win_def
      ERROR_INSUFFICIENT_BUFFER_def Let_def)

lemma demo_service_starts:
  assumes "ev_step\<^sup>*\<^sup>* ev_init s" and "em_todo s i = []" and "em_done s i = []" and "stop \<noteq> CreateFailed"
  shows "ev_step\<^sup>*\<^sup>* ev_init (s\<lparr>em_todo := (em_todo s)(i := demo_effects stop)\<rparr>)"
  using assms(1) service_starts [OF assms(2,3) demo_service_process [OF assms(4)]]
  by (rule rtranclp.rtrancl_into_rtrancl)

definition demo_first :: ev_machine where
  "demo_first = ev_init\<lparr>em_todo := (em_todo ev_init)(1 := demo_effects CreatedNew)\<rparr>"

lemma demo_first_reached: "ev_step\<^sup>*\<^sup>* ev_init demo_first"
  unfolding demo_first_def by (rule demo_service_starts) (simp_all add: ev_init_def)

theorem single_service_witness:
  "\<exists>s. ev_sched [1, 1, 1, 1] demo_first = Some s \<and> 1 \<in> set (em_handles s EvRunning)"
proof -
  have "\<exists>s. ev_sched [1, 1, 1, 1] demo_first = Some s \<and>
      em_done s 1 = [EvCreate EvRunning CreatedNew, EvCreate EvStop CreatedNew, EvCreate EvReady CreatedNew, EvSet EvReady]"
    by (simp add: demo_first_def demo_effects_def ev_init_def ev_perform_def)
  then obtain s where s: "ev_sched [1, 1, 1, 1] demo_first = Some s"
    "em_done s 1 = [EvCreate EvRunning CreatedNew, EvCreate EvStop CreatedNew, EvCreate EvReady CreatedNew, EvSet EvReady]" by blast
  have reach: "ev_step\<^sup>*\<^sup>* ev_init s" using demo_first_reached ev_sched_steps [OF s(1)] by (rule rtranclp_trans)
  have "run_guard_acquire (Inr ([], [])) CreatedNew CreatedNew CreatedNew =
      ([EvCreate EvRunning CreatedNew, EvCreate EvStop CreatedNew, EvCreate EvReady CreatedNew], Inr ())"
    by (simp add: run_guard_acquire_def)
  from single_service [OF reach this, of 1] s show ?thesis by auto
qed

section \<open>A stop request is not lost\<close>

lemma signal_kept:
  assumes "ev_step s s'" and "em_signal s n" and "i \<in> set (em_handles s n)" and "EvClose n \<notin> set (em_done s' i)"
    and "n = EvStop"
  shows "em_signal s' n \<and> i \<in> set (em_handles s' n)"
  using assms
proof (induction rule: ev_step.induct)
  case (ev_acts s j e rest)
  have "e \<noteq> EvClose n \<or> j \<noteq> i" using ev_acts.prems(3) by (auto simp: ev_perform_def)
  then have "i \<in> set (handles_after j e (em_handles s) n)" using handles_keep ev_acts.prems(2) by blast
  moreover have "signal_after e (em_signal s) n"
    using ev_acts by (cases e) (auto split: created.splits)
  ultimately show ?case by (simp add: ev_perform_def)
next
  case (ev_dies s j)
  then show ?case by (auto simp: ev_died_def drop_guard_def split: if_splits)
qed auto

lemma done_grows: "ev_step s s' \<Longrightarrow> set (em_done s i) \<subseteq> set (em_done s' i)"
  by (induction rule: ev_step.induct) (auto simp: ev_perform_def ev_died_def)

text \<open>
  A stop request reaches the service: once the stop event is set while a service has its handle,
  it stays set as long as the service has not closed the handle, whatever other processes do, so
  every later poll of the service finds it.
\<close>

theorem stop_reaches_service:
  assumes "ev_step\<^sup>*\<^sup>* s s'" and "em_signal s EvStop" and "i \<in> set (em_handles s EvStop)"
    and "EvClose EvStop \<notin> set (em_done s' i)"
  shows "i \<in> set (em_handles s' EvStop) \<and> (\<forall>signalled. ev_allows s' (EvPoll EvStop signalled) \<longrightarrow> signalled)"
proof -
  have "em_signal s' EvStop \<and> i \<in> set (em_handles s' EvStop)"
    by (rule ev_system.reached_while [OF assms(1), of _ "\<lambda>s. EvClose EvStop \<in> set (em_done s i)"])
      (use assms(2-4) signal_kept done_grows in blast)+
  then show ?thesis by simp
qed

text \<open>A service, a stop command, and another service that will find the stop event existing.\<close>

definition demo_three :: ev_machine where
  "demo_three = ev_init\<lparr>em_todo := (em_todo ev_init)(1 := demo_effects CreatedNew, 2 := stop_process_effects 1,
     3 := demo_effects CreatedExisting)\<rparr>"

lemma demo_three_reached: "ev_step\<^sup>*\<^sup>* ev_init demo_three"
proof -
  let ?s = "demo_first\<lparr>em_todo := (em_todo demo_first)(2 := stop_process_effects 1)\<rparr>"
  have "ev_step demo_first ?s" by (rule stop_starts) (simp_all add: demo_first_def ev_init_def)
  with demo_first_reached have "ev_step\<^sup>*\<^sup>* ev_init ?s" by (rule rtranclp.rtrancl_into_rtrancl)
  from demo_service_starts [OF this, of 3 CreatedExisting] show ?thesis
    by (simp add: demo_three_def demo_first_def ev_init_def)
qed

lemmas demo_three_eval = demo_three_def demo_effects_def stop_process_effects_def ev_init_def ev_perform_def

theorem stop_reaches_service_witness:
  "\<exists>s. ev_sched [1, 1, 1, 1, 2, 2] demo_three = Some s \<and> ev_allows s (EvPoll EvStop True) \<and>
     \<not> ev_allows s (EvPoll EvStop False)"
proof -
  obtain s where s: "ev_sched [1, 1, 1, 1, 2, 2] demo_three = Some s" "em_signal s EvStop"
    "1 \<in> set (em_handles s EvStop)" "EvClose EvStop \<notin> set (em_done s 1)"
    by (simp add: demo_three_eval)
  from stop_reaches_service [OF rtranclp.rtrancl_refl s(2-4)] s(1,2) show ?thesis by auto
qed

text \<open>
  C38. A stop request can hit the next service: the stop command keeps its handle while it waits, so the
  set stop event outlives the service it was meant for; a service that starts in that time gets
  this event from its own \<open>create_event\<close>, and its first poll ends it although nobody has asked for a
  stop since it started.
\<close>

theorem stale_stop_request:
  "\<exists>s s'. ev_step\<^sup>*\<^sup>* ev_init s \<and> set drop_guard \<subseteq> set (em_done s 1) \<and> em_done s 3 = [] \<and>
     ev_step\<^sup>*\<^sup>* s s' \<and> em_done s' 1 = em_done s 1 \<and> em_done s' 2 = em_done s 2 \<and>
     run_guard_acquire (Inr ([], [])) CreatedNew CreatedExisting CreatedNew = (take 3 (em_done s' 3), Inr ()) \<and>
     last (em_done s' 3) = EvPoll EvStop True"
proof -
  obtain s s' where s: "ev_sched [1, 1, 1, 1, 2, 2, 2, 2, 1, 1, 1, 1] demo_three = Some s"
    "ev_sched [3, 3, 3, 3, 3] s = Some s'" "set drop_guard \<subseteq> set (em_done s 1)" "em_done s 3 = []"
    "em_done s' 1 = em_done s 1" "em_done s' 2 = em_done s 2"
    "take 3 (em_done s' 3) = [EvCreate EvRunning CreatedNew, EvCreate EvStop CreatedExisting, EvCreate EvReady CreatedNew]"
    "last (em_done s' 3) = EvPoll EvStop True"
    by (simp add: demo_three_eval drop_guard_def)
  moreover have "ev_step\<^sup>*\<^sup>* ev_init s" using demo_three_reached ev_sched_steps [OF s(1)] by (rule rtranclp_trans)
  moreover have "ev_step\<^sup>*\<^sup>* s s'" by (rule ev_sched_steps [OF s(2)])
  ultimately show ?thesis
    by (intro exI [of _ s] exI [of _ s']) (simp add: run_guard_acquire_def)
qed

end
