(* ===== verification/Manage.thy ===== *)
theory Manage
  imports Guard
begin

text \<open>
  The \<open>service\<close> subcommands of \<open>service.rs\<close> as a whole: \<open>manage\<close> with its choice of the operation, the
  executable and console host it enables, and the loop of \<open>show_logs\<close>. What the operations meet
  (the registry, the named events, files) are arguments as in \<open>Service\<close>.
\<close>

section \<open>Paths\<close>

text \<open>\<open>Path::join\<close> with a relative path on Windows: a separator is added unless there is one or the path is
  only a drive.\<close>

definition win_join :: "path \<Rightarrow> path \<Rightarrow> path" where
  "win_join a b =
     (if a = [] \<or> last a = bslash \<or> last a = 47 \<or> (length a = 2 \<and> a ! 1 = 58) then a @ b
      else a @ bslash # b)"

definition os_join :: "platform \<Rightarrow> path \<Rightarrow> path \<Rightarrow> path" where
  "os_join os = (case os of Unix \<Rightarrow> path_join | Windows \<Rightarrow> win_join)"

definition default_log_directory :: "platform \<Rightarrow> path option \<Rightarrow> (path \<Rightarrow> io_error + unit) \<Rightarrow> str + path" where
  "default_log_directory os home create_dir_all =
     rbind (ok_or (lit ''could not find the home directory'') home) (\<lambda>h.
       let directory = os_join os (os_join os h (lit ''.sshdt'')) (lit ''logs'')
       in case create_dir_all directory of Inl e \<Rightarrow> Inl (io_text e) | Inr _ \<Rightarrow> Inr directory)"

definition current_executable :: "io_error + path \<Rightarrow> (path \<Rightarrow> path option) \<Rightarrow> str + path" where
  "current_executable exe canonicalize =
     (case exe of
        Inl _ \<Rightarrow> Inl (lit ''could not locate sshdt.exe'')
      | Inr p \<Rightarrow> Inr (case canonicalize p of Some q \<Rightarrow> q | None \<Rightarrow> p))"

definition headless_console_host :: "str option \<Rightarrow> (path \<Rightarrow> bool) \<Rightarrow> path option" where
  "headless_console_host system_root is_file =
     (let root = (case system_root of Some r \<Rightarrow> r | None \<Rightarrow> lit ''C:'' @ bslash # lit ''Windows'');
          host = win_join (win_join root (lit ''System32'')) (lit ''conhost.exe'')
      in if is_file host then Some host else None)"

section \<open>Showing the service log\<close>

datatype log_out = OutBytes "u8 list" | OutNotice path

text \<open>One round: whether the configured file exists, the newest log of the directory, and what opening
  and reading a file give.\<close>

record log_round =
  lr_explicit_file :: bool
  lr_latest :: "str + path option"
  lr_open :: "path \<Rightarrow> io_error + unit"
  lr_contents :: "path \<Rightarrow> io_error + u8 list"
  lr_written :: "io_error + unit"

definition round_latest :: "path option \<Rightarrow> log_round \<Rightarrow> str + path option" where
  "round_latest explicit r =
     (case explicit of
        Some p \<Rightarrow> Inr (if lr_explicit_file r then Some p else None)
      | None \<Rightarrow> lr_latest r)"

text \<open>The change to another file: the first one is copied at once, a later one is only opened.\<close>

definition switch_log ::
  "log_round \<Rightarrow> path \<Rightarrow> (path \<times> nat) option \<Rightarrow> log_out list \<times> (str + (path \<times> nat) option)" where
  "switch_log r p current =
     (case lr_open r p of
        Inl e \<Rightarrow> ([], Inl (io_text e))
      | Inr _ \<Rightarrow>
          (if current = None
           then (case lr_contents r p of
                   Inl e \<Rightarrow> ([], Inl (io_text e))
                 | Inr bytes \<Rightarrow> ([OutBytes bytes], Inr (Some (p, length bytes))))
           else ([], Inr (Some (p, 0)))))"

text \<open>The rest of the open file.\<close>

definition read_rest :: "log_round \<Rightarrow> (path \<times> nat) option \<Rightarrow> log_out list \<times> (str + (path \<times> nat) option)" where
  "read_rest r current =
     (case current of
        None \<Rightarrow> ([], Inr None)
      | Some (p, position) \<Rightarrow>
          (case lr_contents r p of
             Inl e \<Rightarrow> ([], Inl (io_text e))
           | Inr bytes \<Rightarrow>
               (case lr_written r of
                  Inl e \<Rightarrow> ([], Inl (io_text e))
                | Inr _ \<Rightarrow> ([OutBytes (drop position bytes)], Inr (Some (p, max position (length bytes)))))))"

text \<open>What a round does before it reads; \<open>Inr None\<close> in the result is a return from within.\<close>

definition open_latest ::
  "path \<Rightarrow> path option \<Rightarrow> bool \<Rightarrow> log_round \<Rightarrow> path option \<Rightarrow> (path \<times> nat) option \<Rightarrow>
     log_out list \<times> (str + (path \<times> nat) option option)" where
  "open_latest directory explicit follow r latest current =
     (if latest = map_option fst current then ([], Inr (Some current))
      else case latest of
             Some p \<Rightarrow> (case switch_log r p current of (os, Inl e) \<Rightarrow> (os, Inl e) | (os, Inr c) \<Rightarrow> (os, Inr (Some c)))
           | None \<Rightarrow>
               (if \<not> follow then ([OutNotice (case explicit of Some p \<Rightarrow> p | None \<Rightarrow> directory)], Inr None)
                else ([], Inr (Some current))))"

definition log_round_step ::
  "path \<Rightarrow> path option \<Rightarrow> bool \<Rightarrow> log_round \<Rightarrow> (path \<times> nat) option \<Rightarrow>
     log_out list \<times> (str + (path \<times> nat) option option)" where
  "log_round_step directory explicit follow r current =
     (case round_latest explicit r of
        Inl e \<Rightarrow> ([], Inl e)
      | Inr latest \<Rightarrow>
          (case open_latest directory explicit follow r latest current of
             (os, Inl e) \<Rightarrow> (os, Inl e)
           | (os, Inr None) \<Rightarrow> (os, Inr None)
           | (os, Inr (Some c)) \<Rightarrow>
               (case read_rest r c of
                  (os', Inl e) \<Rightarrow> (os @ os', Inl e)
                | (os', Inr c') \<Rightarrow> (os @ os', Inr (Some c')))))"

fun service_log_loop ::
  "path \<Rightarrow> path option \<Rightarrow> bool \<Rightarrow> log_round list \<Rightarrow> (path \<times> nat) option \<Rightarrow> log_out list \<times> (str + unit) option" where
  "service_log_loop directory explicit follow [] current = ([], None)"
| "service_log_loop directory explicit follow (r # rs) current =
     (case log_round_step directory explicit follow r current of
        (os, Inl e) \<Rightarrow> (os, Some (Inl e))
      | (os, Inr None) \<Rightarrow> (os, Some (Inr ()))
      | (os, Inr (Some c)) \<Rightarrow>
          (if \<not> follow then (os, Some (Inr ()))
           else (case service_log_loop directory explicit follow rs c of (os', res) \<Rightarrow> (os @ os', res))))"

definition show_service_logs ::
  "str + path \<Rightarrow> str + path option \<Rightarrow> bool \<Rightarrow> log_round list \<Rightarrow> log_out list \<times> (str + unit) option" where
  "show_service_logs directory explicit follow rounds =
     (case directory of
        Inl e \<Rightarrow> ([], Some (Inl e))
      | Inr d \<Rightarrow>
          (case explicit of
             Inl e \<Rightarrow> ([], Some (Inl e))
           | Inr x \<Rightarrow> service_log_loop d x follow rounds None))"

section \<open>The subcommands\<close>

datatype manage_out = Did service_effect | Shown log_out

record manage_env =
  me_exe :: "io_error + path"
  me_canonicalize :: "path \<Rightarrow> path option"
  me_system_root :: "str option"
  me_is_file :: "path \<Rightarrow> bool"
  me_sid :: "str + str"
  me_stop_polls :: "event_poll list"
  me_signalled :: bool
  me_waits :: "((str + bool) \<times> bool) list"
  me_running :: "str + bool"
  me_start :: start_env
  me_log_directory :: "str + path"
  me_log_rounds :: "log_round list"

type_synonym 'w manage_result = "(manage_out list \<times> (str + unit)) option \<times> 'w"

definition done_with :: "'w \<Rightarrow> (service_effect list \<times> (str + unit)) option \<Rightarrow> 'w manage_result" where
  "done_with w r = (map_option (\<lambda>(es, x). (map Did es, x)) r, w)"

definition says :: "string list \<Rightarrow> (str + unit) \<times> 'w \<Rightarrow> 'w manage_result" where
  "says texts r =
     (case r of
        (Inl e, w) \<Rightarrow> (Some ([], Inl e), w)
      | (Inr _, w) \<Rightarrow> (Some (map (\<lambda>t. Did (Print (lit t))) texts, Inr ()), w))"

definition with_names :: "manage_env \<Rightarrow> 'w \<Rightarrow> 'w manage_result \<Rightarrow> 'w manage_result" where
  "with_names env w r = (case me_sid env of Inl e \<Rightarrow> (Some ([], Inl e), w) | Inr _ \<Rightarrow> r)"

definition windows_manage :: "'w registry \<Rightarrow> manage_env \<Rightarrow> service_action \<Rightarrow> str list \<Rightarrow> 'w \<Rightarrow> 'w manage_result" where
  "windows_manage rg env action opts w =
     (let stop = stop_service (me_stop_polls env) (me_signalled env) (me_waits env)
      in case action of
           ActEnable \<Rightarrow>
             (case current_executable (me_exe env) (me_canonicalize env) of
                Inl e \<Rightarrow> (Some ([], Inl e), w)
              | Inr exe \<Rightarrow>
                  says [''enabled sshdt launch at login for the current Windows user'',
                        ''run `sshdt service start` to start it now'']
                    (enable rg exe (headless_console_host (me_system_root env) (me_is_file env)) opts w))
         | ActDisable \<Rightarrow> says [''disabled sshdt launch at login for the current Windows user''] (disable rg w)
         | ActUninstall \<Rightarrow>
             with_names env w
               (case stop False of
                  None \<Rightarrow> (None, w)
                | Some (es, stopped) \<Rightarrow>
                    (case says [''uninstalled sshdt launch-at-login settings for the current Windows user'']
                            (uninstall rg stopped w) of
                       (r, w') \<Rightarrow> (map_option (\<lambda>(es', x). (map Did es @ es', x)) r, w')))
         | ActStatus \<Rightarrow>
             with_names env w
               (case service_status rg w (me_running env) of
                  Inl e \<Rightarrow> (Some ([], Inl e), w)
                | Inr line \<Rightarrow> (Some ([Did (Print line)], Inr ()), w))
         | ActStart \<Rightarrow> with_names env w (done_with w (start_service rg w (me_start env)))
         | ActStop \<Rightarrow> with_names env w (done_with w (stop True))
         | ActRestart \<Rightarrow>
             with_names env w
               (case stop False of
                  None \<Rightarrow> (None, w)
                | Some stopped \<Rightarrow> done_with w (restart_service rg w stopped (me_start env)))
         | ActLogs follow \<Rightarrow>
             (case show_service_logs (me_log_directory env) (configured_log_path rg w) follow (me_log_rounds env) of
                (os, res) \<Rightarrow> (map_option (\<lambda>x. (map Shown os, x)) res, w)))"

definition manage :: "platform \<Rightarrow> 'w registry \<Rightarrow> manage_env \<Rightarrow> service_action \<Rightarrow> str list \<Rightarrow> 'w \<Rightarrow> 'w manage_result" where
  "manage os rg env action opts w =
     (case os of
        Windows \<Rightarrow> windows_manage rg env action opts w
      | Unix \<Rightarrow> (Some ([], Inl (lit ''service management is currently supported only on Windows'')), w))"

section \<open>The missing notice\<close>

text \<open>
  C39. The notice about missing logs never appears: it is printed only when the newest log differs from
  the open one and there is no newest log, but nothing is open in the only round of a command that
  does not follow; so in every run \<open>service logs\<close> says nothing when there is no log.
\<close>

theorem missing_log_notice_unreachable:
  "OutNotice p \<notin> set (fst (show_service_logs directory explicit follow rounds))"
proof -
  have rest: "OutNotice p \<notin> set os" if "read_rest r c = (os, x)" for r c os x
    using that by (auto simp: read_rest_def split: option.splits sum.splits)
  have switch: "OutNotice p \<notin> set os" if "switch_log r q c = (os, x)" for r q c os x
    using that by (auto simp: switch_log_def split: sum.splits if_splits)
  have opened: "OutNotice p \<notin> set os" if "open_latest d x follow r l c = (os, y)" "follow \<or> c = None" for d x r l c os y
    using that by (auto simp: open_latest_def dest: switch split: option.splits sum.splits prod.splits if_splits)
  have step: "OutNotice p \<notin> set os" if "log_round_step d x follow r c = (os, y)" "follow \<or> c = None" for d x r c os y
  proof (cases "round_latest x r")
    case (Inr l)
    obtain os1 z where o: "open_latest d x follow r l c = (os1, z)" by (cases "open_latest d x follow r l c")
    have "OutNotice p \<notin> set os1" by (rule opened [OF o that(2)])
    then show ?thesis
      using that(1) Inr o by (auto simp: log_round_step_def dest: rest split: sum.splits option.splits prod.splits)
  qed (use that(1) in \<open>simp add: log_round_step_def\<close>)
  have "OutNotice p \<notin> set os" if "service_log_loop d x follow rounds c = (os, y)" "follow \<or> c = None" for d x c os y
    using that
  proof (induction rounds arbitrary: c os y)
    case (Cons r rs)
    obtain os1 z where st: "log_round_step d x follow r c = (os1, z)" by (cases "log_round_step d x follow r c")
    have "OutNotice p \<notin> set os1" by (rule step [OF st Cons.prems(2)])
    then show ?case
      using Cons.prems(1) st Cons.IH by (auto split: sum.splits option.splits if_splits prod.splits)
  qed simp
  then show ?thesis
    by (metis (no_types, lifting) empty_iff fst_conv list.set(1) old.prod.exhaust old.sum.exhaust old.sum.simps(5,6)
        show_service_logs_def)
qed

section \<open>Status\<close>

lemma says_Inr: "says texts r = (Some (es, Inr ()), w) \<longleftrightarrow> r = (Inr (), w) \<and> es = map (\<lambda>t. Did (Print (lit t))) texts"
  by (auto simp: says_def split: prod.splits sum.splits)

lemma with_names_Some:
  "with_names env w r = (Some (es, Inr ()), w') \<longleftrightarrow> (\<exists>sid. me_sid env = Inr sid) \<and> r = (Some (es, Inr ()), w')"
  by (auto simp: with_names_def split: sum.splits)

text \<open>What the three commands that change the settings leave of launch at login.\<close>

lemma manage_enabled:
  assumes "registry_ok rg look" and "[] \<notin> set opts" and "manage Windows rg env ActEnable opts w = (Some (es, Inr ()), w')"
  shows "launch_at_login_enabled rg w' = Inr True"
proof -
  obtain exe host where "enable rg exe host opts w = (Inr (), w')"
    using assms(3) by (auto simp: manage_def windows_manage_def says_Inr Let_def split: sum.splits)
  from enable_roundtrip [OF assms(1,2) this] show ?thesis by blast
qed

lemma manage_disabled:
  assumes "registry_ok rg look" and "manage Windows rg env action opts w = (Some (es, Inr ()), w')"
    and "action = ActDisable \<or> action = ActUninstall"
  shows "launch_at_login_enabled rg w' = Inr False"
  using assms(3)
proof
  assume "action = ActDisable"
  then have "disable rg w = (Inr (), w')"
    using assms(2) by (simp add: manage_def windows_manage_def says_Inr Let_def)
  then have "look w' (RUN_KEY, APP_NAME) = None" using remove_value_look [OF assms(1)] by (simp add: disable_def)
  then show ?thesis
    using registry_okD(10) [OF assms(1)] by (simp add: launch_at_login_enabled_def has_run_entry_def)
next
  assume "action = ActUninstall"
  then obtain stopped where "uninstall rg stopped w = (Inr (), w')"
    using assms(2)
    by (auto simp: manage_def windows_manage_def with_names_Some says_def Let_def split: option.splits prod.splits sum.splits)
  from uninstall_removes [OF assms(1) this] show ?thesis by blast
qed

text \<open>
  Status tells what the last command did: after a successful \<open>enable\<close> with options none of which is
  empty, \<open>status\<close> reports launch at login as enabled, after a successful \<open>disable\<close> or \<open>uninstall\<close> as
  disabled; it changes nothing and also reports whether the process runs.
\<close>

theorem service_status_truthful:
  assumes "registry_ok rg look" and "manage Windows rg env action opts w = (Some (es, Inr ()), w')"
    and "action = ActEnable \<and> [] \<notin> set opts \<or> action = ActDisable \<or> action = ActUninstall"
    and "me_sid env' = Inr sid" and "me_running env' = Inr run"
  shows "manage Windows rg env' ActStatus [] w' =
    (Some ([Did (Print (lit ''sshdt launch at login is '' @
        (if action = ActEnable then lit ''enabled'' else lit ''disabled'') @
        lit ''; process is '' @ (if run then lit ''running'' else lit ''stopped'')))], Inr ()), w')"
proof -
  have "launch_at_login_enabled rg w' = Inr (action = ActEnable)"
    using manage_enabled [OF assms(1) _ , of opts env w es w'] manage_disabled [OF assms(1,2)] assms(2,3) by auto
  then show ?thesis
    using assms(4,5) by (simp add: manage_def windows_manage_def with_names_def service_status_def Let_def)
qed

definition demo_manage :: manage_env where
  "demo_manage = \<lparr>me_exe = Inr (lit ''s.exe''), me_canonicalize = (\<lambda>_. None), me_system_root = None, me_is_file = (\<lambda>_. False),
     me_sid = Inr (lit ''S-1''), me_stop_polls = [], me_signalled = False, me_waits = [], me_running = Inr True,
     me_start = demo_start, me_log_directory = Inr [], me_log_rounds = []\<rparr>"

lemma demo_managed:
  "\<exists>es w'. manage Windows demo_registry demo_manage ActEnable opts Map.empty = (Some (es, Inr ()), w')"
proof -
  have "headless_console_host None (\<lambda>_. False) = None" by (simp add: headless_console_host_def Let_def)
  then show ?thesis
    using demo_enable [of opts]
    by (auto simp: manage_def windows_manage_def demo_manage_def current_executable_def says_def Let_def)
qed

theorem service_status_truthful_witness:
  "\<exists>w'. manage Windows demo_registry demo_manage ActStatus [] w' =
    (Some ([Did (Print (lit ''sshdt launch at login is '' @ lit ''enabled'' @ lit ''; process is '' @ lit ''running''))], Inr ()), w')"
proof -
  obtain es w' where w': "manage Windows demo_registry demo_manage ActEnable [lit ''--quiet''] Map.empty = (Some (es, Inr ()), w')"
    using demo_managed by blast
  have "ActEnable = ActEnable \<and> [] \<notin> set [lit ''--quiet''] \<or> ActEnable = ActDisable \<or> ActEnable = ActUninstall"
    by (simp add: text_eval)
  from service_status_truthful [OF demo_registry_ok w' this, of demo_manage "lit ''S-1''" True] show ?thesis
    by (auto simp: demo_manage_def)
qed

section \<open>Following the service log\<close>

text \<open>The newest log is one file that only grows, and nothing fails.\<close>

fun log_grows :: "path option \<Rightarrow> path \<Rightarrow> u8 list \<Rightarrow> log_round list \<Rightarrow> bool" where
  "log_grows explicit p old [] = True"
| "log_grows explicit p old (r # rs) =
     (\<exists>new. round_latest explicit r = Inr (Some p) \<and> lr_open r p = Inr () \<and> lr_contents r p = Inr (old @ new) \<and>
        lr_written r = Inr () \<and> log_grows explicit p (old @ new) rs)"

fun shown_bytes :: "log_out list \<Rightarrow> u8 list" where
  "shown_bytes [] = []"
| "shown_bytes (OutBytes bs # os) = bs @ shown_bytes os"
| "shown_bytes (OutNotice _ # os) = shown_bytes os"

lemma shown_bytes_append: "shown_bytes (xs @ ys) = shown_bytes xs @ shown_bytes ys"
  by (induction xs rule: shown_bytes.induct) auto

lemma follow_open:
  assumes "log_grows explicit p old rs"
  shows "\<exists>os new. service_log_loop d explicit True rs (Some (p, length old)) = (os, None) \<and> shown_bytes os = new \<and>
    (rs \<noteq> [] \<longrightarrow> lr_contents (last rs) p = Inr (old @ new)) \<and> (rs = [] \<longrightarrow> new = [])"
  using assms
proof (induction rs arbitrary: old)
  case (Cons r rs)
  then obtain new where n: "round_latest explicit r = Inr (Some p)" "lr_contents r p = Inr (old @ new)"
    "lr_written r = Inr ()" "log_grows explicit p (old @ new) rs" by auto
  have "log_round_step d explicit True r (Some (p, length old)) = ([OutBytes new], Inr (Some (Some (p, length (old @ new)))))"
    using n by (simp add: log_round_step_def open_latest_def read_rest_def)
  then show ?case using Cons.IH [OF n(4)] n(2) by (cases rs) auto
qed simp

text \<open>
  Following the service log shows it exactly once: as long as the log to show stays the same and only
  grows, what is printed is its contents at the last round, whether it is the configured file or
  the newest one of the log directory.
\<close>

theorem service_log_exact:
  assumes "log_grows explicit p [] rs" and "rs \<noteq> []"
  shows "\<exists>os. show_service_logs (Inr d) (Inr explicit) True rs = (os, None) \<and>
    lr_contents (last rs) p = Inr (shown_bytes os)"
proof -
  obtain r rest where rs: "rs = r # rest" using assms(2) by (cases rs) auto
  then obtain new where n: "round_latest explicit r = Inr (Some p)" "lr_open r p = Inr ()" "lr_contents r p = Inr new"
    "lr_written r = Inr ()" "log_grows explicit p new rest" using assms(1) by auto
  have "log_round_step d explicit True r None = ([OutBytes new, OutBytes []], Inr (Some (Some (p, length new))))"
    using n by (simp add: log_round_step_def open_latest_def switch_log_def read_rest_def)
  then show ?thesis
    using follow_open [OF n(5), of d] n(3) by (cases rest) (auto simp: rs show_service_logs_def)
qed

definition demo_log_round :: "u8 list \<Rightarrow> log_round" where
  "demo_log_round bs = \<lparr>lr_explicit_file = False, lr_latest = Inr (Some (lit ''a'')), lr_open = (\<lambda>_. Inr ()),
     lr_contents = (\<lambda>_. Inr bs), lr_written = Inr ()\<rparr>"

theorem service_log_exact_witness:
  "\<exists>os. show_service_logs (Inr []) (Inr None) True [demo_log_round [1], demo_log_round [1, 2]] = (os, None) \<and>
     (Inr [1, 2] :: io_error + u8 list) = Inr (shown_bytes os)"
proof -
  have "log_grows None (lit ''a'') [] [demo_log_round [1], demo_log_round [1, 2]]"
    by (simp add: demo_log_round_def round_latest_def)
  from service_log_exact [OF this, of "[]"] show ?thesis by (simp add: demo_log_round_def)
qed

end
