(* ===== verification/Host.thy ===== *)
theory Host
  imports Broker
begin

text \<open>
  \<open>devtunnel/host.rs\<close>: keeping a tunnel hosted while the server runs. JSON values belong to the
  \<open>serde_json\<close> library and are the parameter \<open>js\<close>; what a started process does is the parameter
  \<open>cli\<close>, which gives the observations of its owner. A process is the list of what
  \<open>next_event\<close> delivers, with the expiries of the deadlines in between.
\<close>

section \<open>Tunnel details\<close>

record 'v json_api =
  js_get :: "'v \<Rightarrow> str \<Rightarrow> 'v option"
  js_as_array :: "'v \<Rightarrow> 'v list option"
  js_as_u64 :: "'v \<Rightarrow> u64 option"
  js_as_str :: "'v \<Rightarrow> str option"
  js_from_str :: "str \<Rightarrow> 'v option"

definition tunnel :: "'v json_api \<Rightarrow> 'v \<Rightarrow> 'v" where
  "tunnel js v = (case js_get js v (lit ''tunnel'') of Some t \<Rightarrow> t | None \<Rightarrow> v)"

definition ports_of :: "'v json_api \<Rightarrow> 'v \<Rightarrow> 'v list option" where
  "ports_of js v = Option.bind (js_get js (tunnel js v) (lit ''ports'')) (js_as_array js)"

definition is_port_number :: "'v json_api \<Rightarrow> u16 \<Rightarrow> 'v \<Rightarrow> bool" where
  "is_port_number js port p \<longleftrightarrow>
     Option.bind (js_get js p (lit ''portNumber'')) (js_as_u64 js) = Some (ucast port)"

definition has_port :: "'v json_api \<Rightarrow> 'v \<Rightarrow> u16 \<Rightarrow> bool" where
  "has_port js v port =
     (case ports_of js v of
        None \<Rightarrow> False
      | Some ports \<Rightarrow>
          list_ex (\<lambda>p. is_port_number js port p \<and>
             Option.bind (js_get js p (lit ''protocol'')) (js_as_str js) = Some (lit ''auto'')) ports)"

definition has_other_protocol :: "'v json_api \<Rightarrow> 'v \<Rightarrow> u16 \<Rightarrow> bool" where
  "has_other_protocol js v port =
     (case ports_of js v of None \<Rightarrow> False | Some ports \<Rightarrow> list_ex (is_port_number js port) ports)"

definition existing_label :: "'v json_api \<Rightarrow> 'v \<Rightarrow> str \<Rightarrow> bool" where
  "existing_label js v label =
     (case Option.bind (js_get js (tunnel js v) (lit ''labels'')) (js_as_array js) of
        None \<Rightarrow> False
      | Some labels \<Rightarrow> list_ex (\<lambda>x. js_as_str js x = Some label) labels)"

fun missing_loop :: "(str \<Rightarrow> bool) \<Rightarrow> str list \<Rightarrow> str list \<Rightarrow> str list" where
  "missing_loop existing [] missing = missing"
| "missing_loop existing (label # labels) missing =
     missing_loop existing labels
       (if \<not> existing label \<and> label \<notin> set missing then missing @ [label] else missing)"

definition missing_labels :: "'v json_api \<Rightarrow> dev_tunnel_config \<Rightarrow> 'v \<Rightarrow> str list" where
  "missing_labels js cfg v = missing_loop (existing_label js v) (dt_labels cfg) []"

section \<open>Running the tool\<close>

datatype child_obs = Obs process_event | Expired

type_synonym log_call = "str \<times> str \<times> str"

record cmd_output =
  out_success :: bool
  out_code :: "i32 option"
  out_stdout :: str
  out_stderr :: str

definition show_int :: "int \<Rightarrow> str" where
  "show_int i = (if i < 0 then 45 # show_nat (nat (- i)) else show_nat (nat i))"

text \<open>The \<open>Debug\<close> form of an optional exit code.\<close>

definition debug_code :: "i32 option \<Rightarrow> str" where
  "debug_code code =
     (case code of
        None \<Rightarrow> lit ''None''
      | Some c \<Rightarrow> lit ''Some('' @ show_int (sint c) @ lit '')'')"

fun shutdown_logged :: "child_obs list \<Rightarrow> log_call list" where
  "shutdown_logged [] = []"
| "shutdown_logged (Expired # obs) = []"
| "shutdown_logged (Obs (Line stream line) # obs) =
     (lit ''shutdown'', lit stream, line) # shutdown_logged obs"
| "shutdown_logged (Obs (Exited success code) # obs) =
     (lit ''shutdown'', lit ''exit'', lit ''code '' @ debug_code code) # shutdown_logged obs"

definition OUTPUT_LIMIT :: nat where "OUTPUT_LIMIT = 1024 * 1024"

text \<open>The loop of \<open>command\<close>: its result, what the process still delivers, and the log calls.\<close>

fun command_loop ::
  "bool \<Rightarrow> str \<Rightarrow> str \<Rightarrow> str \<Rightarrow> child_obs list \<Rightarrow> (str + cmd_output) \<times> child_obs list \<times> log_call list" where
  "command_loop json_output name out err [] =
     (Inl (lit ''Dev Tunnel command ended without exit status''), [], [])"
| "command_loop json_output name out err (Expired # obs) =
     (Inl (lit ''Dev Tunnel setup timed out''), obs, [])"
| "command_loop json_output name out err (Obs (Exited success code) # obs) =
     (Inr \<lparr>out_success = success, out_code = code, out_stdout = out, out_stderr = err\<rparr>, obs, [])"
| "command_loop json_output name out err (Obs (Line stream line) # obs) =
     (let call = (if \<not> json_output \<or> stream \<noteq> ''stdout'' then [(name, lit stream, line)] else []);
          target = (if stream = ''stdout'' then out else err)
      in if OUTPUT_LIMIT < str_len target + str_len line
         then (Inl (lit ''Dev Tunnel command output exceeds limit''), obs, call)
         else case (if stream = ''stdout''
                    then command_loop json_output name (out @ line @ [10]) err obs
                    else command_loop json_output name out (err @ line @ [10]) obs) of
                (r, rest, calls) \<Rightarrow> (r, rest, call @ calls))"

text \<open>The world outside, the log calls so far and the commands that ran with their results.\<close>

record 'w host_io =
  io_world :: 'w
  io_log :: "log_call list"
  io_runs :: "(str list \<times> (str + cmd_output)) list"

type_synonym ('w, 'a) host_act = "(str, 'w host_io, 'a) act"

type_synonym 'w spawn_cli = "path option \<Rightarrow> str list \<Rightarrow> 'w \<Rightarrow> (str + child_obs list) \<times> 'w"

definition awrite :: "log_call \<Rightarrow> ('w, unit) host_act" where
  "awrite c s = (Inr (), s\<lparr>io_log := io_log s @ [c]\<rparr>)"

definition host_command ::
  "'w spawn_cli \<Rightarrow> dev_tunnel_config \<Rightarrow> str list \<Rightarrow> bool \<Rightarrow> ('w, cmd_output) host_act" where
  "host_command cli cfg argv json_output s =
     (case cli (dt_bin cfg) argv (io_world s) of
        (Inl e, w) \<Rightarrow> (Inl e, s\<lparr>io_world := w, io_runs := io_runs s @ [(argv, Inl e)]\<rparr>)
      | (Inr obs, w) \<Rightarrow>
          (case command_loop json_output (hd argv) [] [] obs of
             (r, rest, calls) \<Rightarrow>
               (r, s\<lparr>io_world := w, io_log := io_log s @ calls @ shutdown_logged rest,
                     io_runs := io_runs s @ [(argv, r)]\<rparr>)))"

definition not_found :: "cmd_output \<Rightarrow> bool" where
  "not_found out \<longleftrightarrow>
     out_code out = Some 2 \<and>
     contains (to_ascii_lowercase (out_stdout out @ out_stderr out)) (lit ''tunnel not found'')"

definition login_required :: str where
  "login_required = lit ''login required; run devtunnel user login under the SSH server account''"

definition failure :: "cmd_output \<Rightarrow> str" where
  "failure out =
     (let combined = out_stderr out @ [32] @ out_stdout out;
          lower = to_ascii_lowercase combined
      in if contains lower (lit ''login'') \<or> contains lower (lit ''not logged'') \<or>
            contains lower (lit ''unauthorized'') \<or> contains lower (lit ''authentication'')
         then login_required
         else lit ''Dev Tunnel CLI failed with code '' @ debug_code (out_code out) @ lit '': '' @
              sanitize combined)"

section \<open>One attempt\<close>

text \<open>The five stages of \<open>attempt\<close>: the account, the tunnel, its port, its labels, the host process.\<close>

definition succeed :: "cmd_output \<Rightarrow> ('w, unit) host_act" where
  "succeed out = (if \<not> out_success out then abail (failure out) else areturn ())"

definition parse_details :: "'v json_api \<Rightarrow> string \<Rightarrow> cmd_output \<Rightarrow> ('w, 'v) host_act" where
  "parse_details js msg out =
     (case js_from_str js (out_stdout out) of Some v \<Rightarrow> areturn v | None \<Rightarrow> abail (lit msg))"

definition check_login ::
  "'v json_api \<Rightarrow> 'w spawn_cli \<Rightarrow> dev_tunnel_config \<Rightarrow> ('w, unit) host_act" where
  "check_login js cli cfg =
     abind (host_command cli cfg [lit ''user'', lit ''show'', lit ''--json''] True) (\<lambda>user.
     abind (succeed user) (\<lambda>_.
     abind (parse_details js ''invalid Dev Tunnel login response'' user) (\<lambda>account.
       if Option.bind (js_get js account (lit ''status'')) (js_as_str js) \<noteq> Some (lit ''Logged in'')
       then abail login_required else areturn ())))"

definition show_tunnel :: "'w spawn_cli \<Rightarrow> dev_tunnel_config \<Rightarrow> str \<Rightarrow> ('w, cmd_output) host_act" where
  "show_tunnel cli cfg tid = host_command cli cfg [lit ''show'', tid, lit ''--json''] True"

definition find_tunnel ::
  "'v json_api \<Rightarrow> 'w spawn_cli \<Rightarrow> dev_tunnel_config \<Rightarrow> str \<Rightarrow> ('w, 'v) host_act" where
  "find_tunnel js cli cfg tid =
     abind (show_tunnel cli cfg tid) (\<lambda>shown0.
     abind (if \<not> out_success shown0 then
              (if \<not> not_found shown0 \<or> \<not> dt_auto_create cfg then abail (failure shown0)
               else
                 abind (host_command cli cfg [lit ''create'', tid, lit ''--json''] True) (\<lambda>created.
                 abind (if \<not> out_success created
                        then awrite (lit ''create'', lit ''result'',
                               lit ''creation failed; checking for a concurrent creator'')
                        else areturn ()) (\<lambda>_.
                   show_tunnel cli cfg tid)))
            else areturn shown0) (\<lambda>shown.
     abind (succeed shown) (\<lambda>_.
       parse_details js ''invalid Dev Tunnel details'' shown)))"

definition port_args :: "str \<Rightarrow> u16 \<Rightarrow> str list" where
  "port_args tid port =
     [lit ''port'', lit ''create'', tid, lit ''-p'', show_nat (unat port), lit ''--protocol'', lit ''auto'',
      lit ''--json'']"

definition ensure_port ::
  "'v json_api \<Rightarrow> 'w spawn_cli \<Rightarrow> dev_tunnel_config \<Rightarrow> str \<Rightarrow> u16 \<Rightarrow> 'v \<Rightarrow> ('w, 'v) host_act" where
  "ensure_port js cli cfg tid port v =
     (if has_port js v port then areturn v
      else if has_other_protocol js v port
        then abail (lit ''tunnel port '' @ show_nat (unat port) @
               lit '' has an incompatible protocol; update it explicitly with devtunnel'')
      else if \<not> dt_auto_create cfg
        then abail (lit ''tunnel '' @ tid @ lit '' lacks port '' @ show_nat (unat port) @
               lit '' with protocol auto; DevTunnelAutoCreate is disabled'')
      else
        abind (host_command cli cfg (port_args tid port) True) (\<lambda>created.
        abind (if \<not> out_success created
               then awrite (lit ''port create'', lit ''result'',
                      lit ''port creation failed; checking current configuration'')
               else areturn ()) (\<lambda>_.
        abind (show_tunnel cli cfg tid) (\<lambda>shown.
        abind (succeed shown) (\<lambda>_.
        abind (parse_details js ''invalid Dev Tunnel port details'' shown) (\<lambda>v'.
          if \<not> has_port js v' port
          then abail (lit ''tunnel port '' @ show_nat (unat port) @
                 lit '' is missing or has an incompatible protocol'')
          else areturn v'))))))"

definition label_args :: "str \<Rightarrow> str list \<Rightarrow> str list" where
  "label_args tid missing =
     [lit ''update'', tid] @ concat (map (\<lambda>l. [lit ''--add-labels'', l]) missing) @ [lit ''--json'']"

definition ensure_labels ::
  "'v json_api \<Rightarrow> 'w spawn_cli \<Rightarrow> dev_tunnel_config \<Rightarrow> str \<Rightarrow> 'v \<Rightarrow> ('w, 'v) host_act" where
  "ensure_labels js cli cfg tid v =
     (let missing = missing_labels js cfg v
      in if missing = [] then areturn v
         else
           abind (host_command cli cfg (label_args tid missing) True) (\<lambda>updated.
           abind (succeed updated) (\<lambda>_.
           abind (show_tunnel cli cfg tid) (\<lambda>shown.
           abind (succeed shown) (\<lambda>_.
           abind (parse_details js ''invalid Dev Tunnel label details'' shown) (\<lambda>v'.
             if missing_labels js cfg v' \<noteq> []
             then abail (lit ''tunnel '' @ tid @ lit '' is missing configured labels after update'')
             else areturn v'))))))"

definition ready_line :: str where
  "ready_line = lit ''Ready to accept connections for tunnel:''"

text \<open>Waiting for readiness: the result, what the process still delivers, the log calls.\<close>

fun await_ready :: "child_obs list \<Rightarrow> (str + unit) \<times> child_obs list \<times> log_call list" where
  "await_ready [] = (Inl (lit ''Dev Tunnel host ended before readiness''), [], [])"
| "await_ready (Expired # obs) = (Inl (lit ''Dev Tunnel host startup timed out''), obs, [])"
| "await_ready (Obs (Exited success code) # obs) =
     (Inl (lit ''Dev Tunnel host exited before readiness with code '' @ debug_code code), obs, [])"
| "await_ready (Obs (Line stream line) # obs) =
     (let call = (lit ''host'', lit stream, line)
      in if contains line ready_line then (Inr (), obs, [call])
         else case await_ready obs of (r, rest, calls) \<Rightarrow> (r, rest, call # calls))"

definition start_host ::
  "'w spawn_cli \<Rightarrow> dev_tunnel_config \<Rightarrow> str \<Rightarrow> ('w, child_obs list) host_act" where
  "start_host cli cfg tid s =
     (case cli (dt_bin cfg) [lit ''host'', tid] (io_world s) of
        (Inl e, w) \<Rightarrow> (Inl e, s\<lparr>io_world := w\<rparr>)
      | (Inr obs, w) \<Rightarrow>
          (case await_ready obs of
             (r, rest, calls) \<Rightarrow>
               (case r of Inl e \<Rightarrow> Inl e | Inr _ \<Rightarrow> Inr rest,
                s\<lparr>io_world := w, io_log := io_log s @ calls\<rparr>)))"

definition attempt ::
  "'v json_api \<Rightarrow> 'w spawn_cli \<Rightarrow> dev_tunnel_config \<Rightarrow> str \<Rightarrow> u16 \<Rightarrow> ('w, child_obs list) host_act" where
  "attempt js cli cfg tid port =
     abind (check_login js cli cfg) (\<lambda>_.
     abind (find_tunnel js cli cfg tid) (\<lambda>v.
     abind (ensure_port js cli cfg tid port v) (\<lambda>v'.
     abind (ensure_labels js cli cfg tid v') (\<lambda>_.
       start_host cli cfg tid))))"

section \<open>The supervisor\<close>

text \<open>What \<open>start\<close> decides before its loop: nothing to do, a lock or log it cannot have, a reported
  reason not to host, or the tunnel to host. Opening and locking files are arguments.\<close>

datatype host_plan =
    PlanNothing
  | PlanSkipped "str option" str
  | PlanHost str

definition host_plan_of ::
  "dev_tunnel_config \<Rightarrow> socket_addr \<Rightarrow> bool \<Rightarrow> bool \<Rightarrow> bool \<Rightarrow> (str \<Rightarrow> str + unit) \<Rightarrow> (str \<Rightarrow> bool) \<Rightarrow> host_plan" where
  "host_plan_of cfg addr log_ok instance_open instance_free open_lock lock_free =
     (if \<not> dt_enabled cfg then PlanNothing
      else if \<not> log_ok then PlanNothing
      else if \<not> instance_open then PlanNothing
      else if \<not> instance_free then PlanNothing
      else case (case dt_id cfg of Some i \<Rightarrow> if valid_tunnel_id i then Some i else None | None \<Rightarrow> None) of
             None \<Rightarrow> PlanSkipped None (lit ''DevTunnelId must contain an explicit valid tunnel ID'')
           | Some tid \<Rightarrow>
               (if \<not> is_loopback (sa_ip addr) \<and> \<not> is_unspecified (sa_ip addr)
                then PlanSkipped (Some tid) (lit ''SSH listener must accept loopback connections'')
                else if dt_timeout_secs cfg = 0
                then PlanSkipped (Some tid) (lit ''DevTunnelTimeout must be greater than zero'')
                else case open_lock tid of
                       Inl e \<Rightarrow> PlanSkipped (Some tid) e
                     | Inr _ \<Rightarrow>
                         (if \<not> lock_free tid
                          then PlanSkipped (Some tid) (lit ''another sshdt process already hosts this tunnel'')
                          else PlanHost tid)))"

datatype host_phase =
    HostStarting
  | HostPausing instant instant bool
  | HostConnected
  | HostStopped

record host =
  ho_phase :: host_phase
  ho_retry :: retry
  ho_network :: network_changes
  ho_status :: "(string \<times> str) list"
  ho_log :: "log_call list"

definition host_write :: "log_call list \<Rightarrow> host \<Rightarrow> host" where
  "host_write calls h = h\<lparr>ho_log := ho_log h @ calls\<rparr>"

text \<open>\<open>status\<close> logs the sanitised reason and reports it with the state. \<open>ho_status\<close> is the list of the reports;
  the file that shows the last one is written on a best effort, and a failure to write it, which
  the code ignores, is not part of the model.\<close>

definition host_status :: "string \<Rightarrow> str \<Rightarrow> host \<Rightarrow> host" where
  "host_status state reason h =
     (let reason' = sanitize reason
      in (host_write [(lit ''status'', lit state, reason')] h)\<lparr>ho_status := ho_status h @ [(state, reason')]\<rparr>)"

definition enter_starting :: "host \<Rightarrow> host" where
  "enter_starting h =
     (let h = host_status ''starting'' (lit ''checking tunnel configuration'') h
      in h\<lparr>ho_network := begin_wait (ho_network h), ho_phase := HostStarting\<rparr>)"

definition host_start :: "bool \<Rightarrow> instant \<Rightarrow> host" where
  "host_start watch now =
     enter_starting \<lparr>ho_phase = HostStarting, ho_retry = retry_default, ho_network = network_new watch now,
       ho_status = [], ho_log = []\<rparr>"

definition permanent_reason :: "str \<Rightarrow> bool" where
  "permanent_reason reason =
     list_ex (\<lambda>part. contains reason (lit part))
       [''login required'', ''DevTunnelAutoCreate'', ''Tunnel not found'', ''No such file'', ''not found'',
        ''incompatible protocol'']"

definition on_attempt_failed :: "instant \<Rightarrow> str \<Rightarrow> host \<Rightarrow> host" where
  "on_attempt_failed now reason h =
     (let permanent = permanent_reason reason;
          h = host_status (if permanent then ''skipped'' else ''retrying'') reason h
      in case retry_failed now (ho_retry h) of
           (pause, r) \<Rightarrow>
             (let pause = (if permanent then max pause (secs 60) else pause)
              in h\<lparr>ho_retry := r, ho_phase := HostPausing now (now + pause) permanent\<rparr>))"

definition changed_line :: log_call where
  "changed_line = (lit ''host'', lit ''status'', lit ''network changed; retrying tunnel startup early'')"

definition on_pause_over :: "(instant \<times> instant option) list \<Rightarrow> host \<Rightarrow> host" where
  "on_pause_over evs h =
     (case ho_phase h of
        HostPausing since deadline permanent \<Rightarrow>
          (if permanent then enter_starting h
           else case wait_until since deadline evs (ho_network h) of
                  (changed, at, n) \<Rightarrow>
                    enter_starting (host_write (if changed then [changed_line] else []) (h\<lparr>ho_network := n\<rparr>)))
      | _ \<Rightarrow> h)"

definition on_connected :: "instant \<Rightarrow> host \<Rightarrow> host" where
  "on_connected now h =
     (host_status ''connected'' (lit ''tunnel ready'') (h\<lparr>ho_retry := retry_ready now (ho_retry h)\<rparr>))
       \<lparr>ho_phase := HostConnected\<rparr>"

text \<open>After the host process is gone; \<open>rest\<close> is what it still delivers to \<open>shutdown_logged\<close>.\<close>

definition on_host_gone :: "instant \<Rightarrow> child_obs list \<Rightarrow> host \<Rightarrow> host" where
  "on_host_gone now rest h =
     (let h = host_write (shutdown_logged rest) (h\<lparr>ho_network := begin_wait (ho_network h)\<rparr>)
      in case retry_failed now (ho_retry h) of
           (pause, r) \<Rightarrow>
             (host_write [(lit ''host'', lit ''status'',
                 lit ''retrying in '' @ show_nat (pause div 1000) @ lit '' seconds'')] h)
               \<lparr>ho_retry := r, ho_phase := HostPausing now (now + pause) False\<rparr>)"

definition on_cancel :: "child_obs list \<Rightarrow> host \<Rightarrow> host" where
  "on_cancel rest h =
     (let h = (if ho_phase h = HostConnected then host_write (shutdown_logged rest) h else h)
      in (host_status ''stopped'' (lit ''SSH server stopped'') h)\<lparr>ho_phase := HostStopped\<rparr>)"

datatype host_event =
    HAttempt instant "str + unit"
  | HChildLine string str
  | HChildExited instant "i32 option" "child_obs list"
  | HChildEnded instant "child_obs list"
  | HPauseOver "(instant \<times> instant option) list"
  | HCancel "child_obs list"

fun host_step :: "host \<Rightarrow> host_event \<Rightarrow> host" where
  "host_step h (HAttempt now (Inl reason)) = on_attempt_failed now reason h"
| "host_step h (HAttempt now (Inr _)) = on_connected now h"
| "host_step h (HChildLine stream line) = host_write [(lit ''host'', lit stream, line)] h"
| "host_step h (HChildExited now code rest) =
     on_host_gone now rest
       (host_status ''retrying'' (lit ''host process exited with code '' @ debug_code code) h)"
| "host_step h (HChildEnded now rest) = on_host_gone now rest h"
| "host_step h (HPauseOver evs) = on_pause_over evs h"
| "host_step h (HCancel rest) = on_cancel rest h"

text \<open>Which branch of which \<open>select!\<close> can fire. A process delivers its exit before its end, so the
  inner loop never sees the end first.\<close>

fun host_adm :: "host \<Rightarrow> host_event \<Rightarrow> bool" where
  "host_adm h (HAttempt _ _) = (ho_phase h = HostStarting)"
| "host_adm h (HChildLine _ _) = (ho_phase h = HostConnected)"
| "host_adm h (HChildExited _ _ _) = (ho_phase h = HostConnected)"
| "host_adm h (HChildEnded _ _) = False"
| "host_adm h (HPauseOver _) = (case ho_phase h of HostPausing _ _ _ \<Rightarrow> True | _ \<Rightarrow> False)"
| "host_adm h (HCancel _) = (ho_phase h \<noteq> HostStopped)"

section \<open>Reporting\<close>

definition str_or :: "str \<Rightarrow> str option \<Rightarrow> str" where
  "str_or d x = (case x of Some s \<Rightarrow> s | None \<Rightarrow> d)"

definition status_field :: "'v json_api \<Rightarrow> 'v \<Rightarrow> string \<Rightarrow> str option" where
  "status_field js v key = Option.bind (js_get js v (lit key)) (js_as_str js)"

text \<open>The loop of \<open>print_status\<close> over the directory entries: a name with the parsed contents, if they
  can be read and parsed. \<open>probe\<close> is the attempt on the lock of an instance, \<open>None\<close> when it cannot
  be opened.\<close>

definition status_line ::
  "'v json_api \<Rightarrow> (u64 \<Rightarrow> try_lock option) \<Rightarrow> str \<Rightarrow> 'v option \<Rightarrow> str list" where
  "status_line js probe name contents =
     (if \<not> starts_with name (lit ''devtunnel-host-'') \<or> \<not> ends_with name (lit ''.json'') then []
      else case contents of
             None \<Rightarrow> []
           | Some v \<Rightarrow>
               (case Option.bind (js_get js v (lit ''pid'')) (js_as_u64 js) of
                  None \<Rightarrow> []
                | Some pid \<Rightarrow>
                    (case probe pid of
                       Some LockWouldBlock \<Rightarrow>
                         [lit ''Dev Tunnel '' @ str_or (lit ''not configured'') (status_field js v ''id'') @
                           lit '': '' @ str_or (lit ''unknown'') (status_field js v ''state'') @ lit '' ('' @
                           str_or [] (status_field js v ''reason'') @ lit '')'']
                     | _ \<Rightarrow> [])))"

fun status_lines ::
  "'v json_api \<Rightarrow> (u64 \<Rightarrow> try_lock option) \<Rightarrow> (io_error + str \<times> 'v option) list \<Rightarrow>
     str list \<times> (io_error + unit)" where
  "status_lines js probe [] = ([], Inr ())"
| "status_lines js probe (Inl e # entries) = ([], Inl e)"
| "status_lines js probe (Inr (name, contents) # entries) =
     (case status_lines js probe entries of (ls, r) \<Rightarrow> (status_line js probe name contents @ ls, r))"

definition print_status ::
  "'v json_api \<Rightarrow> (u64 \<Rightarrow> try_lock option) \<Rightarrow> io_error + (io_error + str \<times> 'v option) list \<Rightarrow>
     str list \<times> (io_error + unit)" where
  "print_status js probe read_dir =
     (case read_dir of
        Inl e \<Rightarrow> ([], if io_error_kind e = NotFound then Inr () else Inl e)
      | Inr entries \<Rightarrow> status_lines js probe entries)"

section \<open>Which labels are added\<close>

lemma missing_loop_spec:
  "distinct missing \<Longrightarrow>
   distinct (missing_loop existing labels missing) \<and>
   set (missing_loop existing labels missing) = set missing \<union> {l \<in> set labels. \<not> existing l}"
  by (induction labels arbitrary: missing) auto

lemma missing_labels_spec:
  "distinct (missing_labels js cfg v)"
  "set (missing_labels js cfg v) = {l \<in> set (dt_labels cfg). \<not> existing_label js v l}"
  using missing_loop_spec [of "[]" "existing_label js v" "dt_labels cfg"] by (simp_all add: missing_labels_def)

lemma missing_labels_Nil: "missing_labels js cfg v = [] \<longleftrightarrow> (\<forall>l \<in> set (dt_labels cfg). existing_label js v l)"
  using missing_labels_spec(2) [of js cfg v] by (metis (mono_tags, lifting) Collect_empty_eq set_empty)

section \<open>What an attempt may run\<close>

text \<open>The commands an action starts, whatever the world answers.\<close>

definition issues_only :: "(str list \<Rightarrow> bool) \<Rightarrow> ('w, 'a) host_act \<Rightarrow> bool" where
  "issues_only P m \<longleftrightarrow> (\<forall>s. \<exists>rs. io_runs (snd (m s)) = io_runs s @ rs \<and> list_all P (map fst rs))"

lemma issues_return [intro]: "issues_only P (areturn x)" "issues_only P (abail e)" "issues_only P (awrite c)"
  by (simp_all add: issues_only_def areturn_def abail_def awrite_def)

lemma issues_bind [intro]:
  assumes "issues_only P m" and "\<And>x. issues_only P (f x)"
  shows "issues_only P (abind m f)"
  unfolding issues_only_def
proof
  fix s
  obtain r s1 where m: "m s = (r, s1)" by (cases "m s")
  obtain rs where rs: "io_runs s1 = io_runs s @ rs" "list_all P (map fst rs)"
    using assms(1) m by (metis issues_only_def snd_conv)
  show "\<exists>rs. io_runs (snd (abind m f s)) = io_runs s @ rs \<and> list_all P (map fst rs)"
  proof (cases r)
    case (Inl e)
    then show ?thesis using m rs by (simp add: abind_def)
  next
    case (Inr x)
    obtain rs' where "io_runs (snd (f x s1)) = io_runs s1 @ rs'" "list_all P (map fst rs')"
      using assms(2) by (metis issues_only_def)
    then show ?thesis using m rs Inr by (auto simp: abind_def intro: exI [of _ "rs @ rs'"])
  qed
qed

lemma issues_command [intro]: "P argv \<Longrightarrow> issues_only P (host_command cli cfg argv j)"
  by (simp add: issues_only_def host_command_def split: prod.split sum.split)

lemma issues_succeed [intro]: "issues_only P (succeed out)" "issues_only P (parse_details js msg out)"
  by (auto simp: succeed_def parse_details_def split: option.split)

lemma issues_start [intro]: "issues_only P (start_host cli cfg tid)"
  by (simp add: issues_only_def start_host_def split: prod.split sum.split)

lemma issues_if [intro]: "(b \<Longrightarrow> issues_only P m) \<Longrightarrow> (\<not> b \<Longrightarrow> issues_only P n) \<Longrightarrow> issues_only P (if b then m else n)"
  by simp

text \<open>The commands that make something new.\<close>

definition creates :: "str list \<Rightarrow> bool" where
  "creates argv \<longleftrightarrow> hd argv = lit ''create'' \<or> hd argv = lit ''port''"

lemma show_not_create:
  "\<not> creates [lit ''user'', a, b]" "\<not> creates [lit ''show'', a, b]" "\<not> creates (label_args tid ls)"
  by (simp_all add: creates_def label_args_def lit_def)

lemma attempt_issues:
  assumes "\<not> dt_auto_create cfg"
  shows "issues_only (\<lambda>argv. \<not> creates argv) (attempt js cli cfg tid port)"
  using assms unfolding attempt_def check_login_def find_tunnel_def ensure_port_def ensure_labels_def show_tunnel_def Let_def
  by (intro issues_bind issues_if issues_command issues_succeed issues_start issues_return show_not_create) auto

text \<open>
  Nothing is created without permission: as long as \<open>DevTunnelAutoCreate\<close> is off, no attempt
  starts a command that creates a tunnel or a port, whatever the tool answers and however the
  attempt ends.
\<close>

theorem attempt_creates_only_if_allowed:
  assumes "\<not> dt_auto_create cfg" and "(argv, r) \<in> set (io_runs (snd (attempt js cli cfg tid port s)))"
    and "(argv, r) \<notin> set (io_runs s)"
  shows "\<not> creates argv"
proof -
  obtain rs where "io_runs (snd (attempt js cli cfg tid port s)) = io_runs s @ rs"
    "list_all (\<lambda>argv. \<not> creates argv) (map fst rs)"
    using attempt_issues [OF assms(1)] by (metis issues_only_def)
  then show ?thesis using assms(2,3) by (auto simp: list_all_iff)
qed

section \<open>What a finished attempt has seen\<close>

lemma succeed_Inr [simp]: "succeed out s = (Inr u, s') \<longleftrightarrow> out_success out \<and> s' = s"
  by (auto simp: succeed_def areturn_def abail_def)

lemma parse_details_Inr [simp]:
  "parse_details js msg out s = (Inr v, s') \<longleftrightarrow> js_from_str js (out_stdout out) = Some v \<and> s' = s"
  by (auto simp: parse_details_def areturn_def abail_def split: option.split)

lemma if_act: "(if b then m else n) s = (if b then m s else n s)"
  by simp

lemma runs_mono:
  assumes "issues_only P m" and "m s = (r, s')" and "x \<in> set (io_runs s)"
  shows "x \<in> set (io_runs s')"
proof -
  obtain rs where "io_runs (snd (m s)) = io_runs s @ rs" using assms(1) by (metis issues_only_def)
  then show ?thesis using assms(2,3) by simp
qed

lemma host_command_ran: "host_command cli cfg argv j s = (Inr out, s') \<Longrightarrow> (argv, Inr out) \<in> set (io_runs s')"
  by (auto simp: host_command_def split: prod.splits sum.splits)

lemma start_host_runs: "start_host cli cfg tid s = (r, s') \<Longrightarrow> io_runs s' = io_runs s"
  by (auto simp: start_host_def split: prod.splits sum.splits)

text \<open>Some command succeeded with an answer that parses to this value.\<close>

definition answered :: "'v json_api \<Rightarrow> 'w host_io \<Rightarrow> str list \<Rightarrow> 'v \<Rightarrow> bool" where
  "answered js s argv v \<longleftrightarrow>
     (\<exists>out. (argv, Inr out) \<in> set (io_runs s) \<and> out_success out \<and> js_from_str js (out_stdout out) = Some v)"

lemma answered_mono: "issues_only P m \<Longrightarrow> m s = (r, s') \<Longrightarrow> answered js s argv v \<Longrightarrow> answered js s' argv v"
  unfolding answered_def using runs_mono by metis

lemma answeredI:
  "host_command cli cfg argv j s = (Inr out, s') \<Longrightarrow> out_success out \<Longrightarrow>
   js_from_str js (out_stdout out) = Some v \<Longrightarrow> answered js s' argv v"
  using host_command_ran unfolding answered_def by blast

lemma check_login_Inr:
  assumes "check_login js cli cfg s = (Inr u, s')"
  shows "\<exists>acc. answered js s' [lit ''user'', lit ''show'', lit ''--json''] acc \<and>
     Option.bind (js_get js acc (lit ''status'')) (js_as_str js) = Some (lit ''Logged in'')"
  using assms unfolding check_login_def if_act
  by (auto simp: abind_Inr split: if_splits dest: answeredI)

lemma find_tunnel_Inr:
  assumes "find_tunnel js cli cfg tid s = (Inr v, s')"
  shows "answered js s' [lit ''show'', tid, lit ''--json''] v"
  using assms unfolding find_tunnel_def show_tunnel_def if_act
  by (auto simp: abind_Inr split: if_splits dest: answeredI)

lemma ensure_port_Inr:
  assumes "ensure_port js cli cfg tid port v s = (Inr v', s')"
    and "answered js s [lit ''show'', tid, lit ''--json''] v"
  shows "has_port js v' port \<and> answered js s' [lit ''show'', tid, lit ''--json''] v'"
  using assms unfolding ensure_port_def show_tunnel_def if_act
  by (auto simp: abind_Inr split: if_splits dest: answeredI)

lemma ensure_labels_Inr:
  assumes "ensure_labels js cli cfg tid v s = (Inr v', s')"
    and "answered js s [lit ''show'', tid, lit ''--json''] v"
  shows "missing_labels js cfg v' = [] \<and> answered js s' [lit ''show'', tid, lit ''--json''] v'"
  using assms unfolding ensure_labels_def show_tunnel_def Let_def if_act
  by (auto simp: abind_Inr split: if_splits dest: answeredI)

lemma issues_any [intro]:
  "issues_only (\<lambda>_. True) (ensure_port js cli cfg tid port v)"
  "issues_only (\<lambda>_. True) (ensure_labels js cli cfg tid v)"
  "issues_only (\<lambda>_. True) (find_tunnel js cli cfg tid)"
  unfolding ensure_port_def ensure_labels_def find_tunnel_def show_tunnel_def Let_def
  by (intro issues_bind issues_if issues_command issues_succeed issues_return; simp)+

lemma await_ready_Inr:
  "await_ready obs = (Inr u, rest, calls) \<Longrightarrow> \<exists>stream line. (lit ''host'', stream, line) \<in> set calls \<and> contains line ready_line"
  by (induction obs arbitrary: calls rule: await_ready.induct) (auto simp: Let_def split: if_splits prod.splits, blast)


datatype demo_json = DStr str | DNum u64 | DArr "demo_json list" | DObj "(str \<times> demo_json) list"

definition demo_js :: "demo_json json_api" where
  "demo_js =
     \<lparr>js_get = (\<lambda>v k. case v of DObj kvs \<Rightarrow> map_of kvs k | _ \<Rightarrow> None),
      js_as_array = (\<lambda>v. case v of DArr xs \<Rightarrow> Some xs | _ \<Rightarrow> None),
      js_as_u64 = (\<lambda>v. case v of DNum n \<Rightarrow> Some n | _ \<Rightarrow> None),
      js_as_str = (\<lambda>v. case v of DStr t \<Rightarrow> Some t | _ \<Rightarrow> None),
      js_from_str = (\<lambda>t.
        if t = [65, 10] then Some (DObj [(lit ''status'', DStr (lit ''Logged in''))])
        else if t = [84, 10] then
          Some (DObj [(lit ''ports'', DArr [DObj [(lit ''portNumber'', DNum 2222), (lit ''protocol'', DStr (lit ''auto''))]])])
        else None)\<rparr>"

definition demo_cli :: "unit spawn_cli" where
  "demo_cli bin argv w =
     (Inr (if hd argv = lit ''user'' then [Obs (Line ''stdout'' [65]), Obs (Exited True (Some 0))]
           else if hd argv = lit ''show'' then [Obs (Line ''stdout'' [84]), Obs (Exited True (Some 0))]
           else [Obs (Line ''stdout'' ready_line)]), w)"

definition demo_io :: "unit host_io" where
  "demo_io = \<lparr>io_world = (), io_log = [], io_runs = []\<rparr>"

lemma demo_attempt:
  "attempt demo_js demo_cli dev_tunnel_default (lit ''t'') 2222 demo_io =
     (Inr [], \<lparr>io_world = (), io_log = [(lit ''host'', lit ''stdout'', ready_line)],
        io_runs = [([lit ''user'', lit ''show'', lit ''--json''],
             Inr \<lparr>out_success = True, out_code = Some 0, out_stdout = [65, 10], out_stderr = []\<rparr>),
          ([lit ''show'', lit ''t'', lit ''--json''],
             Inr \<lparr>out_success = True, out_code = Some 0, out_stdout = [84, 10], out_stderr = []\<rparr>)]\<rparr>)"
  by (simp add: attempt_def check_login_def find_tunnel_def ensure_port_def ensure_labels_def show_tunnel_def
      start_host_def host_command_def abind_def areturn_def abail_def succeed_def parse_details_def
      demo_js_def demo_cli_def demo_io_def dev_tunnel_default_def has_port_def ports_of_def tunnel_def
      is_port_number_def missing_labels_def OUTPUT_LIMIT_def ready_line_def text_eval Let_def)


theorem attempt_creates_only_if_allowed_witness:
  "\<not> creates [lit ''show'', lit ''t'', lit ''--json'']"
proof (rule attempt_creates_only_if_allowed)
  show "\<not> dt_auto_create dev_tunnel_default" by (simp add: dev_tunnel_default_def)
  show "([lit ''show'', lit ''t'', lit ''--json''],
      Inr \<lparr>out_success = True, out_code = Some 0, out_stdout = [84, 10], out_stderr = []\<rparr>)
    \<in> set (io_runs (snd (attempt demo_js demo_cli dev_tunnel_default (lit ''t'') 2222 demo_io)))"
    by (simp add: demo_attempt)
  show "([lit ''show'', lit ''t'', lit ''--json''],
      Inr \<lparr>out_success = True, out_code = Some 0, out_stdout = [84, 10], out_stderr = []\<rparr>) \<notin> set (io_runs demo_io)"
    by (simp add: demo_io_def)
qed

section \<open>What the supervisor reports and how long it waits\<close>

fun reported_state :: "host_phase \<Rightarrow> string" where
  "reported_state HostStarting = ''starting''"
| "reported_state (HostPausing _ _ permanent) = (if permanent then ''skipped'' else ''retrying'')"
| "reported_state HostConnected = ''connected''"
| "reported_state HostStopped = ''stopped''"

fun pause_ok :: "host_phase \<Rightarrow> bool" where
  "pause_ok (HostPausing since deadline permanent) =
     ((if permanent then secs 60 else secs 30) \<le> deadline - since \<and> deadline \<le> since + secs 300)"
| "pause_ok _ = True"

definition host_inv :: "host \<Rightarrow> bool" where
  "host_inv h \<longleftrightarrow>
     retry_inv (ho_retry h) \<and> pause_ok (ho_phase h) \<and>
     ho_status h \<noteq> [] \<and> fst (last (ho_status h)) = reported_state (ho_phase h)"

lemmas host_defs =
  host_write_def host_status_def enter_starting_def on_attempt_failed_def on_pause_over_def on_connected_def
  on_host_gone_def on_cancel_def Let_def

lemma retry_failed_bounds:
  "retry_inv r \<Longrightarrow> secs 30 \<le> fst (retry_failed now r) \<and> fst (retry_failed now r) \<le> secs 300"
  by (auto simp: retry_inv_def retry_failed_def Let_def secs_def)

lemma host_step_inv:
  assumes "host_inv h" and "host_adm h e"
  shows "host_inv (host_step h e)"
proof -
  have r: "retry_inv (ho_retry h)" using assms(1) by (simp add: host_inv_def)
  note rf = retry_failed_bounds [OF r] retry_failed_inv [OF r]
  have ready: "retry_inv (retry_ready t (ho_retry h))" for t
    using r by (simp add: retry_inv_def retry_ready_def)
  show ?thesis
  proof (cases e)
    case (HAttempt now res)
    then show ?thesis
      using r rf [of now] ready by (cases res) (auto simp: host_inv_def host_defs secs_def split: prod.split)
  next
    case (HChildExited now code rest)
    then show ?thesis using rf [of now] by (auto simp: host_inv_def host_defs split: prod.split)
  qed (use assms r in \<open>auto simp: host_inv_def host_defs split: host_phase.splits prod.split\<close>)
qed

interpretation host_system: step_system host_adm host_step host_inv
  by unfold_locales (rule host_step_inv)

lemma host_start_inv [inv_intros]: "host_inv (host_start watch now)"
  by (simp add: host_start_def host_inv_def host_defs retry_inv_def retry_default_def secs_def)

text \<open>
  C30. The reported status tells the truth: after any sequence of attempts, process events, pauses
  and the stop request, the last status the supervisor reported is the one of the phase it is
  in, and it has reported one from the start.
\<close>

theorem host_status_truthful:
  assumes "run_ok host_adm host_step (host_start watch now) es"
  shows "ho_status (foldl host_step (host_start watch now) es) \<noteq> [] \<and>
    fst (last (ho_status (foldl host_step (host_start watch now) es))) =
      reported_state (ho_phase (foldl host_step (host_start watch now) es))"
  using host_system.run_inv [OF host_start_inv assms] by (simp add: host_inv_def)

text \<open>
  Pauses between attempts are bounded: whenever the supervisor pauses, it has set itself at
  least 30 seconds and at most 300, and at least 60 after a failure that needs a person.
\<close>

theorem host_pauses_bounded:
  assumes "run_ok host_adm host_step (host_start watch now) es"
    and "ho_phase (foldl host_step (host_start watch now) es) = HostPausing since deadline permanent"
  shows "secs 30 \<le> deadline - since \<and> deadline - since \<le> secs 300 \<and> (permanent \<longrightarrow> secs 60 \<le> deadline - since)"
  using host_system.run_inv [OF host_start_inv assms(1)] assms(2)
  by (auto simp: host_inv_def secs_def split: if_splits)

definition demo_host_events :: "host_event list" where
  "demo_host_events = [HAttempt 5 (Inl (lit ''timed out'')), HPauseOver [], HAttempt 40000 (Inr ()),
     HChildLine ''stdout'' [], HChildExited 50000 (Some 1) [], HPauseOver [], HAttempt 200000 (Inl login_required)]"

lemma demo_host_run:
  "run_ok host_adm host_step (host_start False 0) demo_host_events"
  "ho_phase (foldl host_step (host_start False 0) demo_host_events) = HostPausing 200000 320000 True"
  by (simp_all add: demo_host_events_def host_start_def host_defs permanent_reason_def login_required_def
      retry_failed_def retry_default_def retry_ready_def network_new_def early_at_def begin_wait_def secs_def text_eval)

theorem host_status_truthful_witness:
  "fst (last (ho_status (foldl host_step (host_start False 0) demo_host_events))) = ''skipped''"
  using host_status_truthful [OF demo_host_run(1)] by (simp add: demo_host_run(2))

theorem host_pauses_bounded_witness:
  "secs 60 \<le> 320000 - (200000 :: nat)"
  using host_pauses_bounded [OF demo_host_run] by simp

end
