(* ===== verification/Client.thy ===== *)
theory Client
  imports Broker
begin

text \<open>
  The two ends of a proxied connection in \<open>devtunnel/client.rs\<close>: \<open>serve\<close> in the broker, from the
  admitted request to the copying of bytes, with the relays on fixed local ports, and
  \<open>proxy\<close> with \<open>acquire\<close>, which finds a broker or starts one. The loops take the observations of
  their iterations as lists and are \<open>None\<close> while these have not ended them.
\<close>

section \<open>Serving\<close>

text \<open>One iteration of the loop in \<open>serve\<close>: the snapshot, the outcome of dialling and reading the
  banner (\<open>None\<close> when the forwarding changed first), the forwarding afterwards, and whether the
  sender of changes is still there.\<close>

record open_round =
  or_snapshot :: forwarding
  or_dialled :: "(io_error + u8 list) option"
  or_after :: forwarding
  or_sender :: bool

fun serve_open :: "ipc_request \<Rightarrow> open_round list \<Rightarrow> (str + u8 list \<times> u64) option" where
  "serve_open request [] = None"
| "serve_open request (r # rs) =
     (case serve_round_of request (or_snapshot r) of
        RoundError e \<Rightarrow> Some (Inl e)
      | RoundDial address generation \<Rightarrow>
          (case or_dialled r of
             Some (Inr pre) \<Rightarrow>
               (if serve_accept generation (or_after r) then Some (Inr (pre, generation))
                else serve_open request rs)
           | _ \<Rightarrow> serve_open request rs)
      | RoundWait \<Rightarrow>
          (if or_sender r then serve_open request rs else Some (Inl (lit ''tunnel manager stopped''))))"

datatype serve_effect =
    SvRelay u16 u16
  | SvStart u16
  | SvResponse ipc_response
  | SvBytes "u8 list"
  | SvCopy

text \<open>How the copying ended: by itself, with an error, or because the forwarding changed.\<close>

datatype copy_end = CopyDone | CopyFailed str | CopyStale

record serve_env =
  sv_relays :: relays
  sv_can_bind :: "u16 \<Rightarrow> bool"
  sv_start_open :: bool
  sv_rounds :: "open_round list"
  sv_peek :: "(nat \<times> (str + unit)) option"
  sv_sent :: bool
  sv_wrote :: bool
  sv_copy :: copy_end

text \<open>The \<open>open\<close> future: the version and port checks are in \<open>serve_admit\<close>.\<close>

definition serve_connect :: "ipc_request \<Rightarrow> serve_env \<Rightarrow> serve_effect list \<times> (str + u8 list \<times> u64) option" where
  "serve_connect request env =
     (case (case rq_local_port request of
              None \<Rightarrow> Inr ([], sv_relays env)
            | Some port \<Rightarrow>
                (case ensure_relay (sv_can_bind env) (sv_relays env) port (rq_remote_port request) of
                   Inl e \<Rightarrow> Inl e
                 | Inr rs \<Rightarrow> Inr ([SvRelay port (rq_remote_port request)], rs))) of
        Inl e \<Rightarrow> ([], Some (Inl e))
      | Inr (es, _) \<Rightarrow>
          (if \<not> sv_start_open env then (es, Some (Inl (lit ''tunnel manager stopped'')))
           else (es @ [SvStart (rq_remote_port request)], serve_open request (sv_rounds env))))"

text \<open>The result of \<open>serve\<close> with what it did, \<open>None\<close> while it waits for a route. \<open>received\<close> is the request
  or why there is none within five seconds; \<open>Some (n, r)\<close> in \<open>sv_peek\<close> is that the client sent something
  or was gone, with the outcome \<open>r\<close>, when \<open>n\<close> of the steps of \<open>open\<close> were done.\<close>

definition serve_finish :: "serve_env \<Rightarrow> serve_effect list \<Rightarrow> str + u8 list \<times> u64 \<Rightarrow> serve_effect list \<times> (str + unit)" where
  "serve_finish env es result =
     (let response = \<lparr>rs_version = VERSION, rs_error = (case result of Inl e \<Rightarrow> Some e | Inr _ \<Rightarrow> None)\<rparr>
      in if \<not> sv_sent env then (es, Inl (lit ''broker message not sent''))
         else case result of
                Inl e \<Rightarrow> (es @ [SvResponse response], Inl e)
              | Inr (pre, generation) \<Rightarrow>
                  (if \<not> sv_wrote env then (es @ [SvResponse response], Inl (lit ''broker stream closed''))
                   else (es @ [SvResponse response, SvBytes pre, SvCopy],
                         case sv_copy env of
                           CopyDone \<Rightarrow> Inr ()
                         | CopyFailed e \<Rightarrow> Inl e
                         | CopyStale \<Rightarrow> Inl (lit ''devtunnel connector stopped''))))"

definition serve ::
  "str \<Rightarrow> str + ipc_request \<Rightarrow> lease_state \<Rightarrow> serve_env \<Rightarrow> (serve_effect list \<times> (str + unit)) option" where
  "serve token received leases env =
     (case received of
        Inl e \<Rightarrow> Some ([], Inl e)
      | Inr request \<Rightarrow>
          (case fst (serve_admit token request leases) of
             BadToken \<Rightarrow> Some ([], Inl (lit ''invalid tunnel manager capability''))
           | NoLease \<Rightarrow> Some ([], Inr ())
           | Refused e \<Rightarrow>
               Some (case sv_peek env of Some (_, r) \<Rightarrow> ([], r) | None \<Rightarrow> serve_finish env [] (Inl e))
           | Serving \<Rightarrow>
               (case serve_connect request env of
                  (es, opened) \<Rightarrow>
                    (case sv_peek env of
                       Some (n, r) \<Rightarrow> Some (take n es, r)
                     | None \<Rightarrow> map_option (serve_finish env es) opened))))"

text \<open>A relay's connection goes where the forwarding pointed when it was accepted, and ends when the
  generation moves on or an error is published.\<close>

definition relay_target :: "u16 \<Rightarrow> forwarding \<Rightarrow> (socket_addr \<times> u64) option" where
  "relay_target remote_port fw = map_option (\<lambda>a. (a, fw_generation fw)) (fw_ports fw remote_port)"

definition relay_stale :: "u64 \<Rightarrow> forwarding \<Rightarrow> bool" where
  "relay_stale generation fw \<longleftrightarrow> fw_generation fw \<noteq> generation \<or> fw_error fw \<noteq> None"

section \<open>Finding a broker\<close>

datatype response_obs = RespArrived "str + ipc_response" | RespTick try_lock

fun broker_response :: "response_obs list \<Rightarrow> (str + ipc_response) option" where
  "broker_response [] = None"
| "broker_response (RespArrived r # obs) = Some r"
| "broker_response (RespTick l # obs) =
     (case broker_lock_held l of
        Inl e \<Rightarrow> Some (Inl (io_text e))
      | Inr held \<Rightarrow> if held then broker_response obs else Some (Inl (lit ''tunnel manager stopped'')))"

text \<open>The command that starts a broker: without standard streams, in a session of its own on Unix and
  without a window on Windows.\<close>

definition broker_command :: "platform \<Rightarrow> path \<Rightarrow> str \<Rightarrow> child_command" where
  "broker_command os exe tunnel =
     \<lparr>cc_program = exe, cc_args = [lit ''devtunnel-broker'', tunnel], cc_stdin = StdNull, cc_stdout = StdNull,
      cc_stderr = StdNull, cc_env = [], cc_group = (os = Unix), cc_flags = (if os = Windows then CREATE_NO_WINDOW else 0)\<rparr>"

text \<open>One iteration of \<open>acquire\<close>: the clock before and after starting a broker, the lock file (\<open>None\<close>
  when it cannot be opened), the endpoint as read and parsed, the connection, the answer.\<close>

record acquire_round =
  ar_lock :: "try_lock option"
  ar_endpoint :: "endpoint option"
  ar_connected :: bool
  ar_sent :: bool
  ar_response :: "response_obs list"
  ar_now :: instant
  ar_exe :: "io_error + path"
  ar_spawned :: "child_command \<Rightarrow> io_error + unit"
  ar_after :: instant

datatype acquire_step = AcqFail str | AcqOpen | AcqRetry | AcqPending

definition acquire_connect :: "acquire_round \<Rightarrow> acquire_step" where
  "acquire_connect r =
     (case ar_lock r of
        None \<Rightarrow> AcqRetry
      | Some l \<Rightarrow>
          (case broker_lock_held l of
             Inl e \<Rightarrow> AcqFail (io_text e)
           | Inr held \<Rightarrow>
               (if \<not> held \<or> ar_endpoint r = None \<or> \<not> ar_connected r \<or> \<not> ar_sent r then AcqRetry
                else case broker_response (ar_response r) of
                       None \<Rightarrow> AcqPending
                     | Some (Inl _) \<Rightarrow> AcqRetry
                     | Some (Inr response) \<Rightarrow>
                         (case check_response response of Inl e \<Rightarrow> AcqFail e | Inr _ \<Rightarrow> AcqOpen))))"

text \<open>The messages an iteration sends.\<close>

definition acquire_hello :: "proxy_request \<Rightarrow> acquire_round \<Rightarrow> ipc_request list" where
  "acquire_hello request r =
     (if (case ar_lock r of Some l \<Rightarrow> broker_lock_held l = Inr True | None \<Rightarrow> False) \<and> ar_connected r
      then (case ar_endpoint r of Some ep \<Rightarrow> [hello request ep] | None \<Rightarrow> []) else [])"

text \<open>The instants at which brokers were started, and the result.\<close>

fun acquire_loop ::
  "platform \<Rightarrow> str \<Rightarrow> instant \<Rightarrow> acquire_round list \<Rightarrow> instant list \<times> (str + unit) option" where
  "acquire_loop os tunnel next_spawn [] = ([], None)"
| "acquire_loop os tunnel next_spawn (r # rs) =
     (case acquire_connect r of
        AcqFail e \<Rightarrow> ([], Some (Inl e))
      | AcqOpen \<Rightarrow> ([], Some (Inr ()))
      | AcqPending \<Rightarrow> ([], None)
      | AcqRetry \<Rightarrow>
          (if next_spawn \<le> ar_now r then
             (case ar_exe r of
                Inl e \<Rightarrow> ([], Some (Inl (io_text e)))
              | Inr exe \<Rightarrow>
                  (case ar_spawned r (broker_command os exe tunnel) of
                     Inl _ \<Rightarrow> ([], Some (Inl (lit ''cannot start tunnel manager'')))
                   | Inr _ \<Rightarrow>
                       (case acquire_loop os tunnel (ar_after r + secs 1) rs of
                          (ts, res) \<Rightarrow> (ar_after r # ts, res))))
           else acquire_loop os tunnel next_spawn rs))"

definition acquire ::
  "platform \<Rightarrow> str + path \<Rightarrow> str \<Rightarrow> instant \<Rightarrow> acquire_round list \<Rightarrow> instant list \<times> (str + unit) option" where
  "acquire os directory tunnel now rounds =
     (case directory of
        Inl e \<Rightarrow> ([], Some (Inl e))
      | Inr _ \<Rightarrow> acquire_loop os tunnel now rounds)"

text \<open>\<open>proxy\<close>: the checks, the log, the connection, and then the copying of \<open>stdio\<close>, whose outcome is
  \<open>copied\<close>; \<open>expired\<close> is whether the timeout came first.\<close>

definition proxy ::
  "platform \<Rightarrow> str + str \<Rightarrow> str + path \<Rightarrow> proxy_request \<Rightarrow> bool \<Rightarrow> instant \<Rightarrow> acquire_round list \<Rightarrow>
   (str + unit) option \<Rightarrow> (str + unit) option" where
  "proxy os log directory request expired now rounds copied =
     (case proxy_check request of
        Inl e \<Rightarrow> Some (Inl e)
      | Inr _ \<Rightarrow>
          (case log of
             Inl e \<Rightarrow> Some (Inl e)
           | Inr _ \<Rightarrow>
               (if expired then Some (Inl (lit ''Dev Tunnel connection timed out''))
                else case snd (acquire os directory (px_tunnel request) now rounds) of
                       None \<Rightarrow> None
                     | Some (Inl e) \<Rightarrow> Some (Inl e)
                     | Some (Inr _) \<Rightarrow> copied)))"

section \<open>Starting brokers\<close>

text \<open>Instants at least a second apart.\<close>

fun second_apart :: "instant list \<Rightarrow> bool" where
  "second_apart (s # t # ts) = (s + secs 1 \<le> t \<and> second_apart (t # ts))"
| "second_apart _ = True"

fun clock_ok :: "acquire_round list \<Rightarrow> bool" where
  "clock_ok (r # s # rs) = (ar_now r \<le> ar_after r \<and> ar_after r \<le> ar_now s \<and> clock_ok (s # rs))"
| "clock_ok [r] = (ar_now r \<le> ar_after r)"
| "clock_ok [] = True"

lemma clock_ok_tl: "clock_ok (r # rs) \<Longrightarrow> ar_now r \<le> ar_after r \<and> clock_ok rs"
  by (cases rs) auto

lemma acquire_loop_first:
  "acquire_loop os tunnel next_spawn rs = (ts, res) \<Longrightarrow> clock_ok rs \<Longrightarrow> ts = [] \<or> next_spawn \<le> hd ts"
proof (induction rs arbitrary: next_spawn ts res)
  case (Cons r rs)
  note ck = clock_ok_tl [OF Cons.prems(2)]
  show ?case
    using Cons.prems(1) Cons.IH ck
    by (fastforce split: acquire_step.splits if_splits sum.splits prod.splits)
qed simp

lemma acquire_loop_apart:
  "acquire_loop os tunnel next_spawn rs = (ts, res) \<Longrightarrow> clock_ok rs \<Longrightarrow> second_apart ts"
proof (induction rs arbitrary: next_spawn ts res)
  case (Cons r rs)
  note ck = clock_ok_tl [OF Cons.prems(2)]
  obtain us q where u: "acquire_loop os tunnel (ar_after r + secs 1) rs = (us, q)" by (cases "acquire_loop os tunnel (ar_after r + secs 1) rs")
  have "second_apart us" using Cons.IH u ck by blast
  moreover have "us = [] \<or> ar_after r + secs 1 \<le> hd us" using acquire_loop_first [OF u] ck by blast
  ultimately have "second_apart (ar_after r # us)" by (cases us) auto
  then show ?case
    using Cons.prems(1) Cons.IH ck u by (auto split: acquire_step.splits if_splits sum.splits)
qed simp

text \<open>
  A proxy does not flood the machine with brokers: however long it keeps trying, two brokers it
  starts are at least a second apart.
\<close>

theorem acquire_spawn_rate:
  assumes "clock_ok rounds" and "acquire os directory tunnel now rounds = (ts, res)"
  shows "second_apart ts"
  using acquire_loop_apart assms by (auto simp: acquire_def split: sum.splits)

definition lost_round :: "instant \<Rightarrow> acquire_round" where
  "lost_round t = \<lparr>ar_lock = None, ar_endpoint = None, ar_connected = False, ar_sent = False, ar_response = [],
     ar_now = t, ar_exe = Inr [], ar_spawned = (\<lambda>_. Inr ()), ar_after = t\<rparr>"

theorem acquire_spawn_rate_witness:
  "acquire Unix (Inr []) [] 0 [lost_round 0, lost_round 500, lost_round 1000] = ([0, 1000], None) \<and> second_apart [0, 1000]"
proof -
  have a: "acquire Unix (Inr []) [] 0 [lost_round 0, lost_round 500, lost_round 1000] = ([0, 1000], None)"
    by (simp add: acquire_def acquire_connect_def lost_round_def secs_def)
  have "clock_ok [lost_round 0, lost_round 500, lost_round 1000]" by (simp add: lost_round_def)
  then show ?thesis using acquire_spawn_rate [OF _ a] a by blast
qed

text \<open>
  The proxy hands a stream to the SSH client only when a live broker agreed: \<open>acquire\<close> succeeds
  only in an iteration in which the broker's lock was held by another process, the endpoint was
  readable, and the answer had the same protocol version and no error.
\<close>

theorem acquire_needs_live_broker:
  assumes "acquire os directory tunnel now rounds = (ts, Some (Inr u))"
  shows "\<exists>r \<in> set rounds. ar_lock r = Some LockWouldBlock \<and> ar_endpoint r \<noteq> None \<and>
     (\<exists>response. broker_response (ar_response r) = Some (Inr response) \<and>
        rs_version response = VERSION \<and> rs_error response = None)"
proof -
  have open_ok: "ar_lock r = Some LockWouldBlock \<and> ar_endpoint r \<noteq> None \<and>
     (\<exists>response. broker_response (ar_response r) = Some (Inr response) \<and>
        rs_version response = VERSION \<and> rs_error response = None)" if "acquire_connect r = AcqOpen" for r
    using that by (auto simp: acquire_connect_def broker_lock_held_def check_response_def
        split: option.splits try_lock.splits sum.splits if_splits)
  have "\<exists>r \<in> set rs. acquire_connect r = AcqOpen" if "acquire_loop os tunnel n rs = (xs, Some (Inr u))" for n rs xs
    using that
    by (induction os tunnel n rs arbitrary: xs rule: acquire_loop.induct)
       (auto split: acquire_step.splits if_splits sum.splits prod.splits)
  moreover have "acquire_loop os tunnel now rounds = (ts, Some (Inr u))"
    using assms by (auto simp: acquire_def split: sum.splits)
  ultimately show ?thesis using open_ok by blast
qed

definition good_round :: acquire_round where
  "good_round = (lost_round 0)\<lparr>ar_lock := Some LockWouldBlock, ar_endpoint := Some \<lparr>ep_port = 1, ep_token = []\<rparr>,
     ar_connected := True, ar_sent := True,
     ar_response := [RespTick LockWouldBlock, RespArrived (Inr \<lparr>rs_version = VERSION, rs_error = None\<rparr>)]\<rparr>"

theorem acquire_needs_live_broker_witness:
  "\<exists>r \<in> set [good_round]. ar_lock r = Some LockWouldBlock \<and> ar_endpoint r \<noteq> None"
proof -
  have "acquire Unix (Inr []) [] 0 [good_round] = ([], Some (Inr ()))"
    by (simp add: acquire_def acquire_connect_def good_round_def broker_lock_held_def check_response_def)
  from acquire_needs_live_broker [OF this] show ?thesis by blast
qed

text \<open>
  The client hears before it gets bytes: an admitted request is answered exactly once unless the
  client is gone or the answer cannot be sent, nothing is copied before the answer, and bytes
  follow exactly the answers without an error, starting with the banner read from the server.
\<close>

theorem serve_answers_once:
  assumes "serve token received leases env = Some (es, r)"
  shows "length (filter (\<lambda>e. \<exists>x. e = SvResponse x) es) \<le> 1 \<and>
    (SvCopy \<in> set es \<longrightarrow> (\<exists>pre es'. es = es' @ [SvResponse \<lparr>rs_version = VERSION, rs_error = None\<rparr>, SvBytes pre, SvCopy])) \<and>
    (r = Inr () \<longrightarrow> es = [] \<or> sv_peek env \<noteq> None \<or> SvCopy \<in> set es)"
proof (cases received)
  case (Inr request)
  have c: "serve_connect request env = (cs, q) \<Longrightarrow>
      filter (\<lambda>e. \<exists>x. e = SvResponse x) cs = [] \<and> SvCopy \<notin> set cs" for cs q
    by (auto simp: serve_connect_def split: option.splits sum.splits if_splits)
  have t: "filter P cs = [] \<Longrightarrow> filter P (take n cs) = []" for P :: "serve_effect \<Rightarrow> bool" and n cs
    by (auto simp: filter_empty_conv dest: in_set_takeD)
  show ?thesis
  proof (cases "fst (serve_admit token request leases)")
    case Serving
    obtain cs q where cs: "serve_connect request env = (cs, q)" by (cases "serve_connect request env")
    show ?thesis
    proof (cases "sv_peek env")
      case None
      then show ?thesis
        using assms Inr Serving c [OF cs] cs
        by (auto simp: serve_def serve_finish_def Let_def split: if_splits sum.splits copy_end.splits prod.splits)
    next
      case (Some p)
      then have "es = take (fst p) cs" using assms Inr Serving cs by (auto simp: serve_def split: prod.splits)
      then show ?thesis using c [OF cs] t Some by (auto dest: in_set_takeD)
    qed
  qed (use assms Inr in \<open>auto simp: serve_def serve_finish_def Let_def split: if_splits option.splits\<close>)
qed (use assms in \<open>simp add: serve_def\<close>)

definition routed :: forwarding where
  "routed = forwarding_default\<lparr>fw_ports := [22 \<mapsto> \<lparr>sa_ip = ipv4_localhost, sa_port = 5000, sa_scope = 0\<rparr>]\<rparr>"

definition demo_serve :: serve_env where
  "demo_serve = \<lparr>sv_relays = [], sv_can_bind = (\<lambda>_. True), sv_start_open = True,
     sv_rounds = [\<lparr>or_snapshot = forwarding_default, or_dialled = None, or_after = routed, or_sender = True\<rparr>,
       \<lparr>or_snapshot = routed, or_dialled = Some (Inr [83]), or_after = routed, or_sender = True\<rparr>],
     sv_peek = None, sv_sent = True, sv_wrote = True, sv_copy = CopyDone\<rparr>"

theorem serve_answers_once_witness:
  "\<exists>pre es'. [SvStart 22, SvResponse \<lparr>rs_version = VERSION, rs_error = None\<rparr>, SvBytes [83], SvCopy] =
     es' @ [SvResponse \<lparr>rs_version = VERSION, rs_error = None\<rparr>, SvBytes pre, SvCopy]"
proof -
  have "serve (lit ''ab'') (Inr \<lparr>rq_version = 1, rq_token = lit ''ab'', rq_remote_port = 22, rq_local_port = None\<rparr>)
      (lease_default 0) demo_serve =
    Some ([SvStart 22, SvResponse \<lparr>rs_version = VERSION, rs_error = None\<rparr>, SvBytes [83], SvCopy], Inr ())"
    by (simp add: serve_def serve_finish_def serve_admit_def same_token_bytes lease_acquire_def lease_default_def VERSION_def
        serve_connect_def demo_serve_def serve_round_of_def serve_accept_def routed_def forwarding_default_def)
  from serve_answers_once [OF this] show ?thesis by simp
qed

end
