(* ===== verification/Lifecycle.thy ===== *)
theory Lifecycle
  imports Client
begin

text \<open>
  \<open>broker\<close> of \<open>devtunnel/client.rs\<close> as a whole: the lock file, the endpoint file with the random
  capability, the loop of \<open>Broker\<close>, and the clean-up at its end; and the brokers and proxies of one
  tunnel as processes that share the lock and the endpoint file, in every interleaving.
\<close>

section \<open>The capability\<close>

definition hex_digit :: "nat \<Rightarrow> ch" where
  "hex_digit n = (if n < 10 then 48 + n else 87 + n)"

text \<open>\<open>format!("{byte:02x}")\<close>.\<close>

definition hex_byte :: "u8 \<Rightarrow> str" where
  "hex_byte b = [hex_digit (unat b div 16), hex_digit (unat b mod 16)]"

definition new_token :: "u8 list \<Rightarrow> str" where
  "new_token bytes = concat (map hex_byte bytes)"

section \<open>A broker's life\<close>

text \<open>What a broker does to what it shares with other processes, and the steps of its clean-up.\<close>

datatype broker_effect =
    BeTryLock try_lock
  | BeListen u16
  | BePublish "u8 list"
  | BeCloseListener
  | BeRemoveEndpoint bool
  | BeSessionsEnded nat nat
  | BeClearRelays
  | BeShutdownConnector
  | BeUnlock

text \<open>The outcomes of the calls made before the loop, the events of the loop (an \<open>Inr\<close> is a failed
  \<open>accept\<close>), whether the endpoint file could be removed, and how many sessions ended within the second they are given at the end.\<close>

record broker_env =
  be_directory :: "str + path"
  be_open_lock :: "path \<Rightarrow> io_error + unit"
  be_secure :: "path \<Rightarrow> ipc_error + u32 option"
  be_try_lock :: try_lock
  be_log :: "str + str"
  be_bind :: "io_error + u16"
  be_random :: "u8 list"
  be_temp_file :: "io_error + path"
  be_write :: "io_error + unit"
  be_sync :: "io_error + unit"
  be_persist :: "io_error + unit"
  be_watcher :: bool
  be_now :: instant
  be_events :: "(broker_event + io_error) list"
  be_removed :: bool
  be_joined :: nat

text \<open>The capability is drawn once; it goes into the endpoint file and to every session of the broker.\<close>

definition broker_token :: "broker_env \<Rightarrow> str" where
  "broker_token env = new_token (be_random env)"

definition broker_session ::
  "broker_env \<Rightarrow> str + ipc_request \<Rightarrow> lease_state \<Rightarrow> serve_env \<Rightarrow> (serve_effect list \<times> (str + unit)) option" where
  "broker_session env received leases senv = serve (broker_token env) received leases senv"

definition ipc_text :: "ipc_error \<Rightarrow> str" where
  "ipc_text e = (case e of IpcTooLarge \<Rightarrow> lit ''broker message too large'' | IpcInvalid \<Rightarrow> lit ''invalid broker message''
     | IpcIo x \<Rightarrow> io_text x | IpcCheck m \<Rightarrow> m)"

type_synonym 'a broker_act = "(str, broker_effect list, 'a) act"

definition emit :: "broker_effect \<Rightarrow> unit broker_act" where "emit e es = (Inr (), es @ [e])"

definition call :: "str + 'a \<Rightarrow> 'a broker_act" where "call r es = (r, es)"

definition io_call :: "io_error + 'a \<Rightarrow> 'a broker_act" where
  "io_call r = call (case r of Inl e \<Rightarrow> Inl (io_text e) | Inr x \<Rightarrow> Inr x)"

definition ipc_call :: "ipc_error + 'a \<Rightarrow> 'a broker_act" where
  "ipc_call r = call (case r of Inl e \<Rightarrow> Inl (ipc_text e) | Inr x \<Rightarrow> Inr x)"

text \<open>The lock: \<open>Some True\<close> when it was taken, \<open>Some False\<close> when another broker has it.\<close>

definition broker_lock :: "broker_env \<Rightarrow> str \<Rightarrow> bool broker_act" where
  "broker_lock env tunnel =
     abind (call (validate_tunnel_id tunnel)) (\<lambda>_.
     abind (call (be_directory env)) (\<lambda>directory.
     let lock_path = path_join directory (tunnel @ lit ''.lock'')
     in abind (io_call (be_open_lock env lock_path)) (\<lambda>_.
        abind (ipc_call (be_secure env lock_path)) (\<lambda>_.
        abind (emit (BeTryLock (be_try_lock env))) (\<lambda>_.
          case be_try_lock env of
            LockOk \<Rightarrow> areturn True
          | LockWouldBlock \<Rightarrow> areturn False
          | LockError e \<Rightarrow> abail (io_text e))))))"

text \<open>The endpoint file is complete and private before it gets its name.\<close>

definition broker_publish :: "(endpoint \<Rightarrow> u8 list) \<Rightarrow> broker_env \<Rightarrow> endpoint broker_act" where
  "broker_publish to_vec env =
     abind (call (be_log env)) (\<lambda>_.
     abind (io_call (be_bind env)) (\<lambda>port.
     abind (emit (BeListen port)) (\<lambda>_.
     let endpoint = \<lparr>ep_port = port, ep_token = broker_token env\<rparr>
     in abind (io_call (be_temp_file env)) (\<lambda>temporary.
        abind (ipc_call (be_secure env temporary)) (\<lambda>_.
        abind (io_call (be_write env)) (\<lambda>_.
        abind (io_call (be_sync env)) (\<lambda>_.
        abind (io_call (be_persist env)) (\<lambda>_.
        abind (emit (BePublish (to_vec endpoint))) (\<lambda>_. areturn endpoint))))))))) "

fun broker_loop :: "(broker_event + io_error) list \<Rightarrow> broker \<Rightarrow> (str + broker) option" where
  "broker_loop evs b =
     (if \<not> bk_running b then Some (Inr b)
      else case evs of
             [] \<Rightarrow> None
           | Inl e # evs' \<Rightarrow> broker_loop evs' (broker_step b e)
           | Inr e # evs' \<Rightarrow> Some (Inl (io_text e)))"

definition broker_cleanup :: "broker_env \<Rightarrow> broker \<Rightarrow> unit broker_act" where
  "broker_cleanup env b =
     (let joined = min (be_joined env) (bk_sessions b)
      in abind (emit BeCloseListener) (\<lambda>_.
         abind (emit (BeRemoveEndpoint (be_removed env))) (\<lambda>_.
         abind (emit (BeSessionsEnded joined (bk_sessions b - joined))) (\<lambda>_.
         abind (emit BeClearRelays) (\<lambda>_.
           case bk_connector b of
             CWaiting _ \<Rightarrow> areturn ()
           | _ \<Rightarrow> emit BeShutdownConnector)))))"

text \<open>The lock is released when its file is dropped, on every way out after it was taken. \<open>None\<close>: the
  loop has not ended.\<close>

definition broker_run ::
  "(endpoint \<Rightarrow> u8 list) \<Rightarrow> broker_env \<Rightarrow> str \<Rightarrow> (broker_effect list \<times> (str + unit)) option" where
  "broker_run to_vec env tunnel =
     (case broker_lock env tunnel [] of
        (Inl e, es) \<Rightarrow> Some (es, Inl e)
      | (Inr False, es) \<Rightarrow> Some (es, Inr ())
      | (Inr True, es) \<Rightarrow>
          (case broker_publish to_vec env es of
             (Inl e, es') \<Rightarrow> Some (es' @ [BeUnlock], Inl e)
           | (Inr endpoint, es') \<Rightarrow>
               (case broker_loop (be_events env) (broker_start (be_watcher env) (be_now env)) of
                  None \<Rightarrow> None
                | Some (Inl e) \<Rightarrow> Some (es' @ [BeUnlock], Inl e)
                | Some (Inr b) \<Rightarrow>
                    (case broker_cleanup env b es' of
                       (r, es'') \<Rightarrow> Some (es'' @ [BeUnlock], r)))))"

text \<open>What a proxy does to the lock when it asks whether it is held.\<close>

definition probe_effects :: "try_lock \<Rightarrow> broker_effect list" where
  "probe_effects r = BeTryLock r # (if r = LockOk then [BeUnlock] else [])"

section \<open>The shape of a run\<close>

lemma abind_effects [simp]:
  "abind (emit e) f es = f () (es @ [e])"
  "abind (call r) g es = (case r of Inl m \<Rightarrow> (Inl m, es) | Inr x \<Rightarrow> g x es)"
  "abind (io_call q) h es = (case q of Inl m \<Rightarrow> (Inl (io_text m), es) | Inr x \<Rightarrow> h x es)"
  "abind (ipc_call p) k es = (case p of Inl m \<Rightarrow> (Inl (ipc_text m), es) | Inr x \<Rightarrow> k x es)"
  by (simp_all add: abind_def emit_def call_def io_call_def ipc_call_def split: sum.split)

text \<open>Effects that concern neither the lock nor the endpoint file.\<close>

fun local_effect :: "broker_effect \<Rightarrow> bool" where
  "local_effect (BeTryLock _) = False"
| "local_effect (BePublish _) = False"
| "local_effect (BeRemoveEndpoint _) = False"
| "local_effect BeUnlock = False"
| "local_effect _ = True"

lemma broker_lock_shape:
  "(\<exists>e. broker_lock env tunnel [] = (Inl e, [])) \<or>
   (be_try_lock env = LockOk \<and> broker_lock env tunnel [] = (Inr True, [BeTryLock LockOk])) \<or>
   (be_try_lock env = LockWouldBlock \<and> broker_lock env tunnel [] = (Inr False, [BeTryLock LockWouldBlock])) \<or>
   (\<exists>e. be_try_lock env = LockError e \<and> broker_lock env tunnel [] = (Inl (io_text e), [BeTryLock (LockError e)]))"
  by (cases "be_try_lock env") (simp_all add: broker_lock_def Let_def areturn_def abail_def split: sum.split)

lemma broker_publish_shape:
  "(\<exists>e ls. broker_publish to_vec env es = (Inl e, es @ ls) \<and> list_all local_effect ls) \<or>
   (\<exists>port. be_bind env = Inr port \<and> broker_publish to_vec env es =
      (Inr \<lparr>ep_port = port, ep_token = broker_token env\<rparr>,
       es @ [BeListen port, BePublish (to_vec \<lparr>ep_port = port, ep_token = broker_token env\<rparr>)]))"
proof (cases "be_bind env")
  case (Inr port)
  have "list_all local_effect [BeListen port]" by simp
  then show ?thesis
    by (auto simp: broker_publish_def Inr Let_def areturn_def split: sum.split) 
qed (auto simp: broker_publish_def intro: exI [of _ "[]"] split: sum.split)


text \<open>Bytes that are a broker's own endpoint: with the port it listens on and the capability its sessions
  ask for.\<close>

definition published_by :: "(endpoint \<Rightarrow> u8 list) \<Rightarrow> broker_env option \<Rightarrow> broker_effect set \<Rightarrow> u8 list \<Rightarrow> bool" where
  "published_by to_vec owner did bytes \<longleftrightarrow>
     (\<exists>env port. owner = Some env \<and> be_bind env = Inr port \<and> BeListen port \<in> did \<and>
        bytes = to_vec \<lparr>ep_port = port, ep_token = broker_token env\<rparr>)"

text \<open>What is done with the lock held: other locks are not touched, the endpoint is published at most
  once, and what is published is the broker's own endpoint, which it listens on by then.\<close>

definition locked_section :: "(endpoint \<Rightarrow> u8 list) \<Rightarrow> broker_env option \<Rightarrow> broker_effect list \<Rightarrow> bool" where
  "locked_section to_vec owner es \<longleftrightarrow>
     (\<forall>x. BeTryLock x \<notin> set es) \<and> BeUnlock \<notin> set es \<and>
     length (filter (\<lambda>e. \<exists>b. e = BePublish b) es) \<le> 1 \<and>
     (\<forall>xs b ys. es = xs @ BePublish b # ys \<longrightarrow> published_by to_vec owner (set xs) b)"

definition lock_program :: "(endpoint \<Rightarrow> u8 list) \<Rightarrow> broker_env option \<Rightarrow> broker_effect list \<Rightarrow> bool" where
  "lock_program to_vec owner es \<longleftrightarrow>
     es = [] \<or> (\<exists>x. x \<noteq> LockOk \<and> es = [BeTryLock x]) \<or>
     (\<exists>mid. es = BeTryLock LockOk # mid @ [BeUnlock] \<and> locked_section to_vec owner mid)"

lemma local_section:
  assumes "list_all local_effect ls"
  shows "BeTryLock x \<notin> set ls" "BeUnlock \<notin> set ls" "BePublish b \<notin> set ls"
    "filter (\<lambda>e. \<exists>b. e = BePublish b) ls = []"
  using assms by (auto simp: list_all_iff filter_empty_conv)

lemma local_append:
  assumes "list_all local_effect ls"
  shows "ls \<noteq> xs @ BePublish b # ys"
  using local_section(3) [OF assms, of b] by auto

lemma publish_position:
  assumes "\<forall>b. BePublish b \<notin> set xs" and "\<forall>b. BePublish b \<notin> set ys" and "xs @ BePublish b # ys = xs' @ BePublish b' # ys'"
  shows "xs' = xs \<and> b' = b"
proof -
  have "BePublish b' \<in> set (xs @ BePublish b # ys)" using assms(3) by simp
  then have "b' = b" using assms(1,2) by auto
  then show ?thesis using assms append_Cons_eq_iff [of "BePublish b" xs ys xs' ys'] by auto
qed

lemma locked_sectionI:
  assumes "list_all local_effect xs" and "list_all local_effect ys"
  shows "locked_section to_vec owner xs"
    and "published_by to_vec owner (set xs) b \<Longrightarrow> locked_section to_vec owner (xs @ BePublish b # ys)"
    and "published_by to_vec owner (set xs) b \<Longrightarrow>
      locked_section to_vec owner (xs @ BePublish b # BeCloseListener # BeRemoveEndpoint ok # ys)"
proof -
  note lx = local_section [OF assms(1)] and ly = local_section [OF assms(2)]
  show "locked_section to_vec owner xs" using lx local_append [OF assms(1)] by (auto simp: locked_section_def)
  show "locked_section to_vec owner (xs @ BePublish b # ys)" if "published_by to_vec owner (set xs) b"
    using that lx ly publish_position [of xs ys b] by (auto simp: locked_section_def)
  show "locked_section to_vec owner (xs @ BePublish b # BeCloseListener # BeRemoveEndpoint ok # ys)"
    if "published_by to_vec owner (set xs) b"
    using that lx ly publish_position [of xs "BeCloseListener # BeRemoveEndpoint ok # ys" b] by (auto simp: locked_section_def)
qed

lemma broker_cleanup_shape:
  "\<exists>ls. broker_cleanup env b es = (Inr (), es @ [BeCloseListener, BeRemoveEndpoint (be_removed env)] @ ls) \<and>
     list_all local_effect ls"
  by (cases "bk_connector b") (simp_all add: broker_cleanup_def areturn_def emit_def Let_def)

lemma broker_run_program:
  assumes "broker_run to_vec env tunnel = Some (es, r)"
  shows "lock_program to_vec (Some env) es"
proof (cases "broker_lock env tunnel [] = (Inr True, [BeTryLock LockOk])")
  case False
  then show ?thesis
    using assms broker_lock_shape [of env tunnel]
    by (auto simp: broker_run_def lock_program_def split: prod.splits sum.splits bool.splits)
next
  case True
  consider (bad) e ls where "broker_publish to_vec env [BeTryLock LockOk] = (Inl e, BeTryLock LockOk # ls)"
      "list_all local_effect ls"
    | (good) port where "be_bind env = Inr port" "broker_publish to_vec env [BeTryLock LockOk] =
        (Inr \<lparr>ep_port = port, ep_token = broker_token env\<rparr>, BeTryLock LockOk #
         [BeListen port, BePublish (to_vec \<lparr>ep_port = port, ep_token = broker_token env\<rparr>)])"
    using broker_publish_shape [of to_vec env "[BeTryLock LockOk]"] by auto
  then show ?thesis
  proof cases
    case bad
    then have "es = BeTryLock LockOk # ls @ [BeUnlock]"
      using assms True by (simp add: broker_run_def)
    then show ?thesis using locked_sectionI(1) [OF bad(2) bad(2), of to_vec "Some env"] by (auto simp: lock_program_def)
  next
    case good
    let ?b = "to_vec \<lparr>ep_port = port, ep_token = broker_token env\<rparr>"
    have pub: "published_by to_vec (Some env) (set [BeListen port]) ?b" using good(1) by (simp add: published_by_def)
    have l: "list_all local_effect [BeListen port]" by simp
    obtain ls where ls: "list_all local_effect ls" and
      es: "es = BeTryLock LockOk # ([BeListen port] @ [BePublish ?b]) @ [BeUnlock] \<or>
       es = BeTryLock LockOk # ([BeListen port] @ BePublish ?b # BeCloseListener # BeRemoveEndpoint (be_removed env) # ls) @ [BeUnlock]"
    proof (cases "broker_loop (be_events env) (broker_start (be_watcher env) (be_now env))")
      case (Some q)
      show ?thesis
      proof (cases q)
        case (Inl e)
        then show ?thesis using assms True good Some that [of "[]"] by (simp add: broker_run_def)
      next
        case (Inr b)
        obtain ls where "broker_cleanup env b (BeTryLock LockOk # [BeListen port, BePublish ?b]) =
          (Inr (), (BeTryLock LockOk # [BeListen port, BePublish ?b]) @ [BeCloseListener, BeRemoveEndpoint (be_removed env)] @ ls)"
          "list_all local_effect ls"
          using broker_cleanup_shape by blast
        then show ?thesis using assms True good Some Inr that [of ls] by (simp add: broker_run_def)
      qed
    qed (use assms True good in \<open>simp add: broker_run_def\<close>)
    have "locked_section to_vec (Some env) ([BeListen port] @ [BePublish ?b])"
      using locked_sectionI(2) [OF l _ pub, of "[]"] by simp
    moreover have "locked_section to_vec (Some env)
        ([BeListen port] @ BePublish ?b # BeCloseListener # BeRemoveEndpoint (be_removed env) # ls)"
      by (rule locked_sectionI(3) [OF l ls pub])
    ultimately show ?thesis using es unfolding lock_program_def by blast
  qed
qed

lemma probe_program: "lock_program to_vec owner (probe_effects r)"
  by (auto simp: probe_effects_def lock_program_def locked_section_def)

section \<open>The processes of one tunnel\<close>

text \<open>Who holds the lock, what is in the endpoint file, and for every process what it has done, what is
  left of its run and, for a broker, what its calls return. An exclusive lock is given to nobody while it is held; the kernel
  releases it when its holder dies.\<close>

record lock_machine =
  mc_holder :: "nat option"
  mc_endpoint :: "u8 list option"
  mc_done :: "nat \<Rightarrow> broker_effect list"
  mc_todo :: "nat \<Rightarrow> broker_effect list"
  mc_env :: "nat \<Rightarrow> broker_env option"

definition machine_init :: "u8 list option \<Rightarrow> lock_machine" where
  "machine_init old = \<lparr>mc_holder = None, mc_endpoint = old, mc_done = (\<lambda>_. []), mc_todo = (\<lambda>_. []), mc_env = (\<lambda>_. None)\<rparr>"

fun lock_allows :: "nat option \<Rightarrow> broker_effect \<Rightarrow> bool" where
  "lock_allows holder (BeTryLock LockOk) = (holder = None)"
| "lock_allows holder (BeTryLock LockWouldBlock) = (holder \<noteq> None)"
| "lock_allows holder _ = True"

fun holder_after :: "nat \<Rightarrow> broker_effect \<Rightarrow> nat option \<Rightarrow> nat option" where
  "holder_after i (BeTryLock LockOk) holder = Some i"
| "holder_after i BeUnlock holder = None"
| "holder_after i _ holder = holder"

fun endpoint_after :: "broker_effect \<Rightarrow> u8 list option \<Rightarrow> u8 list option" where
  "endpoint_after (BePublish b) content = Some b"
| "endpoint_after (BeRemoveEndpoint True) content = None"
| "endpoint_after _ content = content"

definition perform :: "nat \<Rightarrow> broker_effect \<Rightarrow> broker_effect list \<Rightarrow> lock_machine \<Rightarrow> lock_machine" where
  "perform i e rest s =
     \<lparr>mc_holder = holder_after i e (mc_holder s), mc_endpoint = endpoint_after e (mc_endpoint s),
      mc_done = (mc_done s)(i := mc_done s i @ [e]), mc_todo = (mc_todo s)(i := rest), mc_env = mc_env s\<rparr>"

inductive machine_step :: "(endpoint \<Rightarrow> u8 list) \<Rightarrow> str \<Rightarrow> lock_machine \<Rightarrow> lock_machine \<Rightarrow> bool"
  for to_vec tunnel where
  broker_starts: "mc_todo s i = [] \<Longrightarrow> mc_done s i = [] \<Longrightarrow> broker_run to_vec env tunnel = Some (es, r) \<Longrightarrow>
    machine_step to_vec tunnel s (s\<lparr>mc_todo := (mc_todo s)(i := es), mc_env := (mc_env s)(i := Some env)\<rparr>)"
| proxy_probes: "mc_todo s i = [] \<Longrightarrow> mc_done s i = [] \<Longrightarrow>
    machine_step to_vec tunnel s (s\<lparr>mc_todo := (mc_todo s)(i := probe_effects q)\<rparr>)"
| acts: "mc_todo s i = e # rest \<Longrightarrow> lock_allows (mc_holder s) e \<Longrightarrow>
    machine_step to_vec tunnel s (perform i e rest s)"
| dies: "mc_holder s = Some i \<Longrightarrow> machine_step to_vec tunnel s (perform i BeUnlock [] s)"
| dies_unlocked: "mc_holder s \<noteq> Some i \<Longrightarrow> machine_step to_vec tunnel s (s\<lparr>mc_todo := (mc_todo s)(i := [])\<rparr>)"

inductive_cases machine_stepE: "machine_step to_vec tunnel s s'"

text \<open>A broker that has published its endpoint and is neither cleaning up nor gone.\<close>

definition serving :: "lock_machine \<Rightarrow> nat \<Rightarrow> u8 list \<Rightarrow> bool" where
  "serving s i bytes \<longleftrightarrow>
     BePublish bytes \<in> set (mc_done s i) \<and> BeUnlock \<notin> set (mc_done s i) \<and>
     (\<forall>ok. BeRemoveEndpoint ok \<notin> set (mc_done s i))"

definition proc_inv ::
  "(endpoint \<Rightarrow> u8 list) \<Rightarrow> broker_env option \<Rightarrow> bool \<Rightarrow> u8 list option \<Rightarrow> broker_effect list \<Rightarrow> broker_effect list \<Rightarrow> bool" where
  "proc_inv to_vec owner held content did todo \<longleftrightarrow>
     (if held
      then (\<exists>mid. todo = mid @ [BeUnlock] \<and> locked_section to_vec owner (tl did @ mid)) \<and> hd did = BeTryLock LockOk \<and> did \<noteq> [] \<and>
        ((\<forall>ok. BeRemoveEndpoint ok \<notin> set did) \<longrightarrow> (\<forall>b. BePublish b \<in> set did \<longrightarrow> content = Some b))
      else (todo = [] \<or> lock_program to_vec owner todo \<and> did = []) \<and> (\<forall>b. BePublish b \<in> set did \<longrightarrow> BeUnlock \<in> set did))"

definition machine_inv :: "(endpoint \<Rightarrow> u8 list) \<Rightarrow> lock_machine \<Rightarrow> bool" where
  "machine_inv to_vec s \<longleftrightarrow>
     (\<forall>i. proc_inv to_vec (mc_env s i) (mc_holder s = Some i) (mc_endpoint s) (mc_done s i) (mc_todo s i))"


section \<open>One broker at a time\<close>

lemma lock_program_starts:
  assumes "lock_program to_vec owner (e # rest)"
  shows "\<exists>x. e = BeTryLock x \<and> (x \<noteq> LockOk \<longrightarrow> rest = []) \<and>
    (x = LockOk \<longrightarrow> (\<exists>mid. rest = mid @ [BeUnlock] \<and> locked_section to_vec owner mid))"
  using assms by (auto simp: lock_program_def)

lemma proc_inv_unheld [simp]:
  "proc_inv to_vec owner False content did todo \<longleftrightarrow>
     (todo = [] \<or> lock_program to_vec owner todo \<and> did = []) \<and> (\<forall>b. BePublish b \<in> set did \<longrightarrow> BeUnlock \<in> set did)"
  by (simp add: proc_inv_def)

lemma proc_inv_held:
  "proc_inv to_vec owner True content did todo \<longleftrightarrow>
     (\<exists>mid before. todo = mid @ [BeUnlock] \<and> did = BeTryLock LockOk # before \<and> locked_section to_vec owner (before @ mid) \<and>
        ((\<forall>ok. BeRemoveEndpoint ok \<notin> set before) \<longrightarrow> (\<forall>b. BePublish b \<in> set before \<longrightarrow> content = Some b)))"
  by (cases did) (auto simp: proc_inv_def)

text \<open>The process that is not acting keeps its part of the invariant whenever it is without the
  lock before and after.\<close>

lemma machine_invI:
  assumes "machine_inv to_vec s"
    and "proc_inv to_vec (mc_env s' i) (mc_holder s' = Some i) (mc_endpoint s') (mc_done s' i) (mc_todo s' i)"
    and "\<And>j. j \<noteq> i \<Longrightarrow> mc_done s' j = mc_done s j \<and> mc_todo s' j = mc_todo s j \<and> mc_env s' j = mc_env s j"
    and "\<And>j. j \<noteq> i \<Longrightarrow> mc_holder s' = Some j \<longleftrightarrow> mc_holder s = Some j"
    and "mc_endpoint s' = mc_endpoint s \<or> mc_holder s = Some i"
  shows "machine_inv to_vec s'"
  unfolding machine_inv_def
proof
  fix j
  show "proc_inv to_vec (mc_env s' j) (mc_holder s' = Some j) (mc_endpoint s') (mc_done s' j) (mc_todo s' j)"
  proof (cases "j = i")
    case False
    have "proc_inv to_vec (mc_env s j) (mc_holder s = Some j) (mc_endpoint s) (mc_done s j) (mc_todo s j)"
      using assms(1) by (simp add: machine_inv_def)
    then show ?thesis
      using False assms(3-5) [OF] by (cases "mc_holder s = Some j") auto
  qed (use assms(2) in simp)
qed

lemma one_publish:
  assumes "locked_section to_vec owner (before @ BePublish b # mid)"
  shows "BePublish b' \<notin> set before" "BePublish b' \<notin> set mid"
proof -
  have "filter (\<lambda>e. \<exists>b. e = BePublish b) before = [] \<and> filter (\<lambda>e. \<exists>b. e = BePublish b) mid = []"
    using assms by (auto simp: locked_section_def)
  then show "BePublish b' \<notin> set before" "BePublish b' \<notin> set mid" by (auto simp: filter_empty_conv)
qed

text \<open>One step inside the section.\<close>

lemma held_act:
  assumes "proc_inv to_vec owner True content did (e # rest)" and "e \<noteq> BeUnlock"
  shows "proc_inv to_vec owner True (endpoint_after e content) (did @ [e]) rest \<and> (\<forall>i h. holder_after i e h = h)"
proof -
  obtain mid before where m: "e # rest = mid @ [BeUnlock]" "did = BeTryLock LockOk # before"
    "locked_section to_vec owner (before @ mid)"
    "(\<forall>ok. BeRemoveEndpoint ok \<notin> set before) \<longrightarrow> (\<forall>b. BePublish b \<in> set before \<longrightarrow> content = Some b)"
    using assms(1) by (auto simp: proc_inv_held)
  then obtain mid' where mid: "mid = e # mid'" "rest = mid' @ [BeUnlock]"
    using assms(2) by (cases mid) auto
  have e: "e \<noteq> BeTryLock x" for x using m(3) mid by (auto simp: locked_section_def)
  have "BePublish b \<in> set (before @ [e]) \<longrightarrow> endpoint_after e content = Some b"
    if "\<forall>ok. BeRemoveEndpoint ok \<notin> set (before @ [e])" for b
    using that m(4) one_publish(1) [of to_vec owner before _ mid' b] m(3) mid(1)
    by (cases e) auto
  moreover have "locked_section to_vec owner ((before @ [e]) @ mid')" using m(3) mid(1) by simp
  ultimately have "proc_inv to_vec owner True (endpoint_after e content) (did @ [e]) rest"
    unfolding proc_inv_held using m(2) mid(2) by (intro exI [of _ mid'] exI [of _ "before @ [e]"]) auto
  then show ?thesis using e assms(2) by (cases e) auto
qed

lemma acts_inv:
  assumes "machine_inv to_vec s" and "mc_todo s i = e # rest" and "lock_allows (mc_holder s) e"
  shows "machine_inv to_vec (perform i e rest s)"
proof -
  have p: "proc_inv to_vec (mc_env s i) (mc_holder s = Some i) (mc_endpoint s) (mc_done s i) (e # rest)"
    using assms(1,2) by (metis machine_inv_def)
  show ?thesis
  proof (cases "mc_holder s = Some i")
    case True
    show ?thesis
    proof (cases "e = BeUnlock")
      case unlock: True
      obtain mid before where "e # rest = mid @ [BeUnlock]" "locked_section to_vec (mc_env s i) (before @ mid)"
        using p True by (auto simp: proc_inv_held)
      then have "rest = []" using unlock by (cases mid) (auto simp: locked_section_def)
      then show ?thesis
        by (intro machine_invI [OF assms(1), of _ i]) (simp_all add: perform_def unlock True)
    next
      case False
      then show ?thesis
        using held_act [of to_vec "mc_env s i" "mc_endpoint s" "mc_done s i" e rest] p True
        by (intro machine_invI [OF assms(1), of _ i]) (simp_all add: perform_def)
    qed
  next
    case False
    then obtain x where x: "e = BeTryLock x" "x \<noteq> LockOk \<longrightarrow> rest = []" "mc_done s i = []"
      "x = LockOk \<longrightarrow> (\<exists>mid. rest = mid @ [BeUnlock] \<and> locked_section to_vec (mc_env s i) mid)"
      using p lock_program_starts [of to_vec "mc_env s i" e rest] by auto
    show ?thesis
    proof (cases x)
      case LockOk
      then have "mc_holder s = None" using assms(3) x(1) by simp
      moreover have "proc_inv to_vec (mc_env s i) True (mc_endpoint s) [BeTryLock LockOk] rest"
        using x(4) LockOk by (auto simp: proc_inv_held)
      ultimately show ?thesis
        using x LockOk by (intro machine_invI [OF assms(1), of _ i]) (simp_all add: perform_def)
    next
      case LockWouldBlock
      then show ?thesis
        using False x by (intro machine_invI [OF assms(1), of _ i]) (simp_all add: perform_def)
    next
      case (LockError e)
      then show ?thesis
        using False x by (intro machine_invI [OF assms(1), of _ i]) (simp_all add: perform_def)
    qed
  qed
qed

lemma machine_step_inv:
  assumes "machine_step to_vec tunnel s s'" and "machine_inv to_vec s"
  shows "machine_inv to_vec s'"
  using assms(1)
proof (cases rule: machine_step.cases)
  case (broker_starts i env es r)
  have "mc_holder s \<noteq> Some i"
    using assms(2) broker_starts(2) proc_inv_held by (metis append_is_Nil_conv list.distinct(1) machine_inv_def)
  then show ?thesis
    using broker_starts broker_run_program by (intro machine_invI [OF assms(2), of _ i]) auto
next
  case (proxy_probes i q)
  have "mc_holder s \<noteq> Some i"
    using assms(2) proxy_probes(2) proc_inv_held by (metis append_is_Nil_conv list.distinct(1) machine_inv_def)
  then show ?thesis
    using proxy_probes probe_program by (intro machine_invI [OF assms(2), of _ i]) auto
next
  case (acts i e rest)
  then show ?thesis using acts_inv [OF assms(2)] by blast
next
  case (dies i)
  then show ?thesis by (intro machine_invI [OF assms(2), of _ i]) (simp_all add: perform_def)
next
  case (dies_unlocked i)
  moreover have "proc_inv to_vec (mc_env s i) False (mc_endpoint s) (mc_done s i) (mc_todo s i)"
    using assms(2) dies_unlocked(2) by (metis machine_inv_def)
  ultimately show ?thesis by (intro machine_invI [OF assms(2), of _ i]) simp_all
qed

lemma machine_init_inv: "machine_inv to_vec (machine_init old)"
  by (simp add: machine_inv_def machine_init_def)

interpretation lock_system: reachable_system "machine_step to_vec tunnel" "\<lambda>s. \<exists>old. s = machine_init old" "machine_inv to_vec"
  for to_vec tunnel
  by unfold_locales (auto intro: machine_init_inv machine_step_inv)

lemma reachable_inv: "(machine_step to_vec tunnel)\<^sup>*\<^sup>* (machine_init old) s \<Longrightarrow> machine_inv to_vec s"
  using lock_system.reached_inv by blast

lemma serving_inv:
  assumes "machine_inv to_vec s" and "serving s i bytes"
  shows "mc_holder s = Some i \<and> mc_endpoint s = Some bytes \<and> published_by to_vec (mc_env s i) (set (mc_done s i)) bytes"
proof -
  have p: "proc_inv to_vec (mc_env s i) (mc_holder s = Some i) (mc_endpoint s) (mc_done s i) (mc_todo s i)"
    using assms(1) by (simp add: machine_inv_def)
  then have h: "mc_holder s = Some i"
    using assms(2) by (cases "mc_holder s = Some i") (auto simp: serving_def)
  then obtain mid before where m: "mc_done s i = BeTryLock LockOk # before" "locked_section to_vec (mc_env s i) (before @ mid)"
      "(\<forall>ok. BeRemoveEndpoint ok \<notin> set before) \<longrightarrow> (\<forall>b. BePublish b \<in> set before \<longrightarrow> mc_endpoint s = Some b)"
    using p by (auto simp: proc_inv_held)
  moreover have "BePublish bytes \<in> set before" using assms(2) m(1) by (simp add: serving_def)
  then obtain xs ys where xs: "before = xs @ BePublish bytes # ys" by (meson split_list)
  then have "published_by to_vec (mc_env s i) (set xs) bytes" using m(2) by (simp add: locked_section_def)
  then have "published_by to_vec (mc_env s i) (set (mc_done s i)) bytes"
    using xs m(1) by (auto simp: published_by_def)
  ultimately show ?thesis using h assms(2) xs by (auto simp: serving_def)
qed

text \<open>
  C14. A tunnel has one broker at a time, and its endpoint is the one in the file: in every interleaving
  of brokers that start, give up, serve, fail, clean up or are killed, and of proxies that test the
  lock, a serving broker holds the lock, the endpoint file has exactly what it published, which
  is the port it listens on and the capability its sessions ask for, and no other broker is
  serving.
\<close>

theorem single_broker:
  assumes "(machine_step to_vec tunnel)\<^sup>*\<^sup>* (machine_init old) s" and "serving s i bytes"
  shows "mc_holder s = Some i \<and> mc_endpoint s = Some bytes \<and>
    (\<exists>env port. mc_env s i = Some env \<and> be_bind env = Inr port \<and> BeListen port \<in> set (mc_done s i) \<and>
       bytes = to_vec \<lparr>ep_port = port, ep_token = broker_token env\<rparr>) \<and>
    (\<forall>j bytes'. serving s j bytes' \<longrightarrow> j = i \<and> bytes' = bytes)"
  using serving_inv [OF reachable_inv [OF assms(1)]] assms(2) unfolding published_by_def by (metis option.inject)

definition demo_env :: broker_env where
  "demo_env =
     \<lparr>be_directory = Inr [], be_open_lock = (\<lambda>_. Inr ()), be_secure = (\<lambda>_. Inr None), be_try_lock = LockOk,
      be_log = Inr [], be_bind = Inr 7, be_random = [171], be_temp_file = Inr [], be_write = Inr (), be_sync = Inr (),
      be_persist = Inr (), be_watcher = False, be_now = 0, be_events = [Inl (BTick 5000)], be_removed = True, be_joined = 0\<rparr>"

definition demo_bytes :: "endpoint \<Rightarrow> u8 list" where
  "demo_bytes ep = replicate (unat (ep_port ep)) 1 @ 0 # as_bytes (ep_token ep)"

definition demo_published :: "u8 list" where
  "demo_published = demo_bytes \<lparr>ep_port = 7, ep_token = new_token [171]\<rparr>"

lemma demo_broker_run:
  "broker_run demo_bytes demo_env (lit ''abc'') =
     Some ([BeTryLock LockOk, BeListen 7, BePublish demo_published, BeCloseListener, BeRemoveEndpoint True,
            BeSessionsEnded 0 0, BeClearRelays, BeUnlock], Inr ())"
  by (simp add: broker_run_def broker_lock_def broker_publish_def broker_cleanup_def demo_env_def demo_published_def broker_token_def
      validate_tunnel_id_def valid_tunnel_id_def tunnel_label_def text_eval broker_start_def on_tick_def
      begin_idle_shutdown_def lease_default_def secs_def areturn_def emit_def Let_def)

definition demo_machine :: lock_machine where
  "demo_machine =
     perform 3 (BePublish demo_published) [BeCloseListener, BeRemoveEndpoint True, BeSessionsEnded 0 0, BeClearRelays, BeUnlock]
      (perform 3 (BeListen 7) [BePublish demo_published, BeCloseListener, BeRemoveEndpoint True, BeSessionsEnded 0 0, BeClearRelays, BeUnlock]
       (perform 3 (BeTryLock LockOk) [BeListen 7, BePublish demo_published, BeCloseListener, BeRemoveEndpoint True,
          BeSessionsEnded 0 0, BeClearRelays, BeUnlock]
        ((machine_init None)\<lparr>mc_todo := (mc_todo (machine_init None))(3 := [BeTryLock LockOk, BeListen 7,
           BePublish demo_published, BeCloseListener, BeRemoveEndpoint True, BeSessionsEnded 0 0, BeClearRelays, BeUnlock]),
           mc_env := (mc_env (machine_init None))(3 := Some demo_env)\<rparr>)))"

lemma demo_machine_reached: "(machine_step demo_bytes (lit ''abc''))\<^sup>*\<^sup>* (machine_init None) demo_machine"
proof -
  let ?tail = "[BeCloseListener, BeRemoveEndpoint True, BeSessionsEnded 0 0, BeClearRelays, BeUnlock]"
  let ?s0 = "(machine_init None)\<lparr>mc_todo := (mc_todo (machine_init None))(3 := [BeTryLock LockOk, BeListen 7,
    BePublish demo_published, BeCloseListener, BeRemoveEndpoint True, BeSessionsEnded 0 0, BeClearRelays, BeUnlock]),
    mc_env := (mc_env (machine_init None))(3 := Some demo_env)\<rparr>"
  let ?s1 = "perform 3 (BeTryLock LockOk) (BeListen 7 # BePublish demo_published # ?tail) ?s0"
  let ?s2 = "perform 3 (BeListen 7) (BePublish demo_published # ?tail) ?s1"
  have "machine_step demo_bytes (lit ''abc'') (machine_init None) ?s0"
    by (rule broker_starts [OF _ _ demo_broker_run]) (simp_all add: machine_init_def)
  moreover have "machine_step demo_bytes (lit ''abc'') ?s0 ?s1"
    by (rule acts) (simp_all add: machine_init_def)
  moreover have "machine_step demo_bytes (lit ''abc'') ?s1 ?s2"
    by (rule acts) (simp_all add: perform_def)
  moreover have "machine_step demo_bytes (lit ''abc'') ?s2 demo_machine"
    unfolding demo_machine_def by (rule acts) (simp_all add: perform_def)
  ultimately show ?thesis by (meson converse_rtranclp_into_rtranclp rtranclp.rtrancl_refl)
qed

lemma demo_machine_serving: "serving demo_machine 3 demo_published"
  by (simp add: serving_def demo_machine_def perform_def machine_init_def)

theorem single_broker_witness:
  "mc_holder demo_machine = Some 3 \<and> mc_endpoint demo_machine = Some demo_published \<and>
   (\<exists>env port. mc_env demo_machine 3 = Some env \<and> demo_published = demo_bytes \<lparr>ep_port = port, ep_token = broker_token env\<rparr>)"
  using single_broker [OF demo_machine_reached demo_machine_serving] by blast

section \<open>Capabilities differ\<close>

lemma hex_digit_inj: "m < 16 \<Longrightarrow> n < 16 \<Longrightarrow> hex_digit m = hex_digit n \<Longrightarrow> m = n"
  by (auto simp: hex_digit_def split: if_splits)

lemma unat_u8: "unat (c :: u8) < 256"
  by (rule order_less_le_trans [OF unsigned_less]) simp

lemma hex_byte_inj: "hex_byte a = hex_byte b \<longleftrightarrow> a = b"
proof
  have lt: "unat c div 16 < 16" for c :: u8
    using unat_u8 [of c] by simp
  assume "hex_byte a = hex_byte b"
  then have "unat a div 16 = unat b div 16" "unat a mod 16 = unat b mod 16"
    using hex_digit_inj [OF lt lt] hex_digit_inj [of "unat a mod 16" "unat b mod 16"] by (simp_all add: hex_byte_def)
  then have "unat a = unat b" by (metis div_mult_mod_eq)
  then show "a = b" by (simp add: word_unat_eq_iff)
qed simp

lemma new_token_digits: "list_all (\<lambda>c. is_ascii_digit c \<or> 97 \<le> c \<and> c \<le> 102) (new_token xs)"
proof -
  have "list_all (\<lambda>c. is_ascii_digit c \<or> 97 \<le> c \<and> c \<le> 102) (hex_byte b)" for b
    using unat_u8 [of b] by (auto simp: hex_byte_def hex_digit_def is_ascii_digit_def)
  then show ?thesis by (induction xs) (auto simp: new_token_def)
qed

lemma valid_token: "valid_str (new_token xs)"
  using new_token_digits [of xs] by (auto simp: valid_str_def list_all_iff scalar_def is_ascii_digit_def)

text \<open>
  The capability loses nothing of the random bytes: it has two lower-case hexadecimal digits per
  byte, so it is an ordinary string, and different random bytes give different capabilities.
\<close>

theorem token_injective:
  "(new_token xs = new_token ys \<longleftrightarrow> xs = ys) \<and> length (new_token xs) = 2 * length xs \<and>
   list_all (\<lambda>c. is_ascii_digit c \<or> 97 \<le> c \<and> c \<le> 102) (new_token xs) \<and> valid_str (new_token xs)"
proof -
  have len: "length (hex_byte b) = 2" for b by (simp add: hex_byte_def)
  have inj: "new_token xs = new_token ys \<longrightarrow> xs = ys"
  proof (induction xs arbitrary: ys)
    case Nil
    show ?case by (cases ys) (auto simp: new_token_def hex_byte_def)
  next
    case (Cons x xs)
    then show ?case
      using append_eq_append_conv [of "hex_byte x" "hex_byte (hd ys)"] len
      by (cases ys) (auto simp: new_token_def hex_byte_inj, auto simp: hex_byte_def)
  qed
  have "length (new_token xs) = 2 * length xs" by (induction xs) (auto simp: new_token_def len)
  then show ?thesis using inj new_token_digits valid_token by blast
qed

end
