(* ===== verification/Proxy.thy ===== *)
theory Proxy
  imports Lifecycle
begin

text \<open>
  The byte-carrying parts of \<open>devtunnel/client.rs\<close>: \<open>stdio\<close>, which joins the SSH client's standard
  streams with the stream from the broker, and the tasks of a relay on a fixed local port; and what
  a proxy and a broker make of each other.
\<close>

section \<open>Standard input and output\<close>

text \<open>The thread that reads standard input: an empty read is its end. Its messages, and whether it has
  closed the channel.\<close>

datatype stdin_obs = SiRead "u8 list" | SiInterrupted | SiError io_error

fun stdin_thread :: "stdin_obs list \<Rightarrow> (io_error + u8 list) list \<times> bool" where
  "stdin_thread [] = ([], False)"
| "stdin_thread (SiRead bytes # os) =
     (if bytes = [] then ([], True)
      else (case stdin_thread os of (ms, closed) \<Rightarrow> (Inr bytes # ms, closed)))"
| "stdin_thread (SiInterrupted # os) = stdin_thread os"
| "stdin_thread (SiError e # os) = ([Inl e], True)"

text \<open>\<open>upload\<close>: the bytes written to the stream and the result, \<open>None\<close> while the channel is open; \<open>write n\<close>
  is the outcome of the write of message \<open>n\<close>, a failure with the number of bytes that went out before it.\<close>

fun upload ::
  "(nat \<Rightarrow> (nat \<times> io_error) + unit) \<Rightarrow> io_error + unit \<Rightarrow> bool \<Rightarrow> nat \<Rightarrow> (io_error + u8 list) list \<Rightarrow>
     u8 list \<times> (io_error + unit) option" where
  "upload write shut closed n [] = ([], if closed then Some shut else None)"
| "upload write shut closed n (Inl e # ms) = ([], Some (Inl e))"
| "upload write shut closed n (Inr bytes # ms) =
     (case write n of
        Inl (k, e) \<Rightarrow> (take k bytes, Some (Inl e))
      | Inr _ \<Rightarrow> (case upload write shut closed (Suc n) ms of (out, r) \<Rightarrow> (bytes @ out, r)))"

text \<open>\<open>download\<close>: the chunks that were read and written; an empty one is the end of the stream, an
  error is one of reading or of writing.\<close>

fun download :: "io_error + unit \<Rightarrow> (io_error + u8 list) list \<Rightarrow> u8 list \<times> (io_error + unit) option" where
  "download flush [] = ([], None)"
| "download flush (Inl e # cs) = ([], Some (Inl e))"
| "download flush (Inr bytes # cs) =
     (if bytes = [] then ([], Some flush)
      else (case download flush cs of (out, r) \<Rightarrow> (bytes @ out, r)))"

text \<open>Which of the two ends first, and how far the other one is then.\<close>

record stdio_env =
  st_stdin :: "stdin_obs list"
  st_write :: "nat \<Rightarrow> (nat \<times> io_error) + unit"
  st_shutdown :: "io_error + unit"
  st_stream :: "(io_error + u8 list) list"
  st_flush :: "io_error + unit"
  st_upload_first :: bool
  st_progress :: nat

definition run_stdio :: "stdio_env \<Rightarrow> u8 list \<times> u8 list \<times> (io_error + unit) option" where
  "run_stdio env =
     (case stdin_thread (st_stdin env) of (ms, closed) \<Rightarrow>
      case upload (st_write env) (st_shutdown env) closed 0 ms of (sent, up) \<Rightarrow>
      case download (st_flush env) (st_stream env) of (out, down) \<Rightarrow>
        (if st_upload_first env
         then (case up of
                 None \<Rightarrow> (sent, take (st_progress env) out, None)
               | Some (Inl e) \<Rightarrow> (sent, take (st_progress env) out, Some (Inl e))
               | Some (Inr _) \<Rightarrow> (sent, out, down))
         else (take (st_progress env) sent, out, down)))"

section \<open>Relays\<close>

text \<open>The accept loop of a relay: a failed \<open>accept\<close> ends it, a connection without a route is dropped.
  The connections it serves, and whether it has ended.\<close>

fun relay_loop :: "u16 \<Rightarrow> (bool \<times> forwarding) list \<Rightarrow> (socket_addr \<times> u64) list \<times> bool" where
  "relay_loop remote_port [] = ([], False)"
| "relay_loop remote_port ((accepted, fw) # os) =
     (if \<not> accepted then ([], True)
      else (case relay_loop remote_port os of
              (ts, ended) \<Rightarrow>
                ((case relay_target remote_port fw of Some t \<Rightarrow> [t] | None \<Rightarrow> []) @ ts, ended)))"

text \<open>One connection of a relay, from the forwarding it sees: it is looked at before anything is copied
  (the \<open>select!\<close> is biased), and again after every change.\<close>

datatype relay_obs = RelayChanged forwarding | RelaySenderGone | RelayCopied

fun relay_stream :: "u64 \<Rightarrow> forwarding \<Rightarrow> relay_obs list \<Rightarrow> bool" where
  "relay_stream generation fw obs =
     (if relay_stale generation fw then True
      else case obs of
             [] \<Rightarrow> False
           | RelayChanged fw' # obs' \<Rightarrow> relay_stream generation fw' obs'
           | RelaySenderGone # _ \<Rightarrow> True
           | RelayCopied # _ \<Rightarrow> True)"

section \<open>Bytes are carried as they are\<close>

text \<open>What standard input and the stream hold before their ends.\<close>

fun stdin_bytes :: "stdin_obs list \<Rightarrow> u8 list" where
  "stdin_bytes (SiRead bytes # os) = (if bytes = [] then [] else bytes @ stdin_bytes os)"
| "stdin_bytes (SiInterrupted # os) = stdin_bytes os"
| "stdin_bytes _ = []"

fun stream_bytes :: "(io_error + u8 list) list \<Rightarrow> u8 list" where
  "stream_bytes (Inr bytes # cs) = (if bytes = [] then [] else bytes @ stream_bytes cs)"
| "stream_bytes _ = []"

lemma upload_prefix:
  "upload write shut closed n (fst (stdin_thread os)) = (sent, r) \<Longrightarrow>
     prefix sent (stdin_bytes os) \<and> (r = Some (Inr ()) \<longrightarrow> sent = stdin_bytes os)"
proof (induction os arbitrary: n sent r rule: stdin_thread.induct)
  case (2 bytes os)
  show ?case
  proof (cases "bytes = []")
    case False
    obtain out r' where u: "upload write shut closed (Suc n) (fst (stdin_thread os)) = (out, r')"
      by (cases "upload write shut closed (Suc n) (fst (stdin_thread os))")
    then show ?thesis
      using 2(2) False 2(1) [OF False u]
      by (auto intro: prefix_prefix [OF take_is_prefix] split: sum.splits prod.splits)
  qed (use 2 in auto)
qed auto

lemma download_all:
  "download flush cs = (out, r) \<Longrightarrow> out = stream_bytes cs"
  by (induction flush cs arbitrary: out r rule: download.induct) (auto split: if_splits prod.splits)

text \<open>
  C31. The proxy is transparent: what it has sent to the server is always a beginning of what the SSH
  client wrote, and what it has printed a beginning of what the server sent; when it ends without
  an error it has printed all of the stream, and when standard input was over first it has sent
  all of that before it closed its half.
\<close>

theorem stdio_transparent:
  assumes "run_stdio env = (sent, out, r)"
  shows "prefix sent (stdin_bytes (st_stdin env)) \<and> prefix out (stream_bytes (st_stream env)) \<and>
    (r = Some (Inr ()) \<longrightarrow> out = stream_bytes (st_stream env) \<and>
       (st_upload_first env \<longrightarrow> sent = stdin_bytes (st_stdin env)))"
proof -
  obtain ms closed where ms: "stdin_thread (st_stdin env) = (ms, closed)" by (cases "stdin_thread (st_stdin env)")
  obtain s up where up: "upload (st_write env) (st_shutdown env) closed 0 ms = (s, up)"
    by (cases "upload (st_write env) (st_shutdown env) closed 0 ms")
  obtain d down where down: "download (st_flush env) (st_stream env) = (d, down)"
    by (cases "download (st_flush env) (st_stream env)")
  have u: "prefix s (stdin_bytes (st_stdin env)) \<and> (up = Some (Inr ()) \<longrightarrow> s = stdin_bytes (st_stdin env))"
    using upload_prefix [of "st_write env" "st_shutdown env" closed 0 "st_stdin env" s up] up ms by simp
  have d: "d = stream_bytes (st_stream env)" using download_all down by blast
  have t: "prefix (take n s) (stdin_bytes (st_stdin env))" for n
    using u take_is_prefix prefix_order.trans by blast
  show ?thesis
    using assms u d t ms up down
    by (auto simp: run_stdio_def take_is_prefix split: if_splits option.splits sum.splits)
qed

definition demo_stdio :: stdio_env where
  "demo_stdio = \<lparr>st_stdin = [SiRead [1], SiInterrupted, SiRead [2, 3], SiRead []], st_write = (\<lambda>_. Inr ()),
     st_shutdown = Inr (), st_stream = [Inr [7], Inr [8], Inr []], st_flush = Inr (), st_upload_first = True, st_progress = 0\<rparr>"

theorem stdio_transparent_witness:
  "run_stdio demo_stdio = ([1, 2, 3], [7, 8], Some (Inr ())) \<and> stdin_bytes (st_stdin demo_stdio) = [1, 2, 3]"
proof -
  have r: "run_stdio demo_stdio = ([1, 2, 3], [7, 8], Some (Inr ()))" by (simp add: run_stdio_def demo_stdio_def)
  have "st_upload_first demo_stdio" by (simp add: demo_stdio_def)
  then show ?thesis using stdio_transparent [OF r] r by metis
qed

section \<open>Relays stay on the machine\<close>

lemma relay_loop_target:
  "t \<in> set (fst (relay_loop port os)) \<Longrightarrow> \<exists>fw. (True, fw) \<in> set os \<and> relay_target port fw = Some t"
  by (induction os) (auto split: if_splits prod.splits option.splits, blast+)

text \<open>
  A relay only leads to the connector of its own machine: every connection it makes goes to a
  loopback address with a non-zero port that the connector had reported for the relay's port when
  the connection came in, and a connection whose generation is over is ended as soon as it looks,
  before a byte is copied when it was over from the start.
\<close>

theorem relay_confined:
  assumes "\<And>accepted fw. (accepted, fw) \<in> set os \<Longrightarrow>
      \<exists>es. run_ok broker_adm broker_step (broker_start watcher now) es \<and>
        fw = bk_forwarding (foldl broker_step (broker_start watcher now) es)"
    and "(address, generation) \<in> set (fst (relay_loop port os))"
  shows "is_loopback (sa_ip address) \<and> sa_port address \<noteq> 0 \<and>
    (\<exists>fw. (True, fw) \<in> set os \<and> fw_ports fw port = Some address \<and> fw_generation fw = generation) \<and>
    (\<forall>fw obs. fw_generation fw \<noteq> generation \<longrightarrow> relay_stream generation fw obs)"
proof -
  obtain fw where fw: "(True, fw) \<in> set os" "fw_ports fw port = Some address" "fw_generation fw = generation"
    using relay_loop_target [OF assms(2)] by (auto simp: relay_target_def)
  obtain es where es: "run_ok broker_adm broker_step (broker_start watcher now) es"
    "fw = bk_forwarding (foldl broker_step (broker_start watcher now) es)" using assms(1) [OF fw(1)] by blast
  have "is_loopback (sa_ip address) \<and> sa_port address \<noteq> 0"
    using inv_route [OF broker_system.run_inv [OF broker_start_inv es(1)]] fw(2) es(2) by blast
  then show ?thesis using fw by (auto simp: relay_stale_def)
qed

theorem relay_confined_witness:
  "is_loopback (V4 127 0 0 1) \<and>
   relay_loop 2222 [(True, bk_forwarding (foldl broker_step (broker_start False 0) demo_events))] =
     ([(\<lparr>sa_ip = V4 127 0 0 1, sa_port = 2223, sa_scope = 0\<rparr>, 0)], False)"
proof -
  let ?fw = "bk_forwarding (foldl broker_step (broker_start False 0) demo_events)"
  have g: "fw_generation ?fw = 0" by (simp add: demo_eval)
  have l: "relay_loop 2222 [(True, ?fw)] = ([(\<lparr>sa_ip = V4 127 0 0 1, sa_port = 2223, sa_scope = 0\<rparr>, 0)], False)"
    by (simp add: relay_target_def demo_events_route g del: foldl_Cons)
  then have "(\<lparr>sa_ip = V4 127 0 0 1, sa_port = 2223, sa_scope = 0\<rparr>, 0) \<in> set (fst (relay_loop 2222 [(True, ?fw)]))"
    by simp
  from relay_confined [OF _ this, of False 0] demo_events_ok show ?thesis using l by auto
qed

section \<open>Proxy and broker\<close>

text \<open>
  C15. A proxy that finds a serving broker is let in: what it reads from the endpoint file is the port
  that broker listens on and the capability that broker's sessions ask for, and the request it sends
  with a tunnel id, ports and timeout that passed its own checks arrives as it was sent and is
  admitted by a session of that broker, unless that is stopping.
\<close>

theorem proxy_meets_broker:
  assumes "(machine_step to_vec tunnel)\<^sup>*\<^sup>* (machine_init old) s" and "serving s i bytes"
    and "mc_endpoint s = Some content" and "read_endpoint os (Inr (meta, Inr content)) euid = Inr got"
    and "\<And>ep. valid_str (ep_token ep) \<Longrightarrow> from_slice (to_vec ep) = Some ep"
    and "proxy_check request = Inr ()" and "\<not> le_stopping leases"
    and "\<And>rq. valid_str (rq_token rq) \<Longrightarrow> de (ser rq) = Some rq"
  shows "\<exists>env ep. mc_env s i = Some env \<and> from_slice got = Some ep \<and>
    be_bind env = Inr (ep_port ep) \<and> BeListen (ep_port ep) \<in> set (mc_done s i) \<and>
    (\<forall>frame rest. ipc_send ser (hello request ep) = Inr frame \<longrightarrow>
       (\<exists>rq. ipc_receive de (frame @ rest) = Inr (rq, rest) \<and>
          fst (serve_admit (broker_token env) rq leases) = Serving))"
proof -
  have sv: "mc_endpoint s = Some bytes" "published_by to_vec (mc_env s i) (set (mc_done s i)) bytes"
    using serving_inv [OF reachable_inv [OF assms(1)] assms(2)] by simp_all
  then obtain env port where b: "mc_env s i = Some env" "be_bind env = Inr port" "BeListen port \<in> set (mc_done s i)"
      "bytes = to_vec \<lparr>ep_port = port, ep_token = broker_token env\<rparr>"
    by (auto simp: published_by_def)
  let ?ep = "\<lparr>ep_port = port, ep_token = broker_token env\<rparr>"
  have valid: "valid_str (broker_token env)" by (simp add: broker_token_def valid_token)
  have got: "got = bytes" using assms(3,4) sv(1) by (auto simp: read_endpoint_Inr)
  have "rq_remote_port (hello request ?ep) \<noteq> 0 \<and> rq_local_port (hello request ?ep) \<noteq> Some 0"
    using assms(6) by (auto simp: proxy_check_def hello_def split: if_splits)
  then have "fst (serve_admit (broker_token env) (hello request ?ep) leases) = Serving"
    using assms(7) token_eq.same_refl by (auto simp: serve_admit_def lease_acquire_def hello_def)
  then show ?thesis
    using got b assms(5) [of ?ep] assms(8) [of "hello request ?ep"] valid
      ipc_receive_frame [of de ser "hello request ?ep"]
    by (intro exI [of _ env] exI [of _ ?ep]) (auto simp: hello_def)
qed

text \<open>A pair of concrete encodings.\<close>

definition take_unary :: "u8 list \<Rightarrow> nat \<times> u8 list" where
  "take_unary bs = (length (takeWhile (\<lambda>b. b = 1) bs), drop 1 (dropWhile (\<lambda>b. b = 1) bs))"

definition demo_endpoint :: "u8 list \<Rightarrow> endpoint option" where
  "demo_endpoint bs = (case take_unary bs of (n, rest) \<Rightarrow> Some \<lparr>ep_port = word_of_nat n, ep_token = from_utf8_lossy rest\<rparr>)"

definition demo_ser :: "ipc_request \<Rightarrow> u8 list" where
  "demo_ser rq = replicate (unat (rq_version rq)) 1 @ 0 # replicate (unat (rq_remote_port rq)) 1 @ 0 #
     (case rq_local_port rq of None \<Rightarrow> [0] | Some p \<Rightarrow> 1 # replicate (unat p) 1 @ [0]) @ as_bytes (rq_token rq)"

definition demo_de :: "u8 list \<Rightarrow> ipc_request option" where
  "demo_de bs = (case take_unary bs of (v, bs1) \<Rightarrow> case take_unary bs1 of (r, bs2) \<Rightarrow> case take_unary bs2 of (l, bs3) \<Rightarrow>
     Some \<lparr>rq_version = word_of_nat v, rq_token = from_utf8_lossy bs3, rq_remote_port = word_of_nat r,
       rq_local_port = (if l = 0 then None else Some (word_of_nat (l - 1)))\<rparr>)"

lemma take_unary_replicate [simp]: "take_unary (replicate n 1 @ 0 # rest) = (n, rest)"
  by (induction n) (auto simp: take_unary_def)

lemma take_unary_option [simp]: "take_unary (0 # rest) = (0, rest)" "take_unary (1 # replicate n 1 @ 0 # rest) = (Suc n, rest)"
  using take_unary_replicate [of 0 rest] take_unary_replicate [of "Suc n" rest] by simp_all

lemma demo_endpoint_bytes: "valid_str (ep_token ep) \<Longrightarrow> demo_endpoint (demo_bytes ep) = Some (ep :: endpoint)"
  by (simp add: demo_endpoint_def demo_bytes_def from_utf8_lossy_as_bytes)

lemma demo_de_ser: "valid_str (rq_token rq) \<Longrightarrow> demo_de (demo_ser rq) = Some (rq :: ipc_request)"
  by (cases "rq_local_port rq") (simp_all add: demo_de_def demo_ser_def from_utf8_lossy_as_bytes)

theorem proxy_meets_broker_witness:
  "\<exists>env ep. mc_env demo_machine 3 = Some env \<and> demo_endpoint demo_published = Some ep \<and> be_bind env = Inr (ep_port ep)"
proof -
  have len: "length demo_published \<le> MAX_MESSAGE"
    by (simp add: demo_published_def demo_bytes_def new_token_def hex_byte_def hex_digit_def as_bytes_def MAX_MESSAGE_def text_eval)
  have content: "mc_endpoint demo_machine = Some demo_published"
    by (simp add: demo_machine_def perform_def)
  have got: "read_endpoint Unix (Inr (private_meta 1, Inr demo_published)) 5 = Inr demo_published"
    using len by (simp add: read_endpoint_Inr private_meta_def MAX_MESSAGE_def)
  have check: "proxy_check \<lparr>px_tunnel = lit ''abc'', px_remote_port = 22, px_local_port = None, px_timeout = 5\<rparr> = Inr ()"
    by (simp add: proxy_check_def validate_tunnel_id_def valid_tunnel_id_def tunnel_label_def text_eval)
  have "\<not> le_stopping (lease_default 0)" by (simp add: lease_default_def)
  from proxy_meets_broker [OF demo_machine_reached demo_machine_serving content got demo_endpoint_bytes check this demo_de_ser]
  show ?thesis by blast
qed

end
