(* ===== verification/Sftp.thy ===== *)
theory Sftp
  imports Session
begin

text \<open>
  \<open>sftp.rs\<close>: the SFTP subsystem. The operating system is the record \<open>fs\<close> of the calls the
  handlers make, over a type \<open>'w\<close> of file system states and a type \<open>'f\<close> of open files; every
  request handler takes the session and the file system state and returns its answer with the
  new ones.
\<close>

section \<open>The protocol's data\<close>

datatype status_code = ScOk | ScEof | ScNoSuchFile | ScPermissionDenied | ScFailure | ScOpUnsupported

record file_attributes =
  fa_size :: "u64 option"
  fa_permissions :: "u32 option"

type_synonym dir_entry = "str \<times> file_attributes"

record open_options =
  oo_read :: bool
  oo_write :: bool
  oo_append :: bool
  oo_truncate :: bool
  oo_create :: bool
  oo_create_new :: bool

definition FLAG_WRITE :: u32 where "FLAG_WRITE = 2"
definition FLAG_APPEND :: u32 where "FLAG_APPEND = 4"

definition flags_contain :: "u32 \<Rightarrow> u32 \<Rightarrow> bool" where
  "flags_contain flags f \<longleftrightarrow> flags AND f = f"

datatype reply =
    RVersion
  | RStatus u32
  | RHandle u32 str
  | RData u32 "u8 list"
  | RName u32 "dir_entry list"
  | RPath u32 str
  | RAttrs u32 file_attributes

section \<open>The operating system\<close>

record ('w, 'f) fs =
  fs_canonicalize :: "'w \<Rightarrow> path \<Rightarrow> io_error + path"
  fs_flags_into :: "u32 \<Rightarrow> open_options"
  fs_open :: "open_options \<Rightarrow> path \<Rightarrow> 'w \<Rightarrow> (io_error + 'f) \<times> 'w"
  fs_seek :: "'f \<Rightarrow> u64 \<Rightarrow> 'w \<Rightarrow> (io_error + unit) \<times> 'w"
  fs_read :: "'f \<Rightarrow> nat \<Rightarrow> 'w \<Rightarrow> (io_error + u8 list) \<times> 'w"
  fs_write_all :: "'f \<Rightarrow> u8 list \<Rightarrow> 'w \<Rightarrow> (io_error + unit) \<times> 'w"
  fs_file_metadata :: "'f \<Rightarrow> 'w \<Rightarrow> io_error + file_attributes"
  fs_set_len :: "'f \<Rightarrow> u64 \<Rightarrow> 'w \<Rightarrow> (io_error + unit) \<times> 'w"
  fs_read_dir :: "path \<Rightarrow> 'w \<Rightarrow> io_error + (io_error + str \<times> (io_error + file_attributes)) list"
  fs_default_attributes :: file_attributes
  fs_metadata :: "path \<Rightarrow> 'w \<Rightarrow> io_error + file_attributes"
  fs_symlink_metadata :: "path \<Rightarrow> 'w \<Rightarrow> io_error + file_attributes"
  fs_set_permissions :: "path \<Rightarrow> u32 \<Rightarrow> 'w \<Rightarrow> (io_error + unit) \<times> 'w"
  fs_create_dir :: "path \<Rightarrow> 'w \<Rightarrow> (io_error + unit) \<times> 'w"
  fs_remove_dir :: "path \<Rightarrow> 'w \<Rightarrow> (io_error + unit) \<times> 'w"
  fs_remove_file :: "path \<Rightarrow> 'w \<Rightarrow> (io_error + unit) \<times> 'w"
  fs_rename :: "path \<Rightarrow> path \<Rightarrow> 'w \<Rightarrow> (io_error + unit) \<times> 'w"
  fs_read_link :: "path \<Rightarrow> 'w \<Rightarrow> io_error + path"

section \<open>The session\<close>

definition READDIR_BATCH :: nat where "READDIR_BATCH = 100"

datatype 'f handle_entry = HFile 'f | HDir "dir_entry list" nat

record 'f sftp =
  sf_root :: "path option"
  sf_start_dir :: path
  sf_handles :: "str \<rightharpoonup> 'f handle_entry"
  sf_next_handle :: u64

definition sftp_new ::
  "('w, 'f) fs \<Rightarrow> os_env \<Rightarrow> path option \<Rightarrow> 'w \<Rightarrow> path option \<Rightarrow> 'f sftp" where
  "sftp_new fs os current_dir w root =
     \<lparr>sf_root = map_option (\<lambda>r. case fs_canonicalize fs w r of Inr c \<Rightarrow> c | Inl _ \<Rightarrow> r) root,
      sf_start_dir =
        (case session_start_dir os of
           Some d \<Rightarrow> d
         | None \<Rightarrow> (case current_dir of Some d \<Rightarrow> d | None \<Rightarrow> dot)),
      sf_handles = Map.empty,
      sf_next_handle = 0\<rparr>"

definition handle_key :: "u64 \<Rightarrow> str" where
  "handle_key n = lit ''h'' @ show_nat (unat n)"

definition alloc_handle :: "'f sftp \<Rightarrow> 'f handle_entry \<Rightarrow> str \<times> 'f sftp" where
  "alloc_handle s entry =
     (let key = handle_key (sf_next_handle s)
      in (key, s\<lparr>sf_next_handle := sf_next_handle s + 1, sf_handles := (sf_handles s)(key \<mapsto> entry)\<rparr>))"

section \<open>Paths\<close>

fun normalize_loop :: "component list \<Rightarrow> path \<Rightarrow> path" where
  "normalize_loop [] out = out"
| "normalize_loop (ParentDir # cs) out = normalize_loop cs (path_pop out)"
| "normalize_loop (CurDir # cs) out = normalize_loop cs out"
| "normalize_loop (c # cs) out = normalize_loop cs (path_push out (comp_text c))"

definition normalize_lexical :: "path \<Rightarrow> path" where
  "normalize_lexical p = normalize_loop (components p) []"

definition trim_start_slashes :: "str \<Rightarrow> str" where
  "trim_start_slashes s = dropWhile (\<lambda>c. c = sep_ch) s"

definition resolve :: "('w, 'f) fs \<Rightarrow> 'w \<Rightarrow> 'f sftp \<Rightarrow> str \<Rightarrow> status_code + path" where
  "resolve fs w s client_path =
     (case sf_root s of
        None \<Rightarrow>
          (if has_root client_path then Inr client_path
           else Inr (path_join (sf_start_dir s) client_path))
      | Some root \<Rightarrow>
          (let rel = trim_start_slashes client_path;
               joined = path_join root rel;
               normalized = normalize_lexical joined
           in if \<not> path_starts_with normalized root then Inl ScPermissionDenied
              else (case fs_canonicalize fs w normalized of
                      Inr canon \<Rightarrow>
                        if \<not> path_starts_with canon root then Inl ScPermissionDenied
                        else Inr canon
                    | Inl _ \<Rightarrow> Inr normalized)))"

definition to_client_path :: "'f sftp \<Rightarrow> path \<Rightarrow> str" where
  "to_client_path s real =
     (case sf_root s of
        None \<Rightarrow> real
      | Some root \<Rightarrow>
          (let shown = (case path_strip_prefix real root of Some q \<Rightarrow> q | None \<Rightarrow> real);
               t = lit ''/'' @ shown
           in if t = lit ''/.'' then lit ''/'' else t))"

definition io_to_status :: "io_error \<Rightarrow> status_code" where
  "io_to_status e =
     (case io_error_kind e of
        NotFound \<Rightarrow> ScNoSuchFile
      | PermissionDenied \<Rightarrow> ScPermissionDenied
      | _ \<Rightarrow> ScFailure)"

definition io_res :: "io_error + 'a \<Rightarrow> status_code + 'a" where
  "io_res r = (case r of Inl e \<Rightarrow> Inl (io_to_status e) | Inr x \<Rightarrow> Inr x)"

section \<open>Request handlers\<close>

type_synonym ('w, 'f) sftp_result = "(status_code + reply) \<times> 'f sftp \<times> 'w"

definition sftp_realpath ::
  "('w, 'f) fs \<Rightarrow> 'f sftp \<Rightarrow> 'w \<Rightarrow> u32 \<Rightarrow> str \<Rightarrow> ('w, 'f) sftp_result" where
  "sftp_realpath fs s w rid p =
     (let q = (if p = [] then dot else p)
      in (rbind (resolve fs w s q) (\<lambda>real.
            let canonical = (case fs_canonicalize fs w real of Inr c \<Rightarrow> c | Inl _ \<Rightarrow> real)
            in Inr (RPath rid (to_client_path s canonical))), s, w))"

definition open_opts :: "('w, 'f) fs \<Rightarrow> u32 \<Rightarrow> open_options" where
  "open_opts fs pflags =
     (let opts = fs_flags_into fs pflags
      in if flags_contain pflags FLAG_WRITE \<or> flags_contain pflags FLAG_APPEND
         then opts\<lparr>oo_create := True\<rparr> else opts\<lparr>oo_read := True\<rparr>)"

definition sftp_open ::
  "('w, 'f) fs \<Rightarrow> 'f sftp \<Rightarrow> 'w \<Rightarrow> u32 \<Rightarrow> str \<Rightarrow> u32 \<Rightarrow> ('w, 'f) sftp_result" where
  "sftp_open fs s w rid filename pflags =
     (case resolve fs w s filename of
        Inl e \<Rightarrow> (Inl e, s, w)
      | Inr p \<Rightarrow>
          (case fs_open fs (open_opts fs pflags) p w of
             (Inl e, w') \<Rightarrow> (Inl (io_to_status e), s, w')
           | (Inr file, w') \<Rightarrow>
               (case alloc_handle s (HFile file) of (h, s') \<Rightarrow> (Inr (RHandle rid h), s', w'))))"

definition sftp_read ::
  "('w, 'f) fs \<Rightarrow> 'f sftp \<Rightarrow> 'w \<Rightarrow> u32 \<Rightarrow> str \<Rightarrow> u64 \<Rightarrow> u32 \<Rightarrow> ('w, 'f) sftp_result" where
  "sftp_read fs s w rid handle offset len =
     (case sf_handles s handle of
        Some (HFile file) \<Rightarrow>
          (case fs_seek fs file offset w of
             (Inl e, w1) \<Rightarrow> (Inl (io_to_status e), s, w1)
           | (Inr _, w1) \<Rightarrow>
               (case fs_read fs file (unat len) w1 of
                  (Inl e, w2) \<Rightarrow> (Inl (io_to_status e), s, w2)
                | (Inr buf, w2) \<Rightarrow>
                    (if buf = [] then (Inl ScEof, s, w2) else (Inr (RData rid buf), s, w2))))
      | _ \<Rightarrow> (Inl ScFailure, s, w))"

definition sftp_write ::
  "('w, 'f) fs \<Rightarrow> 'f sftp \<Rightarrow> 'w \<Rightarrow> u32 \<Rightarrow> str \<Rightarrow> u64 \<Rightarrow> u8 list \<Rightarrow> ('w, 'f) sftp_result" where
  "sftp_write fs s w rid handle offset data =
     (case sf_handles s handle of
        Some (HFile file) \<Rightarrow>
          (case fs_seek fs file offset w of
             (Inl e, w1) \<Rightarrow> (Inl (io_to_status e), s, w1)
           | (Inr _, w1) \<Rightarrow>
               (case fs_write_all fs file data w1 of
                  (Inl e, w2) \<Rightarrow> (Inl (io_to_status e), s, w2)
                | (Inr _, w2) \<Rightarrow> (Inr (RStatus rid), s, w2)))
      | _ \<Rightarrow> (Inl ScFailure, s, w))"

definition sftp_close :: "'f sftp \<Rightarrow> 'w \<Rightarrow> u32 \<Rightarrow> str \<Rightarrow> ('w, 'f) sftp_result" where
  "sftp_close s w rid handle =
     (Inr (RStatus rid), s\<lparr>sf_handles := (sf_handles s)(handle := None)\<rparr>, w)"

definition dirent_entry ::
  "('w, 'f) fs \<Rightarrow> io_error + str \<times> (io_error + file_attributes) \<Rightarrow> status_code + dir_entry" where
  "dirent_entry fs d =
     rbind (io_res d) (\<lambda>(name, meta).
       Inr (name, case meta of Inr a \<Rightarrow> a | Inl _ \<Rightarrow> fs_default_attributes fs))"

definition sftp_opendir ::
  "('w, 'f) fs \<Rightarrow> 'f sftp \<Rightarrow> 'w \<Rightarrow> u32 \<Rightarrow> str \<Rightarrow> ('w, 'f) sftp_result" where
  "sftp_opendir fs s w rid p =
     (case rbind (resolve fs w s p) (\<lambda>real.
             rbind (io_res (fs_read_dir fs real w)) (\<lambda>ds. rmap (dirent_entry fs) ds)) of
        Inl e \<Rightarrow> (Inl e, s, w)
      | Inr entries \<Rightarrow>
          (case alloc_handle s (HDir entries 0) of (h, s') \<Rightarrow> (Inr (RHandle rid h), s', w)))"

definition sftp_readdir :: "'f sftp \<Rightarrow> 'w \<Rightarrow> u32 \<Rightarrow> str \<Rightarrow> ('w, 'f) sftp_result" where
  "sftp_readdir s w rid handle =
     (case sf_handles s handle of
        Some (HDir entries offset) \<Rightarrow>
          (if offset \<ge> length entries then (Inl ScEof, s, w)
           else
             let end = min (offset + READDIR_BATCH) (length entries);
                 batch = take (end - offset) (drop offset entries)
             in (Inr (RName rid batch),
                 s\<lparr>sf_handles := (sf_handles s)(handle \<mapsto> HDir entries end)\<rparr>, w))
      | _ \<Rightarrow> (Inl ScFailure, s, w))"

definition sftp_stat ::
  "('w, 'f) fs \<Rightarrow> 'f sftp \<Rightarrow> 'w \<Rightarrow> u32 \<Rightarrow> str \<Rightarrow> ('w, 'f) sftp_result" where
  "sftp_stat fs s w rid p =
     (rbind (resolve fs w s p) (\<lambda>real.
        rbind (io_res (fs_metadata fs real w)) (\<lambda>a. Inr (RAttrs rid a))), s, w)"

definition sftp_lstat ::
  "('w, 'f) fs \<Rightarrow> 'f sftp \<Rightarrow> 'w \<Rightarrow> u32 \<Rightarrow> str \<Rightarrow> ('w, 'f) sftp_result" where
  "sftp_lstat fs s w rid p =
     (rbind (resolve fs w s p) (\<lambda>real.
        rbind (io_res (fs_symlink_metadata fs real w)) (\<lambda>a. Inr (RAttrs rid a))), s, w)"

definition sftp_fstat ::
  "('w, 'f) fs \<Rightarrow> 'f sftp \<Rightarrow> 'w \<Rightarrow> u32 \<Rightarrow> str \<Rightarrow> ('w, 'f) sftp_result" where
  "sftp_fstat fs s w rid handle =
     (case sf_handles s handle of
        Some (HFile file) \<Rightarrow>
          (rbind (io_res (fs_file_metadata fs file w)) (\<lambda>a. Inr (RAttrs rid a)), s, w)
      | _ \<Rightarrow> (Inl ScFailure, s, w))"

text \<open>Best effort: the size through a fresh write handle, then the mode bits.\<close>

definition write_only :: open_options where
  "write_only = \<lparr>oo_read = False, oo_write = True, oo_append = False, oo_truncate = False,
     oo_create = False, oo_create_new = False\<rparr>"

definition apply_setstat :: "('w, 'f) fs \<Rightarrow> path \<Rightarrow> file_attributes \<Rightarrow> 'w \<Rightarrow> 'w" where
  "apply_setstat fs p attrs w =
     (let w1 = (case fa_size attrs of
                  None \<Rightarrow> w
                | Some sz \<Rightarrow>
                    (case fs_open fs write_only p w of
                       (Inl _, w') \<Rightarrow> w'
                     | (Inr file, w') \<Rightarrow> snd (fs_set_len fs file sz w')))
      in case fa_permissions attrs of
           None \<Rightarrow> w1
         | Some mode \<Rightarrow> snd (fs_set_permissions fs p (mode AND 0xFFF) w1))"

definition sftp_setstat ::
  "('w, 'f) fs \<Rightarrow> 'f sftp \<Rightarrow> 'w \<Rightarrow> u32 \<Rightarrow> str \<Rightarrow> file_attributes \<Rightarrow> ('w, 'f) sftp_result" where
  "sftp_setstat fs s w rid p attrs =
     (case resolve fs w s p of
        Inl e \<Rightarrow> (Inl e, s, w)
      | Inr real \<Rightarrow> (Inr (RStatus rid), s, apply_setstat fs real attrs w))"

definition sftp_fsetstat ::
  "('w, 'f) fs \<Rightarrow> 'f sftp \<Rightarrow> 'w \<Rightarrow> u32 \<Rightarrow> str \<Rightarrow> file_attributes \<Rightarrow> ('w, 'f) sftp_result" where
  "sftp_fsetstat fs s w rid handle attrs =
     (Inr (RStatus rid), s,
      case (sf_handles s handle, fa_size attrs) of
        (Some (HFile file), Some sz) \<Rightarrow> snd (fs_set_len fs file sz w)
      | _ \<Rightarrow> w)"

text \<open>The handlers that resolve one path, make one call and answer with a status.\<close>

definition path_op ::
  "('w, 'f) fs \<Rightarrow> (path \<Rightarrow> 'w \<Rightarrow> (io_error + unit) \<times> 'w) \<Rightarrow> 'f sftp \<Rightarrow> 'w \<Rightarrow> u32 \<Rightarrow> str \<Rightarrow>
     ('w, 'f) sftp_result" where
  "path_op fs call s w rid p =
     (case resolve fs w s p of
        Inl e \<Rightarrow> (Inl e, s, w)
      | Inr real \<Rightarrow>
          (case call real w of
             (r, w') \<Rightarrow> (rbind (io_res r) (\<lambda>_. Inr (RStatus rid)), s, w')))"

definition sftp_mkdir ::
  "('w, 'f) fs \<Rightarrow> 'f sftp \<Rightarrow> 'w \<Rightarrow> u32 \<Rightarrow> str \<Rightarrow> ('w, 'f) sftp_result" where
  "sftp_mkdir fs s w rid p = path_op fs (fs_create_dir fs) s w rid p"

definition sftp_rmdir ::
  "('w, 'f) fs \<Rightarrow> 'f sftp \<Rightarrow> 'w \<Rightarrow> u32 \<Rightarrow> str \<Rightarrow> ('w, 'f) sftp_result" where
  "sftp_rmdir fs s w rid p = path_op fs (fs_remove_dir fs) s w rid p"

definition sftp_remove ::
  "('w, 'f) fs \<Rightarrow> 'f sftp \<Rightarrow> 'w \<Rightarrow> u32 \<Rightarrow> str \<Rightarrow> ('w, 'f) sftp_result" where
  "sftp_remove fs s w rid p = path_op fs (fs_remove_file fs) s w rid p"

definition sftp_rename ::
  "('w, 'f) fs \<Rightarrow> 'f sftp \<Rightarrow> 'w \<Rightarrow> u32 \<Rightarrow> str \<Rightarrow> str \<Rightarrow> ('w, 'f) sftp_result" where
  "sftp_rename fs s w rid oldpath newpath =
     (case resolve fs w s oldpath of
        Inl e \<Rightarrow> (Inl e, s, w)
      | Inr old \<Rightarrow>
          (case resolve fs w s newpath of
             Inl e \<Rightarrow> (Inl e, s, w)
           | Inr new \<Rightarrow>
               (case fs_rename fs old new w of
                  (r, w') \<Rightarrow> (rbind (io_res r) (\<lambda>_. Inr (RStatus rid)), s, w'))))"

definition sftp_readlink ::
  "('w, 'f) fs \<Rightarrow> 'f sftp \<Rightarrow> 'w \<Rightarrow> u32 \<Rightarrow> str \<Rightarrow> ('w, 'f) sftp_result" where
  "sftp_readlink fs s w rid p =
     (rbind (resolve fs w s p) (\<lambda>real.
        rbind (io_res (fs_read_link fs real w)) (\<lambda>target.
          Inr (RPath rid (to_client_path s target)))), s, w)"

section \<open>Dispatch\<close>

datatype sftp_request =
    QInit
  | QRealpath str
  | QOpen str u32
  | QRead str u64 u32
  | QWrite str u64 "u8 list"
  | QClose str
  | QOpendir str
  | QReaddir str
  | QStat str
  | QLstat str
  | QFstat str
  | QSetstat str file_attributes
  | QFsetstat str file_attributes
  | QMkdir str
  | QRmdir str
  | QRemove str
  | QRename str str
  | QReadlink str
  | QOther

text \<open>The requests with no handler of their own get \<open>unimplemented\<close>.\<close>

fun sftp_handle ::
  "('w, 'f) fs \<Rightarrow> 'f sftp \<Rightarrow> 'w \<Rightarrow> u32 \<Rightarrow> sftp_request \<Rightarrow> ('w, 'f) sftp_result" where
  "sftp_handle fs s w rid QInit = (Inr RVersion, s, w)"
| "sftp_handle fs s w rid (QRealpath p) = sftp_realpath fs s w rid p"
| "sftp_handle fs s w rid (QOpen p flags) = sftp_open fs s w rid p flags"
| "sftp_handle fs s w rid (QRead h off len) = sftp_read fs s w rid h off len"
| "sftp_handle fs s w rid (QWrite h off data) = sftp_write fs s w rid h off data"
| "sftp_handle fs s w rid (QClose h) = sftp_close s w rid h"
| "sftp_handle fs s w rid (QOpendir p) = sftp_opendir fs s w rid p"
| "sftp_handle fs s w rid (QReaddir h) = sftp_readdir s w rid h"
| "sftp_handle fs s w rid (QStat p) = sftp_stat fs s w rid p"
| "sftp_handle fs s w rid (QLstat p) = sftp_lstat fs s w rid p"
| "sftp_handle fs s w rid (QFstat h) = sftp_fstat fs s w rid h"
| "sftp_handle fs s w rid (QSetstat p a) = sftp_setstat fs s w rid p a"
| "sftp_handle fs s w rid (QFsetstat h a) = sftp_fsetstat fs s w rid h a"
| "sftp_handle fs s w rid (QMkdir p) = sftp_mkdir fs s w rid p"
| "sftp_handle fs s w rid (QRmdir p) = sftp_rmdir fs s w rid p"
| "sftp_handle fs s w rid (QRemove p) = sftp_remove fs s w rid p"
| "sftp_handle fs s w rid (QRename a b) = sftp_rename fs s w rid a b"
| "sftp_handle fs s w rid (QReadlink p) = sftp_readlink fs s w rid p"
| "sftp_handle fs s w rid QOther = (Inl ScOpUnsupported, s, w)"

lemma io_res_Inr [simp]: "io_res r = Inr x \<longleftrightarrow> r = Inr x"
  by (simp add: io_res_def split: sum.split)

section \<open>Lexical normalisation\<close>

text \<open>What the loop does to the components.\<close>

fun norm_step :: "component list \<Rightarrow> component \<Rightarrow> component list" where
  "norm_step acc ParentDir = pop_comps acc"
| "norm_step acc CurDir = acc"
| "norm_step acc RootDir = [RootDir]"
| "norm_step acc (Normal w) = acc @ [Normal w]"

lemma canonical_snoc: "canonical cs \<Longrightarrow> good_name w \<Longrightarrow> canonical (cs @ [Normal w])"
  by (auto simp: canonical_def split: list.splits component.splits)

lemma canonical_norm_step:
  "canonical acc \<Longrightarrow> plain c \<or> c \<in> {RootDir, CurDir, ParentDir} \<Longrightarrow> canonical (norm_step acc c)"
  by (cases c) (auto simp: canonical_pop canonical_snoc, simp add: canonical_def)

lemma canonical_norm:
  "canonical acc \<Longrightarrow> \<forall>c \<in> set cs. plain c \<or> c \<in> {RootDir, CurDir, ParentDir} \<Longrightarrow>
   canonical (foldl norm_step acc cs)"
  by (induction cs arbitrary: acc) (auto intro!: canonical_norm_step)

lemma normalize_loop_render:
  "canonical acc \<Longrightarrow> \<forall>c \<in> set cs. plain c \<or> c \<in> {RootDir, CurDir, ParentDir} \<Longrightarrow>
   normalize_loop cs (render acc) = render (foldl norm_step acc cs)"
proof (induction cs arbitrary: acc)
  case (Cons c cs)
  have nx: "canonical (norm_step acc c)"
    using Cons.prems by (auto intro!: canonical_norm_step)
  have "normalize_loop (c # cs) (render acc) = normalize_loop cs (render (norm_step acc c))"
    using Cons.prems by (cases c) (auto simp: pop_render push_root push_render)
  then show ?case using Cons.IH [OF nx] Cons.prems by simp
qed simp

lemma canonical_Nil [simp]: "canonical []" by (simp add: canonical_def)

lemma normalize_lexical_render:
  "normalize_lexical p = render (foldl norm_step [] (components p))"
  "canonical (foldl norm_step [] (components p))"
proof -
  have c: "\<forall>c \<in> set (components p). plain c \<or> c \<in> {RootDir, CurDir, ParentDir}"
    using components_plain by blast
  show "canonical (foldl norm_step [] (components p))" by (rule canonical_norm [OF canonical_Nil c])
  show "normalize_lexical p = render (foldl norm_step [] (components p))"
    using normalize_loop_render [OF canonical_Nil c] by (simp add: normalize_lexical_def render_def)
qed

lemma components_normalize: "components (normalize_lexical p) = foldl norm_step [] (components p)"
  by (simp add: normalize_lexical_render components_render)

lemma canonical_no_parent: "canonical cs \<Longrightarrow> ParentDir \<notin> set cs \<and> CurDir \<notin> set cs"
  by (erule canonical_cases) (auto simp: list_all_iff)

text \<open>
  Lexical normalisation leaves no \<open>.\<close> and no \<open>..\<close> component, whatever the path, and a
  second application changes nothing.
\<close>

theorem normalize_lexical_normal:
  "ParentDir \<notin> set (components (normalize_lexical p)) \<and>
   CurDir \<notin> set (components (normalize_lexical p)) \<and>
   normalize_lexical (normalize_lexical p) = normalize_lexical p"
proof -
  let ?cs = "foldl norm_step [] (components p)"
  have can: "canonical ?cs" by (rule normalize_lexical_render(2))
  have id: "foldl norm_step acc ds = acc @ ds" if "list_all plain ds" for acc ds
    using that by (induction ds arbitrary: acc) (auto simp: list_all_iff elim!: plain.elims)
  have "foldl norm_step [] ?cs = ?cs"
    using can by (cases rule: canonical_cases) (simp_all add: id)
  then have "normalize_lexical (normalize_lexical p) = normalize_lexical p"
    unfolding normalize_lexical_render(1) [of "normalize_lexical p"] components_normalize
    by (simp add: normalize_lexical_render(1) [of p])
  then show ?thesis using canonical_no_parent [OF can] by (simp add: components_normalize)
qed

section \<open>The jail\<close>

text \<open>A path inside a directory: below it component by component, with no way up.\<close>

definition inside :: "path \<Rightarrow> path \<Rightarrow> bool" where
  "inside root p \<longleftrightarrow> path_starts_with p root \<and> ParentDir \<notin> set (components p)"

text \<open>\<open>std::fs::canonicalize\<close> returns paths whose intermediate components are resolved.\<close>

definition canonical_results :: "('w, 'f) fs \<Rightarrow> bool" where
  "canonical_results fs \<longleftrightarrow>
     (\<forall>w p q. fs_canonicalize fs w p = Inr q \<longrightarrow> ParentDir \<notin> set (components q))"

lemma normalize_no_parent: "ParentDir \<notin> set (components (normalize_lexical p))"
  using canonical_no_parent [OF normalize_lexical_render(2) [of p]] by (simp add: components_normalize)

lemma resolve_inside:
  assumes "sf_root s = Some root" and "canonical_results fs" and "resolve fs w s p = Inr q"
  shows "inside root q"
  using assms normalize_no_parent
  by (auto simp: resolve_def Let_def inside_def canonical_results_def split: if_splits sum.splits)

text \<open>
  C5. A jailed path stays in the jail: whatever the client sends, with any number of \<open>..\<close>
  components, \<open>resolve\<close> either refuses with \<open>PermissionDenied\<close> or yields a path that lies below
  the root component by component and has no \<open>..\<close> component.
\<close>

theorem resolve_confined:
  assumes "sf_root s = Some root" and "canonical_results fs"
  shows "resolve fs w s p = Inl ScPermissionDenied \<or> (\<exists>q. resolve fs w s p = Inr q \<and> inside root q)"
proof (cases "resolve fs w s p")
  case (Inl e)
  then show ?thesis
    using assms(1) by (auto simp: resolve_def Let_def split: if_splits sum.splits)
next
  case (Inr q)
  then show ?thesis using resolve_inside [OF assms] by blast
qed

text \<open>Two operating systems that a session confined to \<open>root\<close> cannot tell apart.\<close>

definition same_inside :: "path \<Rightarrow> ('w, 'f) fs \<Rightarrow> ('w, 'f) fs \<Rightarrow> bool" where
  "same_inside root a b \<longleftrightarrow>
     (\<forall>p. inside root p \<longrightarrow>
        (\<forall>w. fs_canonicalize a w p = fs_canonicalize b w p) \<and>
        (\<forall>opts. fs_open a opts p = fs_open b opts p) \<and>
        fs_read_dir a p = fs_read_dir b p \<and> fs_metadata a p = fs_metadata b p \<and>
        fs_symlink_metadata a p = fs_symlink_metadata b p \<and>
        fs_set_permissions a p = fs_set_permissions b p \<and>
        fs_create_dir a p = fs_create_dir b p \<and> fs_remove_dir a p = fs_remove_dir b p \<and>
        fs_remove_file a p = fs_remove_file b p \<and> fs_read_link a p = fs_read_link b p \<and>
        (\<forall>q. inside root q \<longrightarrow> fs_rename a p q = fs_rename b p q)) \<and>
     fs_flags_into a = fs_flags_into b \<and> fs_seek a = fs_seek b \<and> fs_read a = fs_read b \<and>
     fs_write_all a = fs_write_all b \<and> fs_file_metadata a = fs_file_metadata b \<and>
     fs_set_len a = fs_set_len b \<and> fs_default_attributes a = fs_default_attributes b"

lemma same_insideD:
  assumes "same_inside root a b" "inside root p"
  shows "fs_canonicalize a w p = fs_canonicalize b w p" "fs_open a opts p = fs_open b opts p"
    "fs_read_dir a p = fs_read_dir b p" "fs_metadata a p = fs_metadata b p"
    "fs_symlink_metadata a p = fs_symlink_metadata b p"
    "fs_set_permissions a p = fs_set_permissions b p" "fs_create_dir a p = fs_create_dir b p"
    "fs_remove_dir a p = fs_remove_dir b p" "fs_remove_file a p = fs_remove_file b p"
    "fs_read_link a p = fs_read_link b p" "inside root q \<Longrightarrow> fs_rename a p q = fs_rename b p q"
  using assms by (simp_all add: same_inside_def)

lemma same_insideE:
  assumes "same_inside root a b"
  shows "fs_flags_into a = fs_flags_into b" "fs_seek a = fs_seek b" "fs_read a = fs_read b"
    "fs_write_all a = fs_write_all b" "fs_file_metadata a = fs_file_metadata b"
    "fs_set_len a = fs_set_len b" "fs_default_attributes a = fs_default_attributes b"
  using assms by (simp_all add: same_inside_def)

lemma resolve_same:
  assumes "same_inside root a b" and "sf_root s = Some root"
  shows "resolve a w s p = resolve b w s p"
proof -
  let ?n = "normalize_lexical (path_join root (trim_start_slashes p))"
  show ?thesis
  proof (cases "path_starts_with ?n root")
    case True
    then have "inside root ?n" by (simp add: inside_def normalize_no_parent)
    then show ?thesis using assms same_insideD(1) [OF assms(1)] by (simp add: resolve_def Let_def)
  qed (simp add: resolve_def assms(2) Let_def)
qed

lemma dirent_entry_same: "same_inside root a b \<Longrightarrow> dirent_entry a = dirent_entry b"
  unfolding dirent_entry_def by (drule same_insideE(7)) (simp only:)

lemma apply_setstat_same:
  "same_inside root a b \<Longrightarrow> inside root p \<Longrightarrow> apply_setstat a p attrs w = apply_setstat b p attrs w"
  by (simp add: apply_setstat_def same_insideD [of root a b p] same_insideE [of root a b]
      split: option.split sum.split prod.split)

lemmas sftp_defs =
  sftp_realpath_def sftp_open_def sftp_read_def sftp_write_def sftp_close_def sftp_opendir_def
  sftp_readdir_def sftp_stat_def sftp_lstat_def sftp_fstat_def sftp_setstat_def sftp_fsetstat_def
  sftp_mkdir_def sftp_rmdir_def sftp_remove_def sftp_rename_def sftp_readlink_def path_op_def

lemma sum_cases_same: "(\<And>x. r = Inr x \<Longrightarrow> g x = h x) \<Longrightarrow> case_sum f g r = case_sum f h r"
  by (cases r) auto

lemma rbind_same: "(\<And>x. r = Inr x \<Longrightarrow> f x = g x) \<Longrightarrow> rbind r f = rbind r g"
  by (cases r) auto

text \<open>
  C4. A jailed session asks the operating system about paths inside its root only: two systems
  whose calls agree on the paths under the root, however different they are on all others, give
  the same answer, the same session and the same effect for every request. (What a call on such
  a path does when a link stands among its parents is the system's matter; see the escape below.)
\<close>

theorem jailed_requests_local:
  assumes "sf_root s = Some root" and "canonical_results a" and "same_inside root a b"
  shows "sftp_handle a s w rid q = sftp_handle b s w rid q"
proof -
  note same = same_insideD [OF assms(3)] same_insideE [OF assms(3)]
  have res: "resolve b w' s p = resolve a w' s p" for w' p
    by (rule resolve_same [OF assms(3,1), symmetric])
  have ins: "inside root x" if "resolve a w' s p = Inr x" for w' p x
    by (rule resolve_inside [OF assms(1,2) that])
  have opts: "open_opts a fl = open_opts b fl" for fl by (simp add: open_opts_def same)
  show ?thesis
    by (cases q) (auto simp: sftp_defs res same opts ins apply_setstat_same [OF assms(3)]
        dirent_entry_same [OF assms(3)] intro!: sum_cases_same rbind_same arg_cong [where f = "case_sum _ _"]
        split: prod.split option.split handle_entry.split)
qed

text \<open>A small operating system for examples: the root \<open>/r\<close> holds a link \<open>/r/link\<close> to \<open>/out\<close>; its
  state is the list of the directories created so far, by their real place.\<close>

definition demo_real :: "path \<Rightarrow> path" where
  "demo_real p =
     (case strip_prefix (lit ''/r/link'') p of Some rest \<Rightarrow> lit ''/out'' @ rest | None \<Rightarrow> p)"

definition demo_fs :: "(path list, nat) fs" where
  "demo_fs =
     \<lparr>fs_canonicalize = (\<lambda>w p. if p \<in> set (lit ''/r'' # lit ''/r/link'' # w) then Inr (demo_real p)
                                else Inl (IoError NotFound [])),
      fs_flags_into = (\<lambda>_. write_only),
      fs_open = (\<lambda>_ p w. (Inr 0, w)),
      fs_seek = (\<lambda>_ _ w. (Inr (), w)), fs_read = (\<lambda>_ _ w. (Inr [], w)),
      fs_write_all = (\<lambda>_ _ w. (Inr (), w)),
      fs_file_metadata = (\<lambda>_ _. Inl (IoError OtherKind [])),
      fs_set_len = (\<lambda>_ _ w. (Inr (), w)),
      fs_read_dir = (\<lambda>_ _. Inr []),
      fs_default_attributes = \<lparr>fa_size = None, fa_permissions = None\<rparr>,
      fs_metadata = (\<lambda>_ _. Inl (IoError NotFound [])),
      fs_symlink_metadata = (\<lambda>_ _. Inl (IoError NotFound [])),
      fs_set_permissions = (\<lambda>_ _ w. (Inr (), w)),
      fs_create_dir = (\<lambda>p w. (Inr (), demo_real p # w)),
      fs_remove_dir = (\<lambda>_ w. (Inr (), w)), fs_remove_file = (\<lambda>_ w. (Inr (), w)),
      fs_rename = (\<lambda>_ _ w. (Inr (), w)), fs_read_link = (\<lambda>_ _. Inl (IoError OtherKind []))\<rparr>"

definition demo_session :: "nat sftp" where
  "demo_session = \<lparr>sf_root = Some (lit ''/r''), sf_start_dir = lit ''/'', sf_handles = Map.empty, sf_next_handle = 0\<rparr>"

text \<open>A variant that only ever answers with its two canonical paths, and one that differs from it
  outside the root.\<close>

definition demo_fs_in :: "(path list, nat) fs" where
  "demo_fs_in = demo_fs\<lparr>fs_canonicalize := (\<lambda>w p. if p = lit ''/r/link'' then Inr (lit ''/out'')
     else if p = lit ''/r'' then Inr (lit ''/r'') else Inl (IoError NotFound []))\<rparr>"

definition demo_fs_out :: "(path list, nat) fs" where
  "demo_fs_out = demo_fs_in\<lparr>fs_metadata :=
     (\<lambda>p w. if inside (lit ''/r'') p then Inl (IoError NotFound []) else Inl (IoError OtherKind []))\<rparr>"

lemma demo_fs_in_canonical: "canonical_results demo_fs_in"
  by (simp add: canonical_results_def demo_fs_in_def text_eval Let_def)

theorem resolve_confined_witness:
  "resolve demo_fs_in [] demo_session (lit ''../etc'') = Inl ScPermissionDenied \<or>
   (\<exists>q. resolve demo_fs_in [] demo_session (lit ''../etc'') = Inr q \<and> inside (lit ''/r'') q)"
  by (rule resolve_confined) (simp_all add: demo_session_def demo_fs_in_canonical)

theorem jailed_requests_local_witness:
  "sftp_handle demo_fs_in demo_session [] 1 (QStat (lit ''a/../b'')) =
   sftp_handle demo_fs_out demo_session [] 1 (QStat (lit ''a/../b''))"
proof -
  have "same_inside (lit ''/r'') demo_fs_in demo_fs_out"
    by (simp add: same_inside_def demo_fs_out_def demo_fs_in_def demo_fs_def fun_eq_iff)
  then show ?thesis
    by (rule jailed_requests_local [OF _ demo_fs_in_canonical, rotated]) (simp add: demo_session_def)
qed

lemmas demo_defs = demo_session_def demo_fs_def demo_real_def resolve_def normalize_lexical_def
  trim_start_slashes_def Let_def

lemma demo_normalize: "normalize_lexical (lit ''/r/link/new'') = lit ''/r/link/new''"
  by (simp add: normalize_lexical_def text_eval Let_def)

text \<open>
  C26. The jail can be left through a link: \<open>resolve\<close> only checks the real location of a path that
  exists. On any file system where the directory above a requested path really lies outside of the
  root, every request for that directory itself is refused, but the path, as long as it does not
  exist, is resolved to its name under the root, and \<open>mkdir\<close> creates it there, that is outside.
\<close>

theorem jail_escape_through_link:
  assumes "sf_root s = Some root" and "q = normalize_lexical (path_join root (trim_start_slashes p))"
    and "path_starts_with q root" and "fs_canonicalize fs w q = Inl e"
    and "path_parent q = Some d" and "fs_canonicalize fs w d = Inr real" and "\<not> path_starts_with real root"
    and "fs_create_dir fs q w = (Inr (), w')"
  shows "(\<forall>p'. normalize_lexical (path_join root (trim_start_slashes p')) = d \<longrightarrow>
        resolve fs w s p' = Inl ScPermissionDenied) \<and>
     resolve fs w s p = Inr q \<and> sftp_mkdir fs s w rid p = (Inr (RStatus rid), s, w')"
  using assms by (auto simp: resolve_def sftp_mkdir_def path_op_def io_res_def Let_def)

theorem jail_escape_through_link_witness:
  "sftp_mkdir demo_fs demo_session [] 1 (lit ''link/new'') = (Inr (RStatus 1), demo_session, [lit ''/out/new'']) \<and>
   \<not> inside (lit ''/r'') (lit ''/out/new'')"
proof -
  have root: "sf_root demo_session = Some (lit ''/r'')" by (simp add: demo_session_def)
  have q: "lit ''/r/link/new'' = normalize_lexical (path_join (lit ''/r'') (trim_start_slashes (lit ''link/new'')))"
    by (simp add: normalize_lexical_def trim_start_slashes_def text_eval Let_def)
  have s: "path_starts_with (lit ''/r/link/new'') (lit ''/r'')" "\<not> path_starts_with (lit ''/out'') (lit ''/r'')"
    by (simp_all add: text_eval)
  have c: "fs_canonicalize demo_fs [] (lit ''/r/link/new'') = Inl (IoError NotFound [])"
      "fs_canonicalize demo_fs [] (lit ''/r/link'') = Inr (lit ''/out'')"
    by (simp_all add: demo_fs_def demo_real_def text_eval)
  have d: "path_parent (lit ''/r/link/new'') = Some (lit ''/r/link'')" by (simp add: text_eval Let_def)
  have m: "fs_create_dir demo_fs (lit ''/r/link/new'') [] = (Inr (), [lit ''/out/new''])"
    by (simp add: demo_fs_def demo_real_def text_eval)
  have "\<not> inside (lit ''/r'') (lit ''/out/new'')" by (simp add: inside_def text_eval)
  then show ?thesis using jail_escape_through_link [OF root q s(1) c(1) d c(2) s(2) m] by blast
qed

section \<open>Client paths\<close>

lemma norm_plain: "list_all plain ds \<Longrightarrow> foldl norm_step acc ds = acc @ ds"
  by (induction ds arbitrary: acc) (auto elim!: plain.elims)

lemma body_comps_texts:
  "list_all plain ds \<Longrightarrow> body_comps (split_char sep_ch (join_with [sep_ch] (map comp_text ds))) = ds"
  by (simp add: split_join_texts plain_texts)

lemma jail_joined:
  assumes "list_all plain r" and "list_all plain ds"
  shows "normalize_lexical (path_join (render (RootDir # r)) (join_with [sep_ch] (map comp_text ds))) =
    render (RootDir # r @ ds)"
proof -
  have can: "canonical (RootDir # r)" using assms by (simp add: canonical_def)
  have root: "has_root (render (RootDir # r))" by (simp add: render_simps)
  have "components (path_join (render (RootDir # r)) (join_with [sep_ch] (map comp_text ds))) =
      (RootDir # r) @ ds"
    using components_push_relative [OF root join_texts_no_root [OF assms(2)]]
    by (simp add: components_render [OF can] body_comps_texts [OF assms(2)])
  then show ?thesis
    using assms by (simp add: normalize_lexical_render(1) norm_plain)
qed

lemma to_client_path_jailed:
  assumes "sf_root s = Some (render (RootDir # r))" and "list_all plain r" and "list_all plain ds"
  shows "to_client_path s (render (RootDir # r @ ds)) = sep_ch # join_with [sep_ch] (map comp_text ds)"
proof -
  have "join_with [sep_ch] (map comp_text ds) \<noteq> dot"
  proof
    assume "join_with [sep_ch] (map comp_text ds) = dot"
    then have "body_comps (split_char sep_ch dot) = ds" using body_comps_texts [OF assms(3)] by simp
    then have "ds = []" by (simp add: body_comps_def split_char_def skip_seg_def)
    with \<open>join_with [sep_ch] (map comp_text ds) = dot\<close> show False by simp
  qed
  then show ?thesis
    using strip_prefix_render [OF assms(2,3)] assms(1)
    by (simp add: to_client_path_def Let_def lit_def)
qed

text \<open>
  The paths a jailed client is shown lead back: for every path below the root, resolving the
  name that \<open>to_client_path\<close> gives it yields the path itself, as long as it is its own canonical
  form or does not exist.
\<close>

theorem client_path_roundtrip:
  assumes "sf_root s = Some (render (RootDir # r))" and "list_all plain r" and "list_all plain ds"
    and "\<forall>q. fs_canonicalize fs w (render (RootDir # r @ ds)) = Inr q \<longrightarrow> q = render (RootDir # r @ ds)"
  shows "resolve fs w s (to_client_path s (render (RootDir # r @ ds))) = Inr (render (RootDir # r @ ds))"
proof -
  have can: "canonical (RootDir # r)" "canonical (RootDir # r @ ds)"
    using assms(2,3) by (simp_all add: canonical_def)
  have rel: "trim_start_slashes (to_client_path s (render (RootDir # r @ ds))) =
      join_with [sep_ch] (map comp_text ds)"
    using join_texts_no_root [OF assms(3)]
    by (cases "join_with [sep_ch] (map comp_text ds)")
       (auto simp: to_client_path_jailed [OF assms(1,2,3)] trim_start_slashes_def)
  have "path_starts_with (render (RootDir # r @ ds)) (render (RootDir # r))"
    using path_starts_with_render [of "RootDir # r" ds] can by simp
  then show ?thesis
    using assms(1,4) by (auto simp: resolve_def rel jail_joined [OF assms(2,3)] Let_def split: sum.split)
qed

theorem client_path_roundtrip_witness:
  "resolve demo_fs_in [] demo_session (to_client_path demo_session (lit ''/r/a'')) = Inr (lit ''/r/a'')"
  using client_path_roundtrip [of demo_session "[Normal (lit ''r'')]" "[Normal (lit ''a'')]" demo_fs_in "[]"]
  by (simp add: demo_session_def demo_fs_in_def render_def good_name_def text_eval)

section \<open>Handles\<close>

text \<open>What the handlers rely on: allocation gives a fresh key, stores the entry under it and leaves
  the others alone.\<close>

locale handle_table =
  fixes look :: "'s \<Rightarrow> str \<Rightarrow> 'e option"
    and alloc :: "'s \<Rightarrow> 'e \<Rightarrow> str \<times> 's"
    and ok :: "'s \<Rightarrow> bool"
  assumes alloc_fresh: "ok s \<Longrightarrow> look s (fst (alloc s e)) = None"
    and alloc_stored: "look (snd (alloc s e)) (fst (alloc s e)) = Some e"
    and alloc_others: "h \<noteq> fst (alloc s e) \<Longrightarrow> look (snd (alloc s e)) h = look s h"
begin

lemma alloc_keeps: "ok s \<Longrightarrow> look s h = Some x \<Longrightarrow> look (snd (alloc s e)) h = Some x"
  using alloc_fresh [of s e] alloc_others [of h s e] by (cases "h = fst (alloc s e)") auto

lemma alloc_distinct:
  "ok (snd (alloc s e)) \<Longrightarrow> fst (alloc (snd (alloc s e)) e') \<noteq> fst (alloc s e)"
  using alloc_fresh [of "snd (alloc s e)" e'] alloc_stored [of s e] by auto

end

definition sftp_inv :: "'f sftp \<Rightarrow> bool" where
  "sftp_inv s \<longleftrightarrow> (\<forall>h \<in> dom (sf_handles s). \<exists>n < unat (sf_next_handle s). h = lit ''h'' @ show_nat n)"

lemma handle_key_fresh: "sftp_inv s \<Longrightarrow> sf_handles s (handle_key (sf_next_handle s)) = None"
  by (fastforce simp: sftp_inv_def handle_key_def show_nat_inj dom_def)

interpretation handles: handle_table sf_handles alloc_handle sftp_inv
  by unfold_locales (auto simp: alloc_handle_def Let_def handle_key_fresh)

text \<open>Every handler either hands out the next key or leaves the counter alone.\<close>

definition given_handle :: "status_code + reply \<Rightarrow> str list" where
  "given_handle r = (case r of Inr (RHandle _ h) \<Rightarrow> [h] | _ \<Rightarrow> [])"

lemma given_handle_simps [simp]:
  "given_handle (Inl e) = []" "given_handle (Inr (RStatus i)) = []" "given_handle (Inr (RHandle i h)) = [h]"
  "given_handle (Inr (RData i d)) = []" "given_handle (Inr (RName i es)) = []"
  "given_handle (Inr (RPath i p)) = []" "given_handle (Inr (RAttrs i a)) = []" "given_handle (Inr RVersion) = []"
  by (simp_all add: given_handle_def)

lemma given_handle_rbind: "(\<And>x. given_handle (f x) = []) \<Longrightarrow> given_handle (rbind r f) = []"
  by (cases r) auto

definition hands_out :: "'f sftp \<Rightarrow> ('w, 'f) sftp_result \<Rightarrow> bool" where
  "hands_out s res \<longleftrightarrow>
     (case res of (r, s', w') \<Rightarrow>
        (given_handle r = [] \<and> sf_next_handle s' = sf_next_handle s \<and>
           dom (sf_handles s') \<subseteq> dom (sf_handles s)) \<or>
        (given_handle r = [handle_key (sf_next_handle s)] \<and> sf_next_handle s' = sf_next_handle s + 1 \<and>
           dom (sf_handles s') = insert (handle_key (sf_next_handle s)) (dom (sf_handles s))))"

lemma sftp_handle_hands_out: "hands_out s (sftp_handle fs s w rid q)"
  by (cases q)
     (auto simp: hands_out_def sftp_defs alloc_handle_def Let_def given_handle_rbind
       split: sum.split prod.split option.split handle_entry.split)

definition sftp_step ::
  "('w, 'f) fs \<Rightarrow> 'f sftp \<times> 'w \<Rightarrow> u32 \<times> sftp_request \<Rightarrow> 'f sftp \<times> 'w" where
  "sftp_step fs sw rq = snd (sftp_handle fs (fst sw) (snd sw) (fst rq) (snd rq))"

definition sftp_adm :: "'f sftp \<times> 'w \<Rightarrow> u32 \<times> sftp_request \<Rightarrow> bool" where
  "sftp_adm sw rq \<longleftrightarrow> unat (sf_next_handle (fst sw)) < 2 ^ 64 - 1"

lemma unat_next: "unat n < 2 ^ 64 - 1 \<Longrightarrow> unat (n + 1 :: u64) = unat n + 1"
  by (simp add: unat_word_ariths)

lemma sftp_step_inv:
  assumes "sftp_inv (fst sw)" and "sftp_adm sw rq"
  shows "sftp_inv (fst (sftp_step fs sw rq))"
    and "unat (sf_next_handle (fst sw)) \<le> unat (sf_next_handle (fst (sftp_step fs sw rq)))"
proof -
  obtain r s' w' where res: "sftp_handle fs (fst sw) (snd sw) (fst rq) (snd rq) = (r, s', w')"
    by (metis prod.exhaust)
  have out: "hands_out (fst sw) (r, s', w')" using sftp_handle_hands_out res by metis
  have nx: "unat (sf_next_handle (fst sw) + 1) = unat (sf_next_handle (fst sw)) + 1"
    using assms(2) by (intro unat_next) (simp add: sftp_adm_def)
  from out consider (none) "sf_next_handle s' = sf_next_handle (fst sw)" "dom (sf_handles s') \<subseteq> dom (sf_handles (fst sw))"
    | (some) "sf_next_handle s' = sf_next_handle (fst sw) + 1"
        "dom (sf_handles s') = insert (handle_key (sf_next_handle (fst sw))) (dom (sf_handles (fst sw)))"
    by (auto simp: hands_out_def)
  then have "sftp_inv s' \<and> unat (sf_next_handle (fst sw)) \<le> unat (sf_next_handle s')"
  proof cases
    case none
    then show ?thesis using assms(1) by (auto simp: sftp_inv_def)
  next
    case some
    have nx': "unat (sf_next_handle s') = unat (sf_next_handle (fst sw)) + 1" by (simp only: some(1) nx)
    have "\<exists>n < unat (sf_next_handle s'). h = lit ''h'' @ show_nat n"
      if hd: "h \<in> dom (sf_handles s')" for h
    proof (cases "h = handle_key (sf_next_handle (fst sw))")
      case True
      then show ?thesis using nx' by (intro exI [of _ "unat (sf_next_handle (fst sw))"]) (simp add: handle_key_def)
    next
      case False
      then obtain n where "n < unat (sf_next_handle (fst sw))" "h = lit ''h'' @ show_nat n"
        using bspec [OF assms(1) [unfolded sftp_inv_def], of h] hd some(2) by auto
      then show ?thesis using nx' by (intro exI [of _ n]) simp
    qed
    then show ?thesis using nx' by (simp add: sftp_inv_def)
  qed
  then show "sftp_inv (fst (sftp_step fs sw rq))"
    "unat (sf_next_handle (fst sw)) \<le> unat (sf_next_handle (fst (sftp_step fs sw rq)))"
    by (simp_all add: sftp_step_def res)
qed

interpretation sftp_system: monotone_system sftp_adm "sftp_step fs" "\<lambda>sw. sftp_inv (fst sw)"
  "\<lambda>sw. unat (sf_next_handle (fst sw))" for fs
  by unfold_locales (simp_all add: sftp_step_inv)

text \<open>The handles a client receives over a run of requests.\<close>

fun given_handles ::
  "('w, 'f) fs \<Rightarrow> 'f sftp \<Rightarrow> 'w \<Rightarrow> (u32 \<times> sftp_request) list \<Rightarrow> str list" where
  "given_handles fs s w [] = []"
| "given_handles fs s w ((rid, q) # rqs) =
     (case sftp_handle fs s w rid q of
        (r, s', w') \<Rightarrow> given_handle r @ given_handles fs s' w' rqs)"

lemma given_handles_numbers:
  assumes "unat (sf_next_handle s) + length rqs < 2 ^ 64"
  shows "\<exists>k. given_handles fs s w rqs =
    map (\<lambda>i. lit ''h'' @ show_nat i) [unat (sf_next_handle s)..<unat (sf_next_handle s) + k]"
  using assms
proof (induction rqs arbitrary: s w)
  case Nil
  show ?case by (rule exI [of _ 0]) simp
next
  case (Cons rq rqs)
  obtain rid q where rq: "rq = (rid, q)" by (cases rq)
  obtain r s' w' where res: "sftp_handle fs s w rid q = (r, s', w')" by (metis prod.exhaust)
  have out: "hands_out s (r, s', w')" using sftp_handle_hands_out res by metis
  have nx: "unat (sf_next_handle s + 1) = unat (sf_next_handle s) + 1"
    using Cons.prems by (intro unat_next) simp
  from out consider (none) "given_handle r = []" "sf_next_handle s' = sf_next_handle s"
    | (some) "given_handle r = [handle_key (sf_next_handle s)]" "sf_next_handle s' = sf_next_handle s + 1"
    by (auto simp: hands_out_def)
  then show ?case
  proof cases
    case none
    then show ?thesis using Cons.IH [of s' w'] Cons.prems by (simp add: rq res)
  next
    case some
    obtain k where "given_handles fs s' w' rqs =
        map (\<lambda>i. lit ''h'' @ show_nat i) [unat (sf_next_handle s')..<unat (sf_next_handle s') + k]"
      using Cons.IH [of s' w'] Cons.prems some(2) nx by auto
    then have "given_handles fs s w (rq # rqs) =
        map (\<lambda>i. lit ''h'' @ show_nat i) [unat (sf_next_handle s)..<unat (sf_next_handle s) + Suc k]"
      using some nx by (simp add: rq res handle_key_def upt_rec del: upt_Suc)
    then show ?thesis by blast
  qed
qed

text \<open>
  No handle is ever given out twice in a session of fewer than 2 to the power of 64
  requests, closed handles included, so a stale handle never names another file.
\<close>

theorem handles_never_reused:
  assumes "length rqs < 2 ^ 64"
  shows "distinct (given_handles fs (sftp_new fs os cwd w root) w rqs)"
proof -
  have "unat (sf_next_handle (sftp_new fs os cwd w root)) = 0" by (simp add: sftp_new_def)
  then obtain k where "given_handles fs (sftp_new fs os cwd w root) w rqs =
      map (\<lambda>i. lit ''h'' @ show_nat i) [0..<k]"
    using given_handles_numbers [of "sftp_new fs os cwd w root" rqs fs w] assms by auto
  then show ?thesis by (simp add: distinct_map inj_on_def show_nat_inj)
qed

theorem handles_never_reused_witness:
  "distinct (given_handles demo_fs (sftp_new demo_fs \<lparr>os_var = Map.empty, os_home_dir = None,
     os_is_dir = \<lambda>_. False\<rparr> None [] None) [] [(1, QOpen (lit ''/a'') 1), (2, QClose (lit ''h0'')), (3, QOpen (lit ''/a'') 1)])"
  by (rule handles_never_reused) simp

section \<open>Reading a directory\<close>

text \<open>The client's loop: ask for the next batch until the answer is a status.\<close>

fun readdir_all :: "nat \<Rightarrow> 'f sftp \<Rightarrow> 'w \<Rightarrow> u32 \<Rightarrow> str \<Rightarrow> (dir_entry list list \<times> status_code) option" where
  "readdir_all 0 s w rid h = None"
| "readdir_all (Suc n) s w rid h =
     (case sftp_readdir s w rid h of
        (Inr (RName _ batch), s', w') \<Rightarrow>
          map_option (\<lambda>(bs, e). (batch # bs, e)) (readdir_all n s' w' rid h)
      | (Inr _, s', w') \<Rightarrow> None
      | (Inl e, s', w') \<Rightarrow> Some ([], e))"

lemma readdir_all_batches:
  assumes "sf_handles s h = Some (HDir es off)" and "length es - off < fuel"
  shows "\<exists>bs. readdir_all fuel s w rid h = Some (bs, ScEof) \<and> concat bs = drop off es \<and>
    list_all (\<lambda>b. b \<noteq> [] \<and> length b \<le> READDIR_BATCH) bs"
  using assms
proof (induction fuel arbitrary: s off)
  case (Suc fuel)
  show ?case
  proof (cases "off \<ge> length es")
    case True
    then show ?thesis using Suc.prems(1) by (simp add: sftp_readdir_def)
  next
    case False
    let ?stop = "min (off + READDIR_BATCH) (length es)"
    let ?b = "take (?stop - off) (drop off es)"
    let ?s = "s\<lparr>sf_handles := (sf_handles s)(h \<mapsto> HDir es ?stop)\<rparr>"
    have adv: "off < ?stop" "length es - ?stop < fuel"
      using False Suc.prems(2) by (auto simp: READDIR_BATCH_def)
    obtain bs where bs: "readdir_all fuel ?s w rid h = Some (bs, ScEof)" "concat bs = drop ?stop es"
      "list_all (\<lambda>b. b \<noteq> [] \<and> length b \<le> READDIR_BATCH) bs"
      using Suc.IH [of ?s ?stop] adv(2) by auto
    have "readdir_all (Suc fuel) s w rid h = Some (?b # bs, ScEof)"
      using Suc.prems(1) False bs(1) by (simp add: sftp_readdir_def Let_def)
    moreover have "?b @ drop ?stop es = drop off es"
      using append_take_drop_id [of "?stop - off" "drop off es"] adv(1) by simp
    moreover have "?b \<noteq> [] \<and> length ?b \<le> READDIR_BATCH" using adv(1) False by auto
    ultimately show ?thesis using bs(2,3) by auto
  qed
qed simp

text \<open>
  Listing a directory is complete and ends: after \<open>opendir\<close> succeeded, a client that asks for
  batches receives every entry exactly once and in order, in non-empty batches of at most 100,
  and then the end-of-file status.
\<close>

theorem opendir_readdir_complete:
  assumes "sftp_opendir fs s w rid p = (Inr (RHandle rid' h), s', w')"
  shows "\<exists>real ds es. resolve fs w s p = Inr real \<and> fs_read_dir fs real w = Inr ds \<and>
    rmap (dirent_entry fs) ds = Inr es \<and>
    (\<forall>fuel w''. length es < fuel \<longrightarrow>
       (\<exists>bs. readdir_all fuel s' w'' rid h = Some (bs, ScEof) \<and> concat bs = es \<and>
          list_all (\<lambda>b. b \<noteq> [] \<and> length b \<le> READDIR_BATCH) bs))"
proof -
  obtain real ds es where r: "resolve fs w s p = Inr real" "fs_read_dir fs real w = Inr ds"
      "rmap (dirent_entry fs) ds = Inr es" and "sf_handles s' h = Some (HDir es 0)"
    using assms
    by (auto simp: sftp_opendir_def alloc_handle_def Let_def split: sum.splits)
  from readdir_all_batches [OF this(4)] r show ?thesis by fastforce
qed

theorem opendir_readdir_complete_witness:
  "\<exists>s'. sftp_opendir demo_fs demo_session [] 1 (lit ''/x'') = (Inr (RHandle 1 (lit ''h0'')), s', []) \<and>
     (\<exists>real ds es. resolve demo_fs [] demo_session (lit ''/x'') = Inr real \<and>
        fs_read_dir demo_fs real [] = Inr ds \<and> rmap (dirent_entry demo_fs) ds = Inr es)"
proof -
  have "\<exists>s'. sftp_opendir demo_fs demo_session [] 1 (lit ''/x'') = (Inr (RHandle 1 (lit ''h0'')), s', [])"
    by (simp add: demo_defs sftp_opendir_def io_res_def alloc_handle_def handle_key_def show_nat.simps text_eval)
  then obtain s' where op: "sftp_opendir demo_fs demo_session [] 1 (lit ''/x'') = (Inr (RHandle 1 (lit ''h0'')), s', [])"
    by blast
  obtain real ds es where "resolve demo_fs [] demo_session (lit ''/x'') = Inr real"
      "fs_read_dir demo_fs real [] = Inr ds" "rmap (dirent_entry demo_fs) ds = Inr es"
    using opendir_readdir_complete [OF op] by (elim exE conjE)
  with op show ?thesis by (intro exI conjI)
qed

end
