(* ===== verification/App.thy ===== *)
theory App
  imports Manage Host Proxy Sftp
begin

text \<open>
  \<open>run_server\<close> of \<open>main.rs\<close>: the program in its main mode, from the guard of the service and the choice of
  the log to the end of the accept loop, in service mode and outside it. Binding the listener,
  the locks of the tunnel host, files and what stops the program are arguments. A result of \<open>None\<close>
  is a program that still waits to be stopped.
\<close>

section \<open>Logging\<close>

datatype log_target =
    LogRolling path
  | LogAppend path
  | LogStderr

record log_setup =
  ls_filter :: str
  ls_ansi :: bool
  ls_target :: log_target

text \<open>\<open>le_rust_log\<close> is the filter of the environment when there is a valid one.\<close>

record log_env =
  le_rust_log :: "str option"
  le_create_dir :: "path \<Rightarrow> io_error + unit"
  le_rolling :: "path \<Rightarrow> str + unit"
  le_append :: "path \<Rightarrow> io_error + unit"

definition init_logging :: "platform \<Rightarrow> path option \<Rightarrow> log_env \<Rightarrow> args \<Rightarrow> bool \<Rightarrow> str + log_setup" where
  "init_logging os home le a service_mode =
     (let filt = (case le_rust_log le of
                    Some f \<Rightarrow> f
                  | None \<Rightarrow> lit ''sshdt='' @ lit (log_level a) @ lit '',warn'')
      in if service_mode \<and> arg_log_file a = None then
           rbind (default_log_directory os home (le_create_dir le)) (\<lambda>directory.
             case le_rolling le directory of
               Inl _ \<Rightarrow> Inl (lit ''failed to initialize service logs in '' @ directory)
             | Inr _ \<Rightarrow> Inr \<lparr>ls_filter = filt, ls_ansi = False, ls_target = LogRolling directory\<rparr>)
         else case arg_log_file a of
           Some p \<Rightarrow>
             (case le_append le p of
                Inl _ \<Rightarrow> Inl (lit ''failed to open log file '' @ p)
              | Inr _ \<Rightarrow> Inr \<lparr>ls_filter = filt, ls_ansi = False, ls_target = LogAppend p\<rparr>)
         | None \<Rightarrow> Inr \<lparr>ls_filter = filt, ls_ansi = True, ls_target = LogStderr\<rparr>)"

section \<open>The server\<close>

datatype app_error =
    AppGuard str
  | AppLogging str
  | AppConfig cli_error
  | AppBuild error
  | AppBind socket_addr error
  | AppReady str
  | AppStop str
  | AppSignal io_error

datatype app_effect =
    AppEvent ev_effect
  | AppLogTo log_setup
  | AppListening socket_addr
  | AppHost host_plan
  | AppHostStopped
  | AppServerStopped
  | AppFailureLogged app_error

record host_env =
  he_log_ok :: bool
  he_instance_open :: bool
  he_instance_free :: bool
  he_open_lock :: "str \<Rightarrow> str + unit"
  he_lock_free :: "str \<Rightarrow> bool"

definition host_plan_in :: "host_env \<Rightarrow> dev_tunnel_config \<Rightarrow> socket_addr \<Rightarrow> host_plan" where
  "host_plan_in he cfg addr =
     host_plan_of cfg addr (he_log_ok he) (he_instance_open he) (he_instance_free he) (he_open_lock he) (he_lock_free he)"

record ('w, 'key, 'k) run_env =
  rn_platform :: platform
  rn_read :: read_file
  rn_exists :: "path \<Rightarrow> bool"
  rn_home :: "path option"
  rn_logging :: log_env
  rn_keys :: "('w, 'key) key_os"
  rn_os :: os_env
  rn_key_of :: "str \<Rightarrow> str + 'k"
  rn_bind :: "socket_addr \<Rightarrow> io_error + socket_addr"
  rn_host :: host_env
  rn_security :: win_env
  rn_running :: created
  rn_stop :: created
  rn_ready :: created
  rn_set_ready :: bool
  rn_waits :: "wait_result list"
  rn_ctrl_c :: "(io_error + unit) option"

text \<open>Waiting to be stopped: for the stop event in service mode, otherwise for Ctrl-C.\<close>

definition until_stopped ::
  "('w, 'key, 'k) run_env \<Rightarrow> bool \<Rightarrow> app_effect list \<times> (app_error + unit) option" where
  "until_stopped env service =
     (if service then
        (case wait_for_stop (rn_waits env) of
           None \<Rightarrow> (map (\<lambda>_. AppEvent (EvPoll EvStop False)) (rn_waits env), None)
         | Some (es, r) \<Rightarrow> (map AppEvent es, Some (map_error AppStop r)))
      else ([], map_option (map_error AppSignal) (rn_ctrl_c env)))"

text \<open>The asynchronous block of \<open>run_server\<close>.\<close>

definition serve_until_stopped ::
  "('w, 'key, 'k) run_env \<Rightarrow> bool \<Rightarrow> args \<Rightarrow> 'w \<Rightarrow> app_effect list \<times> (app_error + unit) option \<times> 'w" where
  "serve_until_stopped env service a w =
     (case build_config (rn_read env) (rn_exists env) (rn_home env) a of
        Inl e \<Rightarrow> ([], Some (Inl (AppConfig e)), w)
      | Inr c \<Rightarrow>
          (case server_from_config (rn_keys env) (rn_os env) (rn_read env) (rn_key_of env) c w of
             (Inl e, w') \<Rightarrow> ([], Some (Inl (AppBuild e)), w')
           | (Inr sv, w') \<Rightarrow>
               (case server_serve (rn_bind env) sv of
                  Inl e \<Rightarrow> ([], Some (Inl (AppBind \<lparr>sa_ip = cfg_bind c, sa_port = cfg_port c, sa_scope = 0\<rparr> e)), w')
                | Inr handle \<Rightarrow>
                    (case if service then mark_ready (rn_set_ready env) else ([], Inr ()) of
                       (es, Inl e) \<Rightarrow> (map AppEvent es, Some (Inl (AppReady e)), w')
                     | (es, Inr _) \<Rightarrow>
                         let started = map AppEvent es @
                               [AppListening (sh_local_addr handle),
                                AppHost (host_plan_in (rn_host env) (cfg_dev_tunnel c) (sh_local_addr handle))]
                         in case until_stopped env service of
                              (es', None) \<Rightarrow> (started @ es', None, w')
                            | (es', Some r) \<Rightarrow> (started @ es' @ [AppHostStopped, AppServerStopped], Some r, w')))))"

text \<open>What follows the server: a failure is logged in service mode, and the guard dropped.\<close>

definition run_end :: "bool \<Rightarrow> (app_error + unit) option \<Rightarrow> app_effect list" where
  "run_end service r =
     (case r of
        None \<Rightarrow> []
      | Some x \<Rightarrow> (case x of Inl e \<Rightarrow> if service then [AppFailureLogged e] else [] | Inr _ \<Rightarrow> []) @
                   (if service then map AppEvent drop_guard else []))"

definition run_server ::
  "('w, 'key, 'k) run_env \<Rightarrow> bool \<Rightarrow> args \<Rightarrow> 'w \<Rightarrow> app_effect list \<times> (app_error + unit) option \<times> 'w" where
  "run_server env service_mode a w =
     (let service = (service_mode \<and> rn_platform env = Windows)
      in case if service
              then run_guard_acquire (snd (guard_security (rn_security env))) (rn_running env) (rn_stop env) (rn_ready env)
              else ([], Inr ()) of
           (es, Inl e) \<Rightarrow> (map AppEvent es, Some (Inl (AppGuard e)), w)
         | (es, Inr _) \<Rightarrow>
             (case init_logging (rn_platform env) (rn_home env) (rn_logging env) a service of
                Inl e \<Rightarrow> (map AppEvent es @ (if service then map AppEvent drop_guard else []), Some (Inl (AppLogging e)), w)
              | Inr logs \<Rightarrow>
                  (case serve_until_stopped env service a w of
                     (es', r, w') \<Rightarrow> (map AppEvent es @ AppLogTo logs # es' @ run_end service r, r, w'))))"

text \<open>\<open>--check\<close>: the log is set up and the configuration built, nothing more.\<close>

definition run_check :: "('w, 'key, 'k) run_env \<Rightarrow> args \<Rightarrow> app_error + str" where
  "run_check env a =
     rbind (map_error AppLogging (init_logging (rn_platform env) (rn_home env) (rn_logging env) a False)) (\<lambda>_.
     rbind (map_error AppConfig (build_config (rn_read env) (rn_exists env) (rn_home env) a)) (\<lambda>_.
       Inr (lit ''configuration is valid'')))"

section \<open>When a tunnel is hosted\<close>

lemma host_plan_valid:
  assumes "validate_dev_tunnel c = Inr ()"
  shows "host_plan_in he (cfg_dev_tunnel c) addr = PlanHost tid \<longleftrightarrow>
     dt_enabled (cfg_dev_tunnel c) \<and> dt_id (cfg_dev_tunnel c) = Some tid \<and>
     (is_loopback (sa_ip addr) \<or> is_unspecified (sa_ip addr)) \<and>
     he_log_ok he \<and> he_instance_open he \<and> he_instance_free he \<and> he_open_lock he tid = Inr () \<and> he_lock_free he tid"
  using assms
  by (auto simp: host_plan_in_def host_plan_of_def validate_dev_tunnel_ok split: option.splits sum.splits)

text \<open>The address the listener of a configuration gets.\<close>

definition bound_to :: "('w, 'key, 'k) run_env \<Rightarrow> config \<Rightarrow> 'w \<Rightarrow> socket_addr \<Rightarrow> bool" where
  "bound_to env c w addr \<longleftrightarrow>
     (case server_from_config (rn_keys env) (rn_os env) (rn_read env) (rn_key_of env) c w of
        (Inl _, _) \<Rightarrow> False
      | (Inr sv, _) \<Rightarrow>
          (case server_serve (rn_bind env) sv of Inl _ \<Rightarrow> False | Inr handle \<Rightarrow> sh_local_addr handle = addr))"

lemma serve_until_stopped_hosts:
  assumes "serve_until_stopped env service a w = (es, r, w')" and "AppHost plan \<in> set es"
  shows "\<exists>c addr evs evs'. build_config (rn_read env) (rn_exists env) (rn_home env) a = Inr c \<and> bound_to env c w addr \<and>
    plan = host_plan_in (rn_host env) (cfg_dev_tunnel c) addr \<and> (service \<longrightarrow> EvSet EvReady \<in> set evs) \<and>
    es = map AppEvent evs @ [AppListening addr, AppHost plan] @ map AppEvent evs' @
      (if r = None then [] else [AppHostStopped, AppServerStopped])"
proof -
  have u: "\<exists>evs'. fst (until_stopped env service) = map AppEvent evs'"
    by (auto simp: until_stopped_def split: option.splits intro: exI [of _ "map (\<lambda>_. EvPoll EvStop False) (rn_waits env)"])
  obtain c sv w1 handle es0 r0 where d:
    "build_config (rn_read env) (rn_exists env) (rn_home env) a = Inr c"
    "server_from_config (rn_keys env) (rn_os env) (rn_read env) (rn_key_of env) c w = (Inr sv, w1)"
    "server_serve (rn_bind env) sv = Inr handle"
    "(if service then mark_ready (rn_set_ready env) else ([], Inr ())) = (es0, Inr r0)"
    using assms by (auto simp: serve_until_stopped_def split: sum.splits prod.splits)
  have ready: "service \<longrightarrow> EvSet EvReady \<in> set es0" using d(4) by (auto simp: mark_ready_def split: if_splits)
  obtain evs' q where s: "until_stopped env service = (map AppEvent evs', q)" using u by (metis prod.collapse)
  show ?thesis
    using assms ready by (intro exI [of _ c] exI [of _ "sh_local_addr handle"] exI [of _ es0] exI [of _ evs'])
      (auto simp: serve_until_stopped_def d s bound_to_def Let_def split: option.splits)
qed

lemma run_server_form:
  assumes "run_server env service_mode a w = (es, r, w')"
    and "serve_until_stopped env (service_mode \<and> rn_platform env = Windows) a w = (es1, r1, w1)"
  shows "(\<exists>evs. es = map AppEvent evs) \<or>
    (\<exists>evs logs. es = map AppEvent evs @ AppLogTo logs # es1 @ run_end (service_mode \<and> rn_platform env = Windows) r \<and> r = r1)"
proof -
  define service where "service = (service_mode \<and> rn_platform env = Windows)"
  obtain evs g where g: "(if service
      then run_guard_acquire (snd (guard_security (rn_security env))) (rn_running env) (rn_stop env) (rn_ready env)
      else ([], Inr ())) = (evs, g)" by fastforce
  have "run_server env service_mode a w =
    (case g of
       Inl e \<Rightarrow> (map AppEvent evs, Some (Inl (AppGuard e)), w)
     | Inr _ \<Rightarrow>
         (case init_logging (rn_platform env) (rn_home env) (rn_logging env) a service of
            Inl e \<Rightarrow> (map AppEvent (evs @ (if service then drop_guard else [])), Some (Inl (AppLogging e)), w)
          | Inr logs \<Rightarrow> (map AppEvent evs @ AppLogTo logs # es1 @ run_end service r1, r1, w1)))"
    unfolding run_server_def Let_def service_def [symmetric] assms(2) [folded service_def] g by (simp split: sum.splits)
  then show ?thesis
    unfolding service_def [symmetric] assms(1) by (auto split: sum.splits intro: exI [of _ "_ @ _"])
qed

text \<open>
  C33. A tunnel is hosted exactly when it was asked for and can reach the server: in a run of the
  program the host is planned at most once, right after the listener is bound and, in service
  mode, the service said to be ready, for the address the listener got; for a configuration that
  passed the checks it hosts a tunnel if and only if hosting is enabled for that id, the listener
  accepts loopback connections and the log and the locks can be had. When the program ends, the
  host has been stopped before the server.
\<close>

theorem run_server_hosts:
  assumes "run_server env service_mode a w = (es, r, w')" and "AppHost plan \<in> set es"
  shows "\<exists>c addr before after. build_config (rn_read env) (rn_exists env) (rn_home env) a = Inr c \<and>
     bound_to env c w addr \<and> es = before @ [AppListening addr, AppHost plan] @ after \<and>
     (\<forall>other. AppHost other \<notin> set before \<and> AppHost other \<notin> set after) \<and>
     (service_mode \<and> rn_platform env = Windows \<longrightarrow> AppEvent (EvSet EvReady) \<in> set before) \<and>
     (r \<noteq> None \<longrightarrow> (\<exists>xs ys. after = xs @ [AppHostStopped, AppServerStopped] @ ys)) \<and>
     (\<forall>tid. plan = PlanHost tid \<longleftrightarrow>
        dt_enabled (cfg_dev_tunnel c) \<and> dt_id (cfg_dev_tunnel c) = Some tid \<and>
        (is_loopback (sa_ip addr) \<or> is_unspecified (sa_ip addr)) \<and> he_log_ok (rn_host env) \<and>
        he_instance_open (rn_host env) \<and> he_instance_free (rn_host env) \<and>
        he_open_lock (rn_host env) tid = Inr () \<and> he_lock_free (rn_host env) tid)"
proof -
  define service where "service = (service_mode \<and> rn_platform env = Windows)"
  obtain es1 r1 w1 where s: "serve_until_stopped env service a w = (es1, r1, w1)" by (cases "serve_until_stopped env service a w")
  have "AppHost plan \<notin> AppEvent ` evs" for evs by auto
  then obtain evs logs where es: "es = map AppEvent evs @ AppLogTo logs # es1 @ run_end service r" "r = r1"
    using run_server_form [OF assms(1) s [unfolded service_def]] assms(2) unfolding service_def [symmetric]
    by (auto simp: drop_guard_def)
  have fl: "AppHost q \<notin> set (run_end service r)" for q by (auto simp: run_end_def split: option.splits sum.splits)
  then have "AppHost plan \<in> set es1" using assms(2) es by auto
  from serve_until_stopped_hosts [OF s this] obtain c addr ev1 ev2 where
    c: "build_config (rn_read env) (rn_exists env) (rn_home env) a = Inr c" "bound_to env c w addr"
    and plan: "plan = host_plan_in (rn_host env) (cfg_dev_tunnel c) addr" and ready: "service \<longrightarrow> EvSet EvReady \<in> set ev1"
    and es1: "es1 = map AppEvent ev1 @ [AppListening addr, AppHost plan] @ map AppEvent ev2 @
      (if r1 = None then [] else [AppHostStopped, AppServerStopped])" by blast
  have "validate_dev_tunnel c = Inr ()" using build_config_Inr [OF c(1)] by blast
  from host_plan_valid [OF this, of "rn_host env" addr] show ?thesis
    unfolding service_def [symmetric]
    using c es es1 plan fl ready
    by (intro exI [of _ c] exI [of _ addr] exI [of _ "map AppEvent evs @ AppLogTo logs # map AppEvent ev1"]
        exI [of _ "map AppEvent ev2 @ (if r1 = None then [] else [AppHostStopped, AppServerStopped]) @ run_end service r"])
      auto
qed

definition ready_host_env :: host_env where
  "ready_host_env = \<lparr>he_log_ok = True, he_instance_open = True, he_instance_free = True,
     he_open_lock = (\<lambda>_. Inr ()), he_lock_free = (\<lambda>_. True)\<rparr>"

definition plain_os :: os_env where
  "plain_os = \<lparr>os_var = Map.empty, os_home_dir = Some (lit ''/h''), os_is_dir = \<lambda>_. True\<rparr>"

definition demo_run :: "platform \<Rightarrow> ((path \<times> nat) list \<times> nat, nat, nat) run_env" where
  "demo_run os = \<lparr>rn_platform = os, rn_read = (\<lambda>_. Inl (IoError NotFound [])), rn_exists = (\<lambda>_. False),
     rn_home = Some (lit ''/h''),
     rn_logging = \<lparr>le_rust_log = None, le_create_dir = (\<lambda>_. Inr ()), le_rolling = (\<lambda>_. Inr ()), le_append = (\<lambda>_. Inr ())\<rparr>,
     rn_keys = demo_keys, rn_os = plain_os, rn_key_of = (\<lambda>_. Inl []), rn_bind = Inr, rn_host = ready_host_env,
     rn_security = demo_win, rn_running = CreatedNew, rn_stop = CreatedNew, rn_ready = CreatedNew,
     rn_set_ready = True, rn_waits = [WaitTimeout, WaitObject], rn_ctrl_c = Some (Inr ())\<rparr>"

lemma demo_run_server:
  "\<exists>es w' plan. run_server (demo_run os) True no_args ([], 0) = (es, Some (Inr ()), w') \<and> AppHost plan \<in> set es"
proof -
  let ?e = "demo_run os" and ?c = "config_default\<lparr>cfg_allow_tcp_forwarding := False\<rparr>"
  have "base_config (rn_read ?e) (rn_exists ?e) (rn_home ?e) no_args = Inr config_default"
    by (simp add: base_config_def select_config_path_def no_args_def demo_run_def)
  then have c: "build_config (rn_read ?e) (rn_exists ?e) (rn_home ?e) no_args = Inr ?c"
    by (simp add: build_config_def) (simp add: no_args_def apply_tunnel_flags_def apply_server_flags_def
        map_error_def Let_def validate_dev_tunnel_def config_default_def dev_tunnel_default_def)
  have "\<exists>sv w'. server_from_config (rn_keys ?e) (rn_os ?e) (rn_read ?e) (rn_key_of ?e) ?c ([], 0) = (Inr sv, w')"
    by (simp add: server_from_config_def build_def load_or_generate_def default_host_key_path_def demo_run_def
        load_or_generate_one_def generate_and_persist_def prepare_dir_def demo_keys_def from_config_def
        builder_from_config_def config_default_def resolve_allowed_users_def plain_os_def text_eval Let_def)
  then obtain sv w' where sv: "server_from_config (rn_keys ?e) (rn_os ?e) (rn_read ?e) (rn_key_of ?e) ?c ([], 0) = (Inr sv, w')"
    by blast
  have "\<exists>es plan. serve_until_stopped ?e service no_args ([], 0) = (es, Some (Inr ()), w') \<and> AppHost plan \<in> set es" for service
    by (simp add: serve_until_stopped_def c sv) (simp add: demo_run_def server_serve_def mark_ready_def until_stopped_def map_error_def)
  moreover have "\<exists>x. init_logging (rn_platform ?e) (rn_home ?e) (rn_logging ?e) no_args service = Inr x" for service
    by (simp add: init_logging_def default_log_directory_def demo_run_def no_args_def Let_def)
  moreover have "\<exists>x. run_guard_acquire (snd (guard_security (rn_security ?e))) (rn_running ?e) (rn_stop ?e) (rn_ready ?e) = (x, Inr ())"
    by (simp add: demo_run_def run_guard_acquire_def guard_security_def current_user_sid_def event_security_def demo_win_def
      ERROR_INSUFFICIENT_BUFFER_def Let_def)
  ultimately obtain es plan x evs where
    "serve_until_stopped ?e (os = Windows) no_args ([], 0) = (es, Some (Inr ()), w')" "AppHost plan \<in> set es"
    "init_logging (rn_platform ?e) (rn_home ?e) (rn_logging ?e) no_args (os = Windows) = Inr x"
    "run_guard_acquire (snd (guard_security (rn_security ?e))) (rn_running ?e) (rn_stop ?e) (rn_ready ?e) = (evs, Inr ())"
    by meson
  moreover have "rn_platform ?e = os" by (simp add: demo_run_def)
  ultimately show ?thesis by (cases os) (auto simp: run_server_def Let_def)
qed

theorem run_server_hosts_witness:
  "\<exists>es w' addr before after plan. run_server (demo_run Windows) True no_args ([], 0) = (es, Some (Inr ()), w') \<and>
     es = before @ [AppListening addr, AppHost plan] @ after \<and> AppEvent (EvSet EvReady) \<in> set before"
proof -
  obtain es w' plan where run: "run_server (demo_run Windows) True no_args ([], 0) = (es, Some (Inr ()), w')"
    "AppHost plan \<in> set es" using demo_run_server by blast
  have "rn_platform (demo_run Windows) = Windows" by (simp add: demo_run_def)
  with run_server_hosts [OF run] run(1) show ?thesis by blast
qed

section \<open>The server as a service\<close>

fun events_of :: "app_effect list \<Rightarrow> ev_effect list" where
  "events_of [] = []"
| "events_of (AppEvent e # es) = e # events_of es"
| "events_of (_ # es) = events_of es"

lemma events_of_append [simp]: "events_of (xs @ ys) = events_of xs @ events_of ys"
  by (induction xs rule: events_of.induct) simp_all

lemma events_of_map [simp]: "events_of (map AppEvent es) = es"
  by (induction es) simp_all

lemma events_of_end [simp]: "events_of (run_end True r) = (if r = None then [] else drop_guard)"
  by (simp add: run_end_def split: option.splits sum.splits)

text \<open>The part of an environment that the service's events depend on.\<close>

definition service_of :: "('w, 'key, 'k) run_env \<Rightarrow> str + unit \<Rightarrow> service_env" where
  "service_of env started =
     \<lparr>sn_security = rn_security env, sn_running = rn_running env, sn_stop = rn_stop env, sn_ready = rn_ready env,
      sn_started = started, sn_set_ready = rn_set_ready env, sn_waits = rn_waits env\<rparr>"

definition listener_bound :: "('w, 'key, 'k) run_env \<Rightarrow> args \<Rightarrow> 'w \<Rightarrow> bool" where
  "listener_bound env a w \<longleftrightarrow>
     (case build_config (rn_read env) (rn_exists env) (rn_home env) a of
        Inl _ \<Rightarrow> False
      | Inr c \<Rightarrow>
          (case server_from_config (rn_keys env) (rn_os env) (rn_read env) (rn_key_of env) c w of
             (Inl _, _) \<Rightarrow> False
           | (Inr sv, _) \<Rightarrow> \<not> isl (server_serve (rn_bind env) sv)))"

lemma serve_events:
  assumes "serve_until_stopped env True a w = (es, r, w')"
  shows "if \<not> listener_bound env a w then es = [] \<and> (\<exists>e. r = Some (Inl e))
    else (case mark_ready (rn_set_ready env) of
       (es1, Inl e) \<Rightarrow> es = map AppEvent es1 \<and> r = Some (Inl (AppReady e))
     | (es1, Inr _) \<Rightarrow>
         (case wait_for_stop (rn_waits env) of
            None \<Rightarrow> r = None
          | Some (es2, x) \<Rightarrow> events_of es = es1 @ es2 \<and> r = Some (map_error AppStop x)))"
  using assms
  by (auto simp: serve_until_stopped_def listener_bound_def until_stopped_def Let_def split: sum.splits prod.splits option.splits)

text \<open>
  C16. The program in service mode is the service process of the protocol of named events: whatever the
  configuration, the files and the network do, what it does with the events is what the process
  does whose server started exactly when the log was set up and the listener bound, it ends when
  that process ends, with an error when that process has one; so it says that it is ready only
  with its listener bound.
\<close>

theorem run_server_refines_service:
  assumes "rn_platform env = Windows" and "run_server env True a w = (es, r, w')"
  shows "\<exists>started. map_option (\<lambda>(evs, x). (evs, isl x)) (service_process (service_of env started)) =
      map_option (\<lambda>x. (events_of es, isl x)) r \<and>
    (\<not> isl started \<longleftrightarrow> \<not> isl (init_logging Windows (rn_home env) (rn_logging env) a True) \<and> listener_bound env a w)"
proof -
  define ok where "ok = (\<not> isl (init_logging Windows (rn_home env) (rn_logging env) a True) \<and> listener_bound env a w)"
  define started :: "str + unit" where "started = (if ok then Inr () else Inl [])"
  obtain es1 r1 w1 where s: "serve_until_stopped env True a w = (es1, r1, w1)" by (cases "serve_until_stopped env True a w")
  obtain evs g where g: "run_guard_acquire (snd (guard_security (rn_security env))) (rn_running env) (rn_stop env)
      (rn_ready env) = (evs, g)" by (cases "run_guard_acquire (snd (guard_security (rn_security env))) (rn_running env)
      (rn_stop env) (rn_ready env)")
  have "map_option (\<lambda>(evs, x). (evs, isl x)) (service_process (service_of env started)) =
      map_option (\<lambda>x. (events_of es, isl x)) r"
  proof (cases g)
    case (Inl e)
    then show ?thesis using assms g by (auto simp: run_server_def service_process_def service_of_def)
  next
    case guard: (Inr u)
    show ?thesis
    proof (cases "init_logging Windows (rn_home env) (rn_logging env) a True")
      case (Inl e)
      then show ?thesis using assms g guard
        by (auto simp: run_server_def service_process_def service_of_def started_def ok_def)
    next
      case (Inr logs)
      then have es: "es = map AppEvent evs @ AppLogTo logs # es1 @ run_end True r1" "r = r1"
        using assms g guard s by (auto simp: run_server_def)
      have sp: "service_process (service_of env started) =
        (if \<not> listener_bound env a w then Some (evs @ drop_guard, Inl [])
         else case mark_ready (rn_set_ready env) of
                (es1, Inl e) \<Rightarrow> Some (evs @ es1 @ drop_guard, Inl e)
              | (es1, Inr _) \<Rightarrow> map_option (\<lambda>(es2, r). (evs @ es1 @ es2 @ drop_guard, r)) (wait_for_stop (rn_waits env)))"
        using g guard Inr by (simp add: service_process_def service_of_def started_def ok_def)
      show ?thesis
        using serve_events [OF s] unfolding sp es
        by (auto simp: map_error_def split: sum.splits prod.splits option.splits if_splits)
    qed
  qed
  then show ?thesis by (intro exI [of _ started]) (simp add: started_def ok_def)
qed

theorem run_server_refines_service_witness:
  "\<exists>es w' started evs. run_server (demo_run Windows) True no_args ([], 0) = (es, Some (Inr ()), w') \<and>
     service_process (service_of (demo_run Windows) started) = Some (events_of es, evs)"
proof -
  obtain es w' plan where run: "run_server (demo_run Windows) True no_args ([], 0) = (es, Some (Inr ()), w')"
    using demo_run_server by blast
  have "rn_platform (demo_run Windows) = Windows" by (simp add: demo_run_def)
  from run_server_refines_service [OF this run] run show ?thesis by auto
qed

end
