(* ===== verification/Saved.thy ===== *)
theory Saved
  imports App
begin

text \<open>
  The options of the launch at login from one end to the other: \<open>service enable\<close> writes them out
  (\<open>startup_args\<close>) into the registry, the service started at the next login reads them back
  (\<open>saved_startup_args\<close>, \<open>parse_saved_service_args\<close>), and \<open>service logs\<close> looks into them for the log file.
  Parsing is the \<open>argh\<close> library's. What it does with the struct \<open>Args\<close> is given by the names and types
  of its fields, which are the tables here, and by the library's documentation, which is the
  predicate \<open>argh_contract\<close> on the parameter \<open>parse\<close>.
\<close>

section \<open>The fields of \<open>Args\<close> as options\<close>

datatype opt_item = ItemSwitch string | ItemOption string str

fun item_tokens :: "opt_item \<Rightarrow> str list" where
  "item_tokens (ItemSwitch name) = [lit name]"
| "item_tokens (ItemOption name v) = [lit name, v]"

text \<open>A field of type \<open>Option\<close> takes one value, a field of type \<open>Vec\<close> collects them; a value is read by the
  type's \<open>FromStr\<close>.\<close>

definition once_field ::
  "(args \<Rightarrow> 'v option) \<Rightarrow> (('v option \<Rightarrow> 'v option) \<Rightarrow> args \<Rightarrow> args) \<Rightarrow> (str \<Rightarrow> 'v option) \<Rightarrow> str \<Rightarrow> args \<Rightarrow> args option" where
  "once_field get put from_str v a =
     (if get a \<noteq> None then None else map_option (\<lambda>x. put (\<lambda>_. Some x) a) (from_str v))"

definition many_field :: "((str list \<Rightarrow> str list) \<Rightarrow> args \<Rightarrow> args) \<Rightarrow> str \<Rightarrow> args \<Rightarrow> args option" where
  "many_field put v a = Some (put (\<lambda>xs. xs @ [v]) a)"

definition switch_fields :: "(string \<times> ((bool \<Rightarrow> bool) \<Rightarrow> args \<Rightarrow> args)) list" where
  "switch_fields =
     [(''--no-config'', arg_no_config_update), (''--debug'', arg_debug_update), (''--verbose'', arg_verbose_update),
      (''--quiet'', arg_quiet_update), (''--strict-user'', arg_strict_user_update), (''--no-forward'', arg_no_forward_update),
      (''--devtunnel-enable'', arg_devtunnel_enable_update), (''--devtunnel-disable'', arg_devtunnel_disable_update),
      (''--devtunnel-auto-create'', arg_devtunnel_auto_create_update), (''--check'', arg_check_update),
      (''--version'', arg_version_update), (''--service-run'', arg_service_run_update)]"

definition option_fields :: "(string \<times> (str \<Rightarrow> args \<Rightarrow> args option)) list" where
  "option_fields =
     [(''--port'', once_field arg_port arg_port_update parse_u16),
      (''--host-key'', many_field arg_host_key_update),
      (''--config'', once_field arg_config arg_config_update Some),
      (''--log-file'', once_field arg_log_file arg_log_file_update Some),
      (''--bind'', once_field arg_bind arg_bind_update parse_ip),
      (''--host-key-passphrase'', once_field arg_host_key_passphrase arg_host_key_passphrase_update Some),
      (''--password'', once_field arg_password arg_password_update Some),
      (''--authorized-keys'', many_field arg_authorized_keys_update),
      (''--pubkey'', many_field arg_pubkey_update),
      (''--shell'', once_field arg_shell arg_shell_update Some),
      (''--sftp-root'', once_field arg_sftp_root arg_sftp_root_update Some),
      (''--allow-user'', many_field arg_allow_user_update),
      (''--login-grace'', once_field arg_login_grace arg_login_grace_update parse_u64),
      (''--max-startups'', once_field arg_max_startups arg_max_startups_update parse_u32),
      (''--devtunnel-id'', once_field arg_devtunnel_id arg_devtunnel_id_update Some),
      (''--devtunnel-label'', many_field arg_devtunnel_label_update),
      (''--devtunnel-bin'', once_field arg_devtunnel_bin arg_devtunnel_bin_update Some),
      (''--devtunnel-timeout'', once_field arg_devtunnel_timeout arg_devtunnel_timeout_update Some)]"

definition args_empty :: args where
  "args_empty = \<lparr>arg_port = None, arg_host_key = [], arg_config = None, arg_no_config = False, arg_log_file = None,
     arg_debug = False, arg_verbose = False, arg_quiet = False, arg_bind = None, arg_host_key_passphrase = None,
     arg_password = None, arg_authorized_keys = [], arg_pubkey = [], arg_shell = None, arg_sftp_root = None,
     arg_strict_user = False, arg_allow_user = [], arg_no_forward = False, arg_login_grace = None, arg_max_startups = None,
     arg_devtunnel_enable = False, arg_devtunnel_disable = False, arg_devtunnel_id = None, arg_devtunnel_label = [],
     arg_devtunnel_bin = None, arg_devtunnel_auto_create = False, arg_devtunnel_timeout = None, arg_check = False,
     arg_version = False, arg_service_run = False, arg_command = None\<rparr>"

fun apply_item :: "opt_item \<Rightarrow> args \<Rightarrow> args option" where
  "apply_item (ItemSwitch name) a = map_option (\<lambda>put. put (\<lambda>_. True) a) (map_of switch_fields name)"
| "apply_item (ItemOption name v) a = (case map_of option_fields name of None \<Rightarrow> None | Some set_field \<Rightarrow> set_field v a)"

fun apply_items :: "opt_item list \<Rightarrow> args \<Rightarrow> args option" where
  "apply_items [] a = Some a"
| "apply_items (i # is) a = (case apply_item i a of None \<Rightarrow> None | Some a' \<Rightarrow> apply_items is a')"

text \<open>The documented behaviour of the parser: long options and switches of the struct, each with a value
  of its type and no field of type \<open>Option\<close> given twice, fill the struct.\<close>

definition argh_contract :: "(str list \<Rightarrow> str + args) \<Rightarrow> bool" where
  "argh_contract parse \<longleftrightarrow>
     (\<forall>is a. apply_items is args_empty = Some a \<longrightarrow> parse (concat (map item_tokens is)) = Inr a)"

section \<open>Writing options out\<close>

definition absolute_path :: "path_ops \<Rightarrow> path option \<Rightarrow> path \<Rightarrow> path" where
  "absolute_path po cwd p =
     (if po_is_absolute po p then p else case cwd of Some d \<Rightarrow> po_join po d p | None \<Rightarrow> p)"

definition switch_items :: "string \<Rightarrow> bool \<Rightarrow> opt_item list" where
  "switch_items name b = (if b then [ItemSwitch name] else [])"

definition value_items :: "string \<Rightarrow> str list \<Rightarrow> opt_item list" where
  "value_items name vs = map (ItemOption name) vs"

definition option_items :: "string \<Rightarrow> str option \<Rightarrow> opt_item list" where
  "option_items name v = value_items name (opt_list v)"

definition items_before :: "(ip_addr \<Rightarrow> str) \<Rightarrow> (path \<Rightarrow> path) \<Rightarrow> args \<Rightarrow> opt_item list" where
  "items_before show_ip absolute a =
     switch_items ''--devtunnel-enable'' (arg_devtunnel_enable a) @
     switch_items ''--devtunnel-disable'' (arg_devtunnel_disable a) @
     option_items ''--devtunnel-id'' (arg_devtunnel_id a) @
     value_items ''--devtunnel-label'' (arg_devtunnel_label a) @
     option_items ''--devtunnel-bin'' (map_option absolute (arg_devtunnel_bin a)) @
     switch_items ''--devtunnel-auto-create'' (arg_devtunnel_auto_create a) @
     option_items ''--devtunnel-timeout'' (arg_devtunnel_timeout a) @
     option_items ''--port'' (map_option (\<lambda>p. show_nat (unat p)) (arg_port a)) @
     value_items ''--host-key'' (map absolute (arg_host_key a)) @
     option_items ''--config'' (map_option absolute (arg_config a)) @
     switch_items ''--no-config'' (arg_no_config a)"

definition items_after :: "(ip_addr \<Rightarrow> str) \<Rightarrow> (path \<Rightarrow> path) \<Rightarrow> args \<Rightarrow> opt_item list" where
  "items_after show_ip absolute a =
     switch_items ''--debug'' (arg_debug a) @
     switch_items ''--verbose'' (arg_verbose a) @
     switch_items ''--quiet'' (arg_quiet a) @
     option_items ''--bind'' (map_option show_ip (arg_bind a)) @
     option_items ''--host-key-passphrase'' (arg_host_key_passphrase a) @
     option_items ''--password'' (arg_password a) @
     value_items ''--authorized-keys'' (map absolute (arg_authorized_keys a)) @
     value_items ''--pubkey'' (arg_pubkey a) @
     option_items ''--shell'' (arg_shell a) @
     option_items ''--sftp-root'' (map_option absolute (arg_sftp_root a)) @
     switch_items ''--strict-user'' (arg_strict_user a) @
     value_items ''--allow-user'' (arg_allow_user a) @
     switch_items ''--no-forward'' (arg_no_forward a) @
     option_items ''--login-grace'' (map_option (\<lambda>n. show_nat (unat n)) (arg_login_grace a)) @
     option_items ''--max-startups'' (map_option (\<lambda>n. show_nat (unat n)) (arg_max_startups a))"

definition saved_items :: "(ip_addr \<Rightarrow> str) \<Rightarrow> (path \<Rightarrow> path) \<Rightarrow> args \<Rightarrow> opt_item list" where
  "saved_items show_ip absolute a =
     items_before show_ip absolute a @ option_items ''--log-file'' (map_option absolute (arg_log_file a)) @
     items_after show_ip absolute a"

lemmas saved_items_all = saved_items_def items_before_def items_after_def

definition item_words :: "opt_item list \<Rightarrow> str list" where
  "item_words is = concat (map item_tokens is)"

lemma item_words_append: "item_words (is @ js) = item_words is @ item_words js"
  by (simp add: item_words_def)

named_theorems pushes

lemma push_switch_tokens [pushes]: "push_switch r name b = r @ item_words (switch_items name b)"
  by (simp add: push_switch_def switch_items_def item_words_def)

lemma push_option_tokens [pushes]: "push_option r name v = r @ item_words (option_items name v)"
  by (simp add: push_option_def option_items_def value_items_def item_words_def split: option.split)

lemma push_all_tokens [pushes]: "push_all r name vs = r @ item_words (value_items name vs)"
  by (induction vs arbitrary: r) (simp_all add: push_all_def push_option_def value_items_def item_words_def)

lemma push_paths_tokens:
  "push_paths po cwd r name ps = Inr r' \<Longrightarrow> r' = r @ item_words (value_items name (map (absolute_path po cwd) ps))"
proof (induction ps arbitrary: r)
  case (Cons p ps)
  then obtain r1 where "push_path_option po cwd r name p = Inr r1" "push_paths po cwd r1 name ps = Inr r'" by auto
  then show ?case
    using Cons.IH [of r1]
    by (auto simp: push_path_option_def absolute_path_def value_items_def item_words_def split: if_splits option.splits)
qed (simp add: value_items_def item_words_def)

lemma push_path_tokens:
  "push_paths po cwd r name (opt_list v) = Inr r' \<Longrightarrow> r' = r @ item_words (option_items name (map_option (absolute_path po cwd) v))"
  using push_paths_tokens [of po cwd r name "opt_list v" r'] by (cases v) (simp_all add: option_items_def)

lemma startup_args_words:
  assumes "startup_args po show_ip cwd a = Inr opts"
  shows "opts = item_words (saved_items show_ip (absolute_path po cwd) a)"
  using assms unfolding startup_args_def Let_def pushes rbind_eq_Inr
  by clarify
     (drule push_path_tokens, drule push_paths_tokens, drule push_path_tokens, drule push_path_tokens,
      drule push_paths_tokens, drule push_path_tokens,
      simp only: saved_items_all item_words_append append_assoc append_Nil sum.inject)

section \<open>Reading options back\<close>

lemma apply_items_append:
  "apply_items (is @ js) a = (case apply_items is a of None \<Rightarrow> None | Some a' \<Rightarrow> apply_items js a')"
  by (induction "is" arbitrary: a) (simp_all split: option.split)

text \<open>What a field of the record obeys; an update sees only the field.\<close>

definition field_ok :: "(args \<Rightarrow> 'v) \<Rightarrow> (('v \<Rightarrow> 'v) \<Rightarrow> args \<Rightarrow> args) \<Rightarrow> bool" where
  "field_ok get put \<longleftrightarrow>
     (\<forall>f a. get (put f a) = f (get a)) \<and> (\<forall>f g a. f (get a) = g (get a) \<longrightarrow> put f a = put g a) \<and>
     (\<forall>a. put (\<lambda>v. v) a = a) \<and> (\<forall>f g a. put f (put g a) = put (\<lambda>v. f (g v)) a)"

named_theorems fields

lemma bool_fields_ok [fields]:
  "field_ok arg_no_config arg_no_config_update" "field_ok arg_debug arg_debug_update"
  "field_ok arg_verbose arg_verbose_update" "field_ok arg_quiet arg_quiet_update"
  "field_ok arg_strict_user arg_strict_user_update" "field_ok arg_no_forward arg_no_forward_update"
  "field_ok arg_devtunnel_enable arg_devtunnel_enable_update" "field_ok arg_devtunnel_disable arg_devtunnel_disable_update"
  "field_ok arg_devtunnel_auto_create arg_devtunnel_auto_create_update"
  by (simp_all add: field_ok_def)

lemma option_fields_ok [fields]:
  "field_ok arg_port arg_port_update" "field_ok arg_config arg_config_update" "field_ok arg_log_file arg_log_file_update"
  "field_ok arg_bind arg_bind_update" "field_ok arg_host_key_passphrase arg_host_key_passphrase_update"
  "field_ok arg_password arg_password_update" "field_ok arg_shell arg_shell_update"
  "field_ok arg_sftp_root arg_sftp_root_update" "field_ok arg_login_grace arg_login_grace_update"
  "field_ok arg_max_startups arg_max_startups_update" "field_ok arg_devtunnel_id arg_devtunnel_id_update"
  "field_ok arg_devtunnel_bin arg_devtunnel_bin_update" "field_ok arg_devtunnel_timeout arg_devtunnel_timeout_update"
  by (simp_all add: field_ok_def)

lemma list_fields_ok [fields]:
  "field_ok arg_host_key arg_host_key_update" "field_ok arg_authorized_keys arg_authorized_keys_update"
  "field_ok arg_pubkey arg_pubkey_update" "field_ok arg_allow_user arg_allow_user_update"
  "field_ok arg_devtunnel_label arg_devtunnel_label_update"
  by (simp_all add: field_ok_def)

lemma field_okD:
  assumes "field_ok get put"
  shows "f (get a) = g (get a) \<Longrightarrow> put f a = put g a" and "put (\<lambda>v. v) a = a" and "put f (put g a) = put (\<lambda>v. f (g v)) a"
  using assms unfolding field_ok_def by blast+

lemma field_unchanged: "field_ok get put \<Longrightarrow> get a = v \<Longrightarrow> put (\<lambda>_. v) a = a"
  using field_okD(1) [of get put "\<lambda>_. v" a "\<lambda>v. v"] field_okD(2) [of get put a] by simp

lemma switch_lookups:
  "map_of switch_fields ''--no-config'' = Some arg_no_config_update"
  "map_of switch_fields ''--debug'' = Some arg_debug_update"
  "map_of switch_fields ''--verbose'' = Some arg_verbose_update"
  "map_of switch_fields ''--quiet'' = Some arg_quiet_update"
  "map_of switch_fields ''--strict-user'' = Some arg_strict_user_update"
  "map_of switch_fields ''--no-forward'' = Some arg_no_forward_update"
  "map_of switch_fields ''--devtunnel-enable'' = Some arg_devtunnel_enable_update"
  "map_of switch_fields ''--devtunnel-disable'' = Some arg_devtunnel_disable_update"
  "map_of switch_fields ''--devtunnel-auto-create'' = Some arg_devtunnel_auto_create_update"
  by (simp_all add: switch_fields_def)

lemma option_lookups:
  "map_of option_fields ''--port'' = Some (once_field arg_port arg_port_update parse_u16)"
  "map_of option_fields ''--config'' = Some (once_field arg_config arg_config_update Some)"
  "map_of option_fields ''--log-file'' = Some (once_field arg_log_file arg_log_file_update Some)"
  "map_of option_fields ''--bind'' = Some (once_field arg_bind arg_bind_update parse_ip)"
  "map_of option_fields ''--host-key-passphrase'' = Some (once_field arg_host_key_passphrase arg_host_key_passphrase_update Some)"
  "map_of option_fields ''--password'' = Some (once_field arg_password arg_password_update Some)"
  "map_of option_fields ''--shell'' = Some (once_field arg_shell arg_shell_update Some)"
  "map_of option_fields ''--sftp-root'' = Some (once_field arg_sftp_root arg_sftp_root_update Some)"
  "map_of option_fields ''--login-grace'' = Some (once_field arg_login_grace arg_login_grace_update parse_u64)"
  "map_of option_fields ''--max-startups'' = Some (once_field arg_max_startups arg_max_startups_update parse_u32)"
  "map_of option_fields ''--devtunnel-id'' = Some (once_field arg_devtunnel_id arg_devtunnel_id_update Some)"
  "map_of option_fields ''--devtunnel-bin'' = Some (once_field arg_devtunnel_bin arg_devtunnel_bin_update Some)"
  "map_of option_fields ''--devtunnel-timeout'' = Some (once_field arg_devtunnel_timeout arg_devtunnel_timeout_update Some)"
  by (simp_all add: option_fields_def)

lemma list_lookups:
  "map_of option_fields ''--host-key'' = Some (many_field arg_host_key_update)"
  "map_of option_fields ''--authorized-keys'' = Some (many_field arg_authorized_keys_update)"
  "map_of option_fields ''--pubkey'' = Some (many_field arg_pubkey_update)"
  "map_of option_fields ''--allow-user'' = Some (many_field arg_allow_user_update)"
  "map_of option_fields ''--devtunnel-label'' = Some (many_field arg_devtunnel_label_update)"
  by (simp_all add: option_fields_def)

text \<open>One segment of the options at a time: a switch, an option, a repeated option.\<close>

lemma apply_switch:
  assumes "field_ok get put" and "map_of switch_fields name = Some put" and "\<not> get a"
  shows "apply_items (switch_items name b @ is) a = apply_items is (put (\<lambda>_. b) a)"
  using assms(2,3) field_unchanged [OF assms(1), of a False] by (cases b) (simp_all add: switch_items_def)

lemma apply_option:
  assumes "field_ok get put" and "map_of option_fields name = Some (once_field get put from_str)" and "get a = None"
    and "\<And>x. v = Some x \<Longrightarrow> from_str (show_value x) = Some x"
  shows "apply_items (option_items name (map_option show_value v) @ is) a = apply_items is (put (\<lambda>_. v) a)"
  using assms(2-4) field_unchanged [OF assms(1,3)]
  by (cases v) (simp_all add: option_items_def value_items_def once_field_def)

lemma apply_text:
  assumes "field_ok get put" and "map_of option_fields name = Some (once_field get put Some)" and "get a = None"
  shows "apply_items (option_items name v @ is) a = apply_items is (put (\<lambda>_. v) a)"
  using apply_option [OF assms, of v "\<lambda>x. x" "is"] by (simp add: option.map_ident)

lemma apply_values:
  assumes "field_ok get put" and "map_of option_fields name = Some (many_field put)"
  shows "apply_items (value_items name vs @ is) a = apply_items is (put (\<lambda>xs. xs @ vs) a)"
proof (induction vs arbitrary: a)
  case Nil
  show ?case using field_okD(2) [OF assms(1), of a] by (simp add: value_items_def)
next
  case (Cons v vs)
  have "apply_items (value_items name (v # vs) @ is) a = apply_items (value_items name vs @ is) (put (\<lambda>xs. xs @ [v]) a)"
    using assms(2) by (simp add: value_items_def many_field_def)
  then show ?case using field_okD(3) [OF assms(1), of "\<lambda>xs. xs @ vs" "\<lambda>xs. xs @ [v]" a] by (simp add: Cons.IH)
qed

lemmas apply_segments =
  apply_switch [OF bool_fields_ok(1) switch_lookups(1)]
  apply_switch [OF bool_fields_ok(2) switch_lookups(2)]
  apply_switch [OF bool_fields_ok(3) switch_lookups(3)]
  apply_switch [OF bool_fields_ok(4) switch_lookups(4)]
  apply_switch [OF bool_fields_ok(5) switch_lookups(5)]
  apply_switch [OF bool_fields_ok(6) switch_lookups(6)]
  apply_switch [OF bool_fields_ok(7) switch_lookups(7)]
  apply_switch [OF bool_fields_ok(8) switch_lookups(8)]
  apply_switch [OF bool_fields_ok(9) switch_lookups(9)]
  apply_option [OF option_fields_ok(1) option_lookups(1)]
  apply_text [OF option_fields_ok(2) option_lookups(2)]
  apply_text [OF option_fields_ok(3) option_lookups(3)]
  apply_option [OF option_fields_ok(4) option_lookups(4)]
  apply_text [OF option_fields_ok(5) option_lookups(5)]
  apply_text [OF option_fields_ok(6) option_lookups(6)]
  apply_text [OF option_fields_ok(7) option_lookups(7)]
  apply_text [OF option_fields_ok(8) option_lookups(8)]
  apply_option [OF option_fields_ok(9) option_lookups(9)]
  apply_option [OF option_fields_ok(10) option_lookups(10)]
  apply_text [OF option_fields_ok(11) option_lookups(11)]
  apply_text [OF option_fields_ok(12) option_lookups(12)]
  apply_text [OF option_fields_ok(13) option_lookups(13)]
  apply_values [OF list_fields_ok(1) list_lookups(1)]
  apply_values [OF list_fields_ok(2) list_lookups(2)]
  apply_values [OF list_fields_ok(3) list_lookups(3)]
  apply_values [OF list_fields_ok(4) list_lookups(4)]
  apply_values [OF list_fields_ok(5) list_lookups(5)]

text \<open>The arguments that come back: those saved, with absolute paths, and none of the flags that only
  concern the command that saved them.\<close>

definition saved_form :: "(path \<Rightarrow> path) \<Rightarrow> args \<Rightarrow> args" where
  "saved_form absolute a =
     a\<lparr>arg_host_key := map absolute (arg_host_key a), arg_config := map_option absolute (arg_config a),
       arg_log_file := map_option absolute (arg_log_file a), arg_authorized_keys := map absolute (arg_authorized_keys a),
       arg_sftp_root := map_option absolute (arg_sftp_root a), arg_devtunnel_bin := map_option absolute (arg_devtunnel_bin a),
       arg_check := False, arg_version := False, arg_service_run := False, arg_command := None\<rparr>"

lemma parse_show:
  "parse_u16 (show_nat (unat p)) = Some p" "parse_u32 (show_nat (unat m)) = Some m" "parse_u64 (show_nat (unat n)) = Some n"
proof -
  have "unat p < 2 ^ 16" "unat m < 2 ^ 32" "unat n < 2 ^ 64" by (rule order_less_le_trans [OF unsigned_less], simp)+
  then show "parse_u16 (show_nat (unat p)) = Some p" "parse_u32 (show_nat (unat m)) = Some m"
      "parse_u64 (show_nat (unat n)) = Some n"
    by (simp_all add: parse_u16_def parse_u32_def parse_u64_def parse_uint_show)
qed

lemma apply_saved:
  assumes "\<And>ip. arg_bind a = Some ip \<Longrightarrow> parse_ip (show_ip ip) = Some ip"
  shows "apply_items (saved_items show_ip absolute a) args_empty = Some (saved_form absolute a)"
proof -
  note last_segment = apply_option [OF option_fields_ok(10) option_lookups(10), where ?is = "[]", simplified]
  show ?thesis
    by (cases a) (use assms in \<open>simp add: saved_items_all apply_segments last_segment args_empty_def parse_show saved_form_def\<close>)
qed

lemma parse_saved:
  assumes "argh_contract parse" and "startup_args po show_ip cwd a = Inr opts"
    and "\<And>ip. arg_bind a = Some ip \<Longrightarrow> parse_ip (show_ip ip) = Some ip"
  shows "parse opts = Inr (saved_form (absolute_path po cwd) a)"
  using assms(1) apply_saved [OF assms(3)] startup_args_words [OF assms(2)]
  by (simp add: argh_contract_def item_words_def)

section \<open>From the command that enables to the service that runs\<close>

lemma manage_enable:
  assumes "manage Windows rg env ActEnable opts w = (Some (es, Inr ()), w')"
  shows "\<exists>exe console. enable rg exe console opts w = (Inr (), w')"
  using assms by (auto simp: manage_def windows_manage_def says_Inr Let_def split: sum.splits)

lemma enabling_words_of:
  assumes "dispatch_command Windows saved parse po show_ip cwd a = RunService ActEnable opts"
  shows "startup_args po show_ip cwd a = Inr opts"
  using assms
  by (auto simp: dispatch_command_def manage_service_def rbind_def
      split: if_splits sum.splits option.splits command.splits service_command.splits)

lemma enabled_saved:
  assumes "registry_ok rg look" and "dispatch_command Windows saved parse po show_ip cwd a = RunService ActEnable opts"
    and "[] \<notin> set opts" and "manage Windows rg env ActEnable opts w = (Some (es, Inr ()), w')"
  shows "startup_args po show_ip cwd a = Inr opts" and "saved_args rg w' = Inr opts"
    and "configured_log_path rg w' = Inr (log_file_of opts)"
proof -
  show "startup_args po show_ip cwd a = Inr opts"
    by (rule enabling_words_of [OF assms(2)])
  show saved: "saved_args rg w' = Inr opts"
    using manage_enable [OF assms(4)] enable_roundtrip [OF assms(1,3)] by blast
  then show "configured_log_path rg w' = Inr (log_file_of opts)"
    by (auto simp: saved_args_def configured_log_path_def rbind_eq_Inr ok_or_def split: option.splits)
qed

lemma service_dispatch:
  assumes "saved = Inr words" and "parse words = Inr a'" and "arg_service_run b" and "\<not> arg_version b"
  shows "dispatch_command Windows saved parse po show_ip cwd b = RunServer a' True"
  using assms by (simp add: dispatch_command_def parse_saved_service_args_def map_error_def)

lemma enabled_dispatch:
  assumes "registry_ok rg look" and "argh_contract parse"
    and "dispatch_command Windows saved parse po show_ip cwd a = RunService ActEnable opts" and "[] \<notin> set opts"
    and "manage Windows rg env ActEnable opts w = (Some (es, Inr ()), w')"
    and "\<And>ip. arg_bind a = Some ip \<Longrightarrow> parse_ip (show_ip ip) = Some ip"
    and "arg_service_run b" and "\<not> arg_version b"
  shows "dispatch_command Windows (saved_args rg w') parse po show_ip cwd' b =
    RunServer (saved_form (absolute_path po cwd) a) True"
proof -
  note e = enabled_saved [OF assms(1,3,4,5)]
  have "parse opts = Inr (saved_form (absolute_path po cwd) a)" using parse_saved [OF assms(2) e(1) assms(6)] .
  then show ?thesis by (rule service_dispatch [where words = opts and parse = parse, OF e(2) _ assms(7,8)])
qed

text \<open>
  C18. The service runs with the options it was enabled with: when \<open>service enable\<close> succeeded and none of
  the saved words is empty, the program started at login in service mode runs the server with the
  same arguments, every path made absolute, every number and address read back as it was, and
  without the flags that concern the command line only.
\<close>

theorem saved_options_roundtrip:
  assumes "registry_ok rg look" and "argh_contract parse"
    and "dispatch_command Windows saved parse po show_ip cwd a = RunService ActEnable opts" and "[] \<notin> set opts"
    and "manage Windows rg env ActEnable opts w = (Some (es, Inr ()), w')"
    and "\<And>ip. arg_bind a = Some ip \<Longrightarrow> parse_ip (show_ip ip) = Some ip"
    and "arg_service_run b" and "\<not> arg_version b"
  shows "dispatch_command Windows (saved_args rg w') parse po show_ip cwd' b =
    RunServer (saved_form (absolute_path po cwd) a) True"
  by (rule enabled_dispatch [OF assms])

section \<open>A parser\<close>

text \<open>The contract can be met: reading the words from the left.\<close>

definition switch_named :: "str \<Rightarrow> ((bool \<Rightarrow> bool) \<Rightarrow> args \<Rightarrow> args) option" where
  "switch_named w = map_of (map (\<lambda>(n, put). (lit n, put)) switch_fields) w"

definition option_named :: "str \<Rightarrow> (str \<Rightarrow> args \<Rightarrow> args option) option" where
  "option_named w = map_of (map (\<lambda>(n, set_field). (lit n, set_field)) option_fields) w"

fun read_words :: "str list \<Rightarrow> args \<Rightarrow> str + args" where
  "read_words [] a = Inr a"
| "read_words (w # ws) a =
     (case switch_named w of
        Some put \<Rightarrow> read_words ws (put (\<lambda>_. True) a)
      | None \<Rightarrow>
          (case ws of
             [] \<Rightarrow> Inl (lit ''No value provided for option'')
           | v # ws' \<Rightarrow>
               (case option_named w of
                  None \<Rightarrow> Inl (lit ''Unrecognized argument'')
                | Some set_field \<Rightarrow>
                    (case set_field v a of None \<Rightarrow> Inl (lit ''Error parsing option'') | Some a' \<Rightarrow> read_words ws' a'))))"

lemma inj_lit: "inj lit"
  by (auto simp: lit_def inj_def inj_map_eq_map)

lemma map_of_inj: "inj f \<Longrightarrow> map_of (map (\<lambda>(n, x). (f n, x)) xs) (f k) = map_of xs k"
  by (induction xs) (auto dest: injD)

lemma named:
  "switch_named (lit n) = map_of switch_fields n" "option_named (lit n) = map_of option_fields n"
  by (simp_all add: switch_named_def option_named_def map_of_inj [OF inj_lit])

lemma option_not_switch: "map_of option_fields n = Some f \<Longrightarrow> map_of switch_fields n = None"
  by (auto simp: option_fields_def switch_fields_def split: if_splits)

lemma read_items:
  "apply_items is a = Some a' \<Longrightarrow> read_words (concat (map item_tokens is)) a = Inr a'"
proof (induction "is" arbitrary: a)
  case (Cons i "is")
  show ?case
  proof (cases i)
    case (ItemSwitch n)
    then show ?thesis using Cons by (auto simp: named split: option.splits)
  next
    case (ItemOption n v)
    then show ?thesis using Cons by (auto simp: named option_not_switch split: option.splits)
  qed
qed simp

lemma read_words_contract: "argh_contract (\<lambda>ws. read_words ws args_empty)"
  by (simp add: argh_contract_def read_items)

section \<open>Where the log is\<close>

lemma log_file_of_Cons: "w \<noteq> lit ''--log-file'' \<Longrightarrow> log_file_of (w # ws) = log_file_of ws"
  by (cases ws) simp_all

lemma log_file_of_absent: "lit ''--log-file'' \<notin> set ws \<Longrightarrow> log_file_of ws = None"
  by (induction ws) (auto simp: log_file_of_Cons)

lemma log_file_of_first: "lit ''--log-file'' \<notin> set ws \<Longrightarrow> log_file_of (ws @ lit ''--log-file'' # v # rest) = Some v"
  by (induction ws) (auto simp: log_file_of_Cons)

lemma log_file_saved:
  assumes "opts = item_words (saved_items show_ip absolute a)"
    and "count_list opts (lit ''--log-file'') = length (opt_list (arg_log_file a))"
  shows "log_file_of opts = map_option absolute (arg_log_file a)"
proof (cases "arg_log_file a")
  case None
  then show ?thesis using assms(2) by (simp add: count_list_0_iff log_file_of_absent)
next
  case (Some p)
  then have "opts = item_words (items_before show_ip absolute a) @
      lit ''--log-file'' # absolute p # item_words (items_after show_ip absolute a)"
    using assms(1) by (simp add: saved_items_def item_words_append) (simp add: item_words_def option_items_def value_items_def)
  moreover have "lit ''--log-file'' \<notin> set (item_words (items_before show_ip absolute a))"
    using assms(2) calculation Some by (simp add: count_list_0_iff [symmetric])
  ultimately show ?thesis using Some by (simp add: log_file_of_first)
qed

lemma service_log_target:
  assumes "init_logging os home le a True = Inr lset"
  shows "case ls_target lset of
       LogAppend p \<Rightarrow> arg_log_file a = Some p
     | LogRolling d \<Rightarrow> arg_log_file a = None \<and> default_log_directory os home (le_create_dir le) = Inr d
     | LogStderr \<Rightarrow> False"
proof (cases "arg_log_file a")
  case None
  then obtain d where "default_log_directory os home (le_create_dir le) = Inr d"
    using assms by (auto simp: init_logging_def rbind_eq_Inr)
  with None show ?thesis using assms by (cases "le_rolling le d") (auto simp: init_logging_def)
next
  case (Some p)
  then show ?thesis using assms by (cases "le_append le p") (auto simp: init_logging_def)
qed

lemma run_server_logs:
  assumes "run_server env service_mode a w = (es, r, w')" and "AppLogTo lset \<in> set es"
  shows "init_logging (rn_platform env) (rn_home env) (rn_logging env) a (service_mode \<and> rn_platform env = Windows) = Inr lset"
proof -
  have stopped: "AppLogTo lset \<notin> set (fst (until_stopped env service))" for service
    by (auto simp: until_stopped_def split: option.split)
  have serve: "AppLogTo lset \<notin> set es1" if "serve_until_stopped env service a w = (es1, r1, w1)" for service es1 r1 w1
    using that stopped [of service]
    by (auto simp: serve_until_stopped_def Let_def split: sum.splits prod.splits option.splits)
  have ends: "AppLogTo lset \<notin> set (run_end service x)" for service x
    by (auto simp: run_end_def split: option.splits sum.splits)
  define service where "service = (service_mode \<and> rn_platform env = Windows)"
  show ?thesis
    using assms ends unfolding service_def [symmetric]
    by (auto simp: run_server_def service_def [symmetric] Let_def dest: serve split: sum.splits prod.splits)
qed

text \<open>
  C34. \<open>service logs\<close> shows the log the service writes: after a successful \<open>service enable\<close> whose options
  have no empty word and mention the word \<open>--log-file\<close> only as that option, the program that the
  next login starts in service mode runs the server with some arguments, and the log that run sets
  up is either the file the log command finds among the saved options, to which it appends, or,
  without that option, daily files in the directory the command looks in; it never is standard
  error.
\<close>

theorem service_logs_found:
  assumes "registry_ok rg look" and "argh_contract parse"
    and "dispatch_command Windows saved parse po show_ip cwd a = RunService ActEnable opts" and "[] \<notin> set opts"
    and "manage Windows rg env ActEnable opts w = (Some (es, Inr ()), w')"
    and "\<And>ip. arg_bind a = Some ip \<Longrightarrow> parse_ip (show_ip ip) = Some ip"
    and "count_list opts (lit ''--log-file'') = length (opt_list (arg_log_file a))"
    and "arg_service_run b" and "\<not> arg_version b"
  shows "\<exists>a' explicit. dispatch_command Windows (saved_args rg w') parse po show_ip cwd' b = RunServer a' True \<and>
    configured_log_path rg w' = Inr explicit \<and>
    (\<forall>rn fs es' r fs' lset. rn_platform rn = Windows \<longrightarrow> run_server rn True a' fs = (es', r, fs') \<longrightarrow>
       AppLogTo lset \<in> set es' \<longrightarrow>
       (case ls_target lset of
          LogAppend p \<Rightarrow> explicit = Some p
        | LogRolling d \<Rightarrow> explicit = None \<and> default_log_directory Windows (rn_home rn) (le_create_dir (rn_logging rn)) = Inr d
        | LogStderr \<Rightarrow> False))"
proof -
  let ?a = "saved_form (absolute_path po cwd) a"
  note e = enabled_saved [OF assms(1,3-5)]
  have c: "configured_log_path rg w' = Inr (arg_log_file ?a)"
    using e(3) log_file_saved [OF startup_args_words [OF e(1)] assms(7)] by (simp add: saved_form_def)
  have t: "case ls_target lset of
        LogAppend p \<Rightarrow> arg_log_file ?a = Some p
      | LogRolling d \<Rightarrow> arg_log_file ?a = None \<and> default_log_directory Windows (rn_home rn) (le_create_dir (rn_logging rn)) = Inr d
      | LogStderr \<Rightarrow> False"
    if "rn_platform rn = Windows" "run_server rn True ?a fs = (es', r, fs')" "AppLogTo lset \<in> set es'"
    for rn fs es' r fs' lset
    using run_server_logs [OF that(2,3)] that(1) by (auto dest: service_log_target)
  show ?thesis
    by (intro exI [of _ ?a] exI [of _ "arg_log_file ?a"] conjI allI impI
        enabled_dispatch [OF assms(1-6,8,9)] c t)
qed

section \<open>Empty values\<close>

text \<open>The options with an empty password followed by \<open>--no-forward\<close>, read without the empty word, are the
  options with \<open>--no-forward\<close> as the password.\<close>

definition shifted_args :: "args \<Rightarrow> args" where
  "shifted_args a = a\<lparr>arg_password := Some (lit ''--no-forward''), arg_no_forward := False\<rparr>"

definition password_then_no_forward :: "args \<Rightarrow> bool" where
  "password_then_no_forward a \<longleftrightarrow>
     arg_password a = Some [] \<and> arg_authorized_keys a = [] \<and> arg_pubkey a = [] \<and> arg_shell a = None \<and>
     arg_sftp_root a = None \<and> \<not> arg_strict_user a \<and> arg_allow_user a = [] \<and> arg_no_forward a"

lemma filter_one_empty:
  assumes "count_list (xs @ [] # ys) [] = 1"
  shows "filter (\<lambda>x. x \<noteq> []) (xs @ [] # ys) = xs @ ys"
proof -
  have "[] \<notin> set xs" "[] \<notin> set ys" using assms by (auto simp: count_list_0_iff)
  then have "filter (\<lambda>x. x \<noteq> []) xs = xs" "filter (\<lambda>x. x \<noteq> []) ys = ys" by (auto intro!: filter_True)
  then show ?thesis by simp
qed

lemma shifted_words:
  assumes "password_then_no_forward a" and "count_list (item_words (saved_items show_ip absolute a)) [] = 1"
  shows "filter (\<lambda>x. x \<noteq> []) (item_words (saved_items show_ip absolute a)) =
    item_words (saved_items show_ip absolute (shifted_args a))"
proof -
  define xs where "xs =
    item_words (items_before show_ip absolute a @ option_items ''--log-file'' (map_option absolute (arg_log_file a)) @
      switch_items ''--debug'' (arg_debug a) @ switch_items ''--verbose'' (arg_verbose a) @
      switch_items ''--quiet'' (arg_quiet a) @ option_items ''--bind'' (map_option show_ip (arg_bind a)) @
      option_items ''--host-key-passphrase'' (arg_host_key_passphrase a)) @ [lit ''--password'']"
  define ys where "ys =
    lit ''--no-forward'' # item_words (option_items ''--login-grace'' (map_option (\<lambda>n. show_nat (unat n)) (arg_login_grace a)) @
      option_items ''--max-startups'' (map_option (\<lambda>n. show_nat (unat n)) (arg_max_startups a)))"
  note none = item_words_def option_items_def value_items_def switch_items_def
  have a: "item_words (saved_items show_ip absolute a) = xs @ [] # ys"
    using assms(1) by (simp add: password_then_no_forward_def saved_items_def items_after_def xs_def ys_def item_words_append)
      (simp add: none)
  moreover have "item_words (saved_items show_ip absolute (shifted_args a)) = xs @ ys"
    using assms(1) by (simp add: password_then_no_forward_def saved_items_def items_before_def items_after_def xs_def ys_def
        item_words_append shifted_args_def) (simp add: none)
  ultimately show ?thesis using filter_one_empty [of xs ys] assms(2) by simp
qed

text \<open>
  C37. An empty option value is not kept: when launch at login is enabled with an empty password, with
  \<open>--no-forward\<close> as the next option that is saved and with no other empty word, the program that the
  next login starts runs the server with \<open>--no-forward\<close> as its password and with forwarding not
  switched off; everything else is as it was saved. Of the registry it takes that a list of
  strings is read back with at least its strings that are not empty.
\<close>

theorem empty_option_value_lost:
  assumes "registry_ok rg look" and "multi_keeps_words rg look" and "argh_contract parse"
    and "dispatch_command Windows saved parse po show_ip cwd a = RunService ActEnable opts"
    and "password_then_no_forward a" and "count_list opts [] = 1"
    and "manage Windows rg env ActEnable opts w = (Some (es, Inr ()), w')"
    and "\<And>ip. arg_bind a = Some ip \<Longrightarrow> parse_ip (show_ip ip) = Some ip"
    and "arg_service_run b" and "\<not> arg_version b"
  shows "dispatch_command Windows (saved_args rg w') parse po show_ip cwd' b =
    RunServer (saved_form (absolute_path po cwd)
      (a\<lparr>arg_password := Some (lit ''--no-forward''), arg_no_forward := False\<rparr>)) True"
proof -
  have words: "opts = item_words (saved_items show_ip (absolute_path po cwd) a)"
    by (rule startup_args_words [OF enabling_words_of [OF assms(4)]])
  have "saved_args rg w' = Inr (filter (\<lambda>x. x \<noteq> []) opts)"
    using manage_enable [OF assms(7)] enable_saves_words [OF assms(1,2)] by blast
  then have saved: "saved_args rg w' = Inr (item_words (saved_items show_ip (absolute_path po cwd) (shifted_args a)))"
    using shifted_words [OF assms(5)] assms(6) words by simp
  have "apply_items (saved_items show_ip (absolute_path po cwd) (shifted_args a)) args_empty =
      Some (saved_form (absolute_path po cwd) (shifted_args a))"
    by (rule apply_saved) (simp add: shifted_args_def assms(8))
  then have "parse (item_words (saved_items show_ip (absolute_path po cwd) (shifted_args a))) =
      Inr (saved_form (absolute_path po cwd) (shifted_args a))"
    using assms(3) by (simp add: argh_contract_def item_words_def)
  from service_dispatch [where parse = parse, OF saved this assms(9,10)] show ?thesis unfolding shifted_args_def .
qed

section \<open>An example\<close>

definition enabling_args :: args where
  "enabling_args = args_empty\<lparr>arg_port := Some 2022, arg_log_file := Some (lit ''logs/s.log''), arg_no_forward := True,
     arg_command := Some (CmdService SvcEnable)\<rparr>"

definition enabling_words :: "str list" where
  "enabling_words = [lit ''--port'', lit ''2022'', lit ''--log-file'', lit ''/srv/logs/s.log'', lit ''--no-forward'']"

definition login_args :: args where
  "login_args = args_empty\<lparr>arg_service_run := True\<rparr>"

definition parser :: "str list \<Rightarrow> str + args" where
  "parser ws = read_words ws args_empty"

lemma enabling_dispatch:
  "dispatch_command Windows (Inl []) parser unix_paths (\<lambda>_. []) (Some (lit ''/srv'')) enabling_args =
     RunService ActEnable enabling_words"
  by (simp add: dispatch_command_def manage_service_def startup_args_def enabling_args_def args_empty_def enabling_words_def
      push_switch_def push_option_def push_all_def push_path_option_def unix_paths_def show_nat.simps text_eval Let_def)

lemma enabling_words_nonempty: "[] \<notin> set enabling_words"
  by (simp add: enabling_words_def text_eval)

theorem saved_options_roundtrip_witness:
  "\<exists>w'. dispatch_command Windows (saved_args demo_registry w') parser unix_paths (\<lambda>_. []) None login_args =
     RunServer (args_empty\<lparr>arg_port := Some 2022, arg_log_file := Some (lit ''/srv/logs/s.log''), arg_no_forward := True\<rparr>) True"
proof -
  obtain es w' where m: "manage Windows demo_registry demo_manage ActEnable enabling_words Map.empty = (Some (es, Inr ()), w')"
    using demo_managed by blast
  have c: "argh_contract parser" using read_words_contract unfolding parser_def .
  have "saved_form (absolute_path unix_paths (Some (lit ''/srv''))) enabling_args =
      args_empty\<lparr>arg_port := Some 2022, arg_log_file := Some (lit ''/srv/logs/s.log''), arg_no_forward := True\<rparr>"
    by (simp add: saved_form_def enabling_args_def args_empty_def absolute_path_def unix_paths_def text_eval Let_def)
  then show ?thesis
    using saved_options_roundtrip [OF demo_registry_ok c enabling_dispatch enabling_words_nonempty m, of login_args None]
    by (auto simp: enabling_args_def args_empty_def login_args_def)
qed

theorem service_logs_found_witness:
  "\<exists>w' a'. dispatch_command Windows (saved_args demo_registry w') parser unix_paths (\<lambda>_. []) None login_args = RunServer a' True \<and>
     configured_log_path demo_registry w' = Inr (Some (lit ''/srv/logs/s.log''))"
proof -
  obtain es w' where m: "manage Windows demo_registry demo_manage ActEnable enabling_words Map.empty = (Some (es, Inr ()), w')"
    using demo_managed by blast
  have c: "argh_contract parser" using read_words_contract unfolding parser_def .
  have n: "count_list enabling_words (lit ''--log-file'') = length (opt_list (arg_log_file enabling_args))"
    by (simp add: enabling_words_def enabling_args_def text_eval)
  have "log_file_of enabling_words = Some (lit ''/srv/logs/s.log'')"
    by (simp add: enabling_words_def text_eval)
  then have "configured_log_path demo_registry w' = Inr (Some (lit ''/srv/logs/s.log''))"
    using enabled_saved(3) [OF demo_registry_ok enabling_dispatch enabling_words_nonempty m] by simp
  with service_logs_found [OF demo_registry_ok c enabling_dispatch enabling_words_nonempty m _ n, of login_args None] show ?thesis
    by (fastforce simp: enabling_args_def args_empty_def login_args_def)
qed

definition open_args :: args where
  "open_args = args_empty\<lparr>arg_password := Some [], arg_no_forward := True, arg_command := Some (CmdService SvcEnable)\<rparr>"

definition open_words :: "str list" where
  "open_words = [lit ''--password'', [], lit ''--no-forward'']"

lemma open_dispatch:
  "dispatch_command Windows (Inl []) parser unix_paths (\<lambda>_. []) (Some (lit ''/srv'')) open_args = RunService ActEnable open_words"
  by (simp add: dispatch_command_def manage_service_def startup_args_def open_args_def args_empty_def open_words_def
      push_switch_def push_option_def push_all_def Let_def)

theorem empty_option_value_lost_witness:
  "\<exists>w'. dispatch_command Windows (saved_args demo_registry w') parser unix_paths (\<lambda>_. []) None login_args =
     RunServer (args_empty\<lparr>arg_password := Some (lit ''--no-forward'')\<rparr>) True"
proof -
  obtain es w' where m: "manage Windows demo_registry demo_manage ActEnable open_words Map.empty = (Some (es, Inr ()), w')"
    using demo_managed by blast
  have c: "argh_contract parser" using read_words_contract unfolding parser_def .
  have p: "password_then_no_forward open_args" by (simp add: password_then_no_forward_def open_args_def args_empty_def)
  have n: "count_list open_words [] = 1" by (simp add: open_words_def text_eval)
  show ?thesis
    using empty_option_value_lost [OF demo_registry_ok demo_registry_words c open_dispatch p n m, of login_args None]
    by (auto simp: open_args_def args_empty_def login_args_def saved_form_def)
qed

end
