(* ===== verification/Watch.thy ===== *)
theory Watch
  imports Retry
begin

text \<open>
  The Windows half of \<open>devtunnel/network.rs\<close>: the registration for network change notifications, which
  hands the system a raw pointer to a boxed sender. The operations are the code's, as the memory
  and system calls they make; what the system may do with a registration (run the callback on its
  own threads until a cancellation succeeds) is the step relation.
\<close>

section \<open>The registration\<close>

record registration =
  re_handle :: u64
  re_context :: "nat option"

text \<open>Contexts, the boxed senders, are addresses; the channel of a sender is known by its address, and
  \<open>RxDrop\<close> is the end of the channel's one receiver. A call carries its result: \<open>NotifyIpInterfaceChange\<close> an error code and the
  handle it stores, \<open>CancelMibChangeNotify2\<close> an error code.\<close>

datatype watch_effect =
    CtxAlloc nat
  | NotifyCall nat u32 u64
  | CancelCall u64 u32
  | CtxFree nat
  | CtxLeak nat
  | RxDrop nat
  | WatchWarning u32

text \<open>On an error the locals go in reverse order: the context with its sender, then the receiver.\<close>

definition registration_new :: "nat \<Rightarrow> u32 \<Rightarrow> u64 \<Rightarrow> watch_effect list \<times> (u32 + registration \<times> nat)" where
  "registration_new a err h =
     (if err \<noteq> 0 then ([CtxAlloc a, NotifyCall a err h, CtxFree a, RxDrop a], Inl err)
      else ([CtxAlloc a, NotifyCall a err h], Inr (\<lparr>re_handle = h, re_context = Some a\<rparr>, a)))"

text \<open>Dropping the fields after \<open>drop\<close> frees the context unless it was taken out and leaked.\<close>

definition registration_drop :: "u32 \<Rightarrow> registration \<Rightarrow> watch_effect list" where
  "registration_drop err reg =
     CancelCall (re_handle reg) err #
     (if err \<noteq> 0
      then (case re_context reg of Some a \<Rightarrow> [CtxLeak a] | None \<Rightarrow> []) @ [WatchWarning err]
      else (case re_context reg of Some a \<Rightarrow> [CtxFree a] | None \<Rightarrow> []))"

text \<open>The callback reads its context and sends the time; a sender that is gone is undefined behaviour, here
  \<open>None\<close>. A send on a channel whose receiver is gone fails and keeps the old value; the failure is
  ignored.\<close>

definition changed ::
  "nat set \<Rightarrow> nat set \<Rightarrow> (nat \<Rightarrow> instant option) \<Rightarrow> nat \<Rightarrow> instant \<Rightarrow> (nat \<Rightarrow> instant option) option" where
  "changed live receivers latest a now =
     (if a \<notin> live then None
      else if a \<in> receivers then Some (latest(a := Some now)) else Some latest)"

text \<open>\<open>NetworkChanges::new\<close> on Windows: without a registration the waits are timed only. The watcher holds
  the receiver and the registration, and drops them in that order, the order of its fields.\<close>

definition network_watch ::
  "nat \<Rightarrow> u32 \<Rightarrow> u64 \<Rightarrow> instant \<Rightarrow> watch_effect list \<times> (registration \<times> nat) option \<times> network_changes" where
  "network_watch a err h now =
     (case registration_new a err h of
        (es, Inr held) \<Rightarrow> (es, Some held, begin_wait (network_new True now))
      | (es, Inl e) \<Rightarrow> (es @ [WatchWarning e], None, begin_wait (network_new False now)))"

definition network_drop :: "u32 \<Rightarrow> registration \<times> nat \<Rightarrow> watch_effect list" where
  "network_drop err held = RxDrop (snd held) # registration_drop err (fst held)"

section \<open>The program and the system's callbacks\<close>

record watch_machine =
  wm_live :: "nat set"
  wm_receivers :: "nat set"
  wm_registered :: "u64 \<rightharpoonup> nat"
  wm_running :: "(u64 \<times> nat) list"
  wm_latest :: "nat \<Rightarrow> instant option"
  wm_todo :: "watch_effect list"
  wm_held :: "(registration \<times> nat) option"

definition watch_init :: watch_machine where
  "watch_init =
     \<lparr>wm_live = {}, wm_receivers = {}, wm_registered = Map.empty, wm_running = [], wm_latest = (\<lambda>_. None),
      wm_todo = [], wm_held = None\<rparr>"

text \<open>The heap gives an address not in use, the system a handle not in use; a cancellation that succeeds has
  waited for the callbacks under way.\<close>

fun watch_allows :: "watch_machine \<Rightarrow> watch_effect \<Rightarrow> bool" where
  "watch_allows s (CtxAlloc a) = (a \<notin> wm_live s)"
| "watch_allows s (NotifyCall a err h) = (err = 0 \<longrightarrow> wm_registered s h = None)"
| "watch_allows s (CancelCall h err) = (err = 0 \<longrightarrow> h \<notin> fst ` set (wm_running s))"
| "watch_allows s _ = True"

fun watch_perform :: "watch_effect \<Rightarrow> watch_machine \<Rightarrow> watch_machine" where
  "watch_perform (CtxAlloc a) s =
     s\<lparr>wm_live := insert a (wm_live s), wm_receivers := insert a (wm_receivers s), wm_latest := (wm_latest s)(a := None)\<rparr>"
| "watch_perform (NotifyCall a err h) s = (if err = 0 then s\<lparr>wm_registered := (wm_registered s)(h \<mapsto> a)\<rparr> else s)"
| "watch_perform (CancelCall h err) s = (if err = 0 then s\<lparr>wm_registered := (wm_registered s)(h := None)\<rparr> else s)"
| "watch_perform (CtxFree a) s = s\<lparr>wm_live := wm_live s - {a}\<rparr>"
| "watch_perform (RxDrop a) s = s\<lparr>wm_receivers := wm_receivers s - {a}\<rparr>"
| "watch_perform _ s = s"

inductive watch_step :: "watch_machine \<Rightarrow> watch_machine \<Rightarrow> bool" where
  watch_news: "wm_todo s = [] \<Longrightarrow> wm_held s = None \<Longrightarrow> network_watch a err h now = (es, held, n) \<Longrightarrow>
    watch_step s (s\<lparr>wm_todo := es, wm_held := held\<rparr>)"
| watch_drops: "wm_todo s = [] \<Longrightarrow> wm_held s = Some held \<Longrightarrow>
    watch_step s (s\<lparr>wm_todo := network_drop err held, wm_held := None\<rparr>)"
| watch_acts: "wm_todo s = e # rest \<Longrightarrow> watch_allows s e \<Longrightarrow> watch_step s ((watch_perform e s)\<lparr>wm_todo := rest\<rparr>)"
| callback_enters: "wm_registered s h = Some a \<Longrightarrow> watch_step s (s\<lparr>wm_running := (h, a) # wm_running s\<rparr>)"
| callback_sends: "x \<in> set (wm_running s) \<Longrightarrow> changed (wm_live s) (wm_receivers s) (wm_latest s) (snd x) now = Some l \<Longrightarrow>
    watch_step s (s\<lparr>wm_latest := l, wm_running := remove1 x (wm_running s)\<rparr>)"

section \<open>No callback without its context\<close>

text \<open>Where the program is: between operations, or in the middle of one.\<close>

fun watch_at ::
  "nat set \<Rightarrow> nat set \<Rightarrow> (u64 \<rightharpoonup> nat) \<Rightarrow> watch_effect list \<Rightarrow> (registration \<times> nat) option \<Rightarrow> bool" where
  "watch_at live rx reg [] None = (rx = {})"
| "watch_at live rx reg [] (Some (r, a)) = (re_context r = Some a \<and> reg (re_handle r) = Some a \<and> rx = {a})"
| "watch_at live rx reg (CtxAlloc a # NotifyCall b err h # es) held =
     (b = a \<and> rx = {} \<and> (if err = 0 then es = [] \<and> held = Some (\<lparr>re_handle = h, re_context = Some a\<rparr>, a)
      else (\<exists>e. es = [CtxFree a, RxDrop a, WatchWarning e]) \<and> held = None))"
| "watch_at live rx reg (NotifyCall a err h # es) held =
     (a \<in> live \<and> rx = {a} \<and> a \<notin> ran reg \<and>
      (if err = 0 then es = [] \<and> held = Some (\<lparr>re_handle = h, re_context = Some a\<rparr>, a)
       else (\<exists>e. es = [CtxFree a, RxDrop a, WatchWarning e]) \<and> held = None))"
| "watch_at live rx reg (CancelCall h err # es) held =
     (held = None \<and> rx = {} \<and> (\<exists>a. reg h = Some a \<and>
        (if err = 0 then es = [CtxFree a] else es = [CtxLeak a, WatchWarning err])))"
| "watch_at live rx reg (RxDrop a # es) held =
     (held = None \<and> rx = {a} \<and> ((\<exists>e. es = [WatchWarning e]) \<or>
        (\<exists>h err. reg h = Some a \<and>
           es = CancelCall h err # (if err = 0 then [CtxFree a] else [CtxLeak a, WatchWarning err]))))"
| "watch_at live rx reg (CtxFree a # es) held =
     (held = None \<and> a \<notin> ran reg \<and> (es = [] \<and> rx = {} \<or> rx = {a} \<and> (\<exists>e. es = [RxDrop a, WatchWarning e])))"
| "watch_at live rx reg (CtxLeak a # es) held = (held = None \<and> rx = {} \<and> (\<exists>e. es = [WatchWarning e]))"
| "watch_at live rx reg (WatchWarning e # es) held = (held = None \<and> rx = {} \<and> es = [])"
| "watch_at live rx reg _ held = False"

definition watch_inv :: "watch_machine \<Rightarrow> bool" where
  "watch_inv s \<longleftrightarrow>
     ran (wm_registered s) \<subseteq> wm_live s \<and> inj_on (wm_registered s) (dom (wm_registered s)) \<and>
     (\<forall>(h, a) \<in> set (wm_running s). wm_registered s h = Some a) \<and>
     watch_at (wm_live s) (wm_receivers s) (wm_registered s) (wm_todo s) (wm_held s)"

lemma watch_acts_inv:
  assumes "watch_inv s" and "wm_todo s = e # rest" and "watch_allows s e"
  shows "watch_inv ((watch_perform e s)\<lparr>wm_todo := rest\<rparr>)"
proof (cases e)
  case (CtxAlloc a)
  then obtain err h es where "rest = NotifyCall a err h # es"
    using assms(1,2) by (cases rest; cases "hd rest") (auto simp: watch_inv_def)
  moreover have "a \<notin> ran (wm_registered s)" using assms CtxAlloc by (auto simp: watch_inv_def)
  ultimately show ?thesis using assms CtxAlloc by (auto simp: watch_inv_def)
next
  case (NotifyCall a err h)
  show ?thesis
  proof (cases "err = 0")
    case True
    have "h \<notin> fst ` set (wm_running s)" using assms True NotifyCall by (fastforce simp: watch_inv_def)
    moreover have "inj_on ((wm_registered s)(h \<mapsto> a)) (dom ((wm_registered s)(h \<mapsto> a)))"
      using assms True NotifyCall by (auto simp: watch_inv_def inj_on_def ran_def)
    ultimately show ?thesis
      using assms True NotifyCall by (fastforce simp: watch_inv_def)
  qed (use assms NotifyCall in \<open>auto simp: watch_inv_def\<close>)
next
  case (CancelCall h err)
  then obtain a where a: "wm_registered s h = Some a"
      "if err = 0 then rest = [CtxFree a] else rest = [CtxLeak a, WatchWarning err]" "wm_held s = None"
    using assms(1,2) by (auto simp: watch_inv_def)
  show ?thesis
  proof (cases "err = 0")
    case True
    have "a \<notin> ran ((wm_registered s)(h := None))"
      using assms(1) a(1) by (auto simp: watch_inv_def ran_def inj_on_def dom_def split: if_splits)
    moreover have "inj_on ((wm_registered s)(h := None)) (dom ((wm_registered s)(h := None)))"
      using assms(1) by (auto simp: watch_inv_def inj_on_def)
    moreover have "ran ((wm_registered s)(h := None)) \<subseteq> wm_live s"
      using assms(1) by (auto simp: watch_inv_def ran_def split: if_splits)
    ultimately show ?thesis
      using assms True CancelCall a by (force simp: watch_inv_def)
  qed (use assms CancelCall a in \<open>auto simp: watch_inv_def\<close>)
qed (use assms in \<open>auto simp: watch_inv_def\<close>)

lemma watch_step_inv: "watch_step s s' \<Longrightarrow> watch_inv s \<Longrightarrow> watch_inv s'"
proof (induction rule: watch_step.induct)
  case (watch_news s a err h now es held n)
  then show ?case
    by (auto simp: watch_inv_def network_watch_def registration_new_def split: if_splits)
next
  case (watch_drops s held err)
  then show ?case
    by (cases held) (auto simp: watch_inv_def network_drop_def registration_drop_def)
next
  case (watch_acts s e rest)
  then show ?case by (simp add: watch_acts_inv)
next
  case (callback_sends x s now l)
  then show ?case by (auto simp: watch_inv_def dest: set_remove1_subset [THEN subsetD])
qed (auto simp: watch_inv_def)

interpretation watch_system: reachable_system watch_step "\<lambda>s. s = watch_init" watch_inv
  by unfold_locales (simp add: watch_inv_def watch_init_def, rule watch_step_inv)

text \<open>
  C32. The callback never reads a context that was freed: in every interleaving of registrations, drops
  and callbacks on the system's threads, whatever calls fail, a callback that runs, or could be
  started, finds its sender alive, also when the cancellation fails and the program has moved on.
  While the watcher holds the registration, its time reaches the watcher; a callback that comes
  when the watcher is gone changes nothing.
\<close>

theorem callback_context_alive:
  assumes "watch_step\<^sup>*\<^sup>* watch_init s"
    and "(h, a) \<in> set (wm_running s) \<or> wm_registered s h = Some a"
  shows "\<exists>l. changed (wm_live s) (wm_receivers s) (wm_latest s) a now = Some l \<and>
    (\<forall>reg rx. wm_todo s = [] \<and> wm_held s = Some (reg, rx) \<and> re_handle reg = h \<longrightarrow> a = rx \<and> l rx = Some now) \<and>
    (wm_todo s = [] \<and> wm_held s = None \<longrightarrow> l = wm_latest s)"
  using watch_system.reached_inv [OF refl assms(1)] assms(2)
  by (fastforce simp: watch_inv_def changed_def ran_def)

text \<open>A watcher that holds its registration, and the state after the watcher was dropped and its cancellation
  failed.\<close>

definition demo_held :: watch_machine where
  "demo_held =
     watch_init\<lparr>wm_live := {4}, wm_receivers := {4}, wm_registered := [7 \<mapsto> 4],
       wm_held := Some (\<lparr>re_handle = 7, re_context = Some 4\<rparr>, 4)\<rparr>"

definition demo_watch :: watch_machine where
  "demo_watch = watch_init\<lparr>wm_live := {4}, wm_registered := [7 \<mapsto> 4]\<rparr>"

lemma demo_held_reached: "watch_step\<^sup>*\<^sup>* watch_init demo_held"
proof -
  let ?h = "(\<lparr>re_handle = 7, re_context = Some 4\<rparr>, 4)"
  have new: "network_watch 4 0 7 0 = ([CtxAlloc 4, NotifyCall 4 0 7], Some ?h, begin_wait (network_new True 0))"
    by (simp add: network_watch_def registration_new_def)
  define s0 where "s0 = watch_init\<lparr>wm_todo := [CtxAlloc 4, NotifyCall 4 0 7], wm_held := Some ?h\<rparr>"
  define s1 where "s1 = (watch_perform (CtxAlloc 4) s0)\<lparr>wm_todo := [NotifyCall 4 0 7]\<rparr>"
  define s2 where "s2 = (watch_perform (NotifyCall 4 0 7) s1)\<lparr>wm_todo := []\<rparr>"
  note states = s2_def s1_def s0_def watch_init_def
  have "watch_step watch_init s0" unfolding s0_def by (rule watch_news [OF _ _ new]) (simp_all add: watch_init_def)
  moreover have "watch_step s0 s1" unfolding s1_def by (rule watch_acts) (simp_all add: states)
  moreover have "watch_step s1 s2" unfolding s2_def by (rule watch_acts) (simp_all add: states)
  ultimately have "watch_step\<^sup>*\<^sup>* watch_init s2"
    by (meson rtranclp.rtrancl_into_rtrancl rtranclp.rtrancl_refl)
  moreover have "s2 = demo_held" by (simp add: demo_held_def states fun_eq_iff)
  ultimately show ?thesis by simp
qed

lemma demo_watch_reached: "watch_step\<^sup>*\<^sup>* watch_init demo_watch"
proof -
  let ?h = "(\<lparr>re_handle = 7, re_context = Some 4\<rparr>, 4)"
  have drop: "network_drop 5 ?h = [RxDrop 4, CancelCall 7 5, CtxLeak 4, WatchWarning 5]"
    by (simp add: network_drop_def registration_drop_def)
  define s3 where "s3 = demo_held\<lparr>wm_todo := network_drop 5 ?h, wm_held := None\<rparr>"
  define s4 where "s4 = (watch_perform (RxDrop 4) s3)\<lparr>wm_todo := [CancelCall 7 5, CtxLeak 4, WatchWarning 5]\<rparr>"
  define s5 where "s5 = (watch_perform (CancelCall 7 5) s4)\<lparr>wm_todo := [CtxLeak 4, WatchWarning 5]\<rparr>"
  define s6 where "s6 = (watch_perform (CtxLeak 4) s5)\<lparr>wm_todo := [WatchWarning 5]\<rparr>"
  define s7 where "s7 = (watch_perform (WatchWarning 5) s6)\<lparr>wm_todo := []\<rparr>"
  note states = s7_def s6_def s5_def s4_def s3_def demo_held_def watch_init_def
  have "watch_step demo_held s3" unfolding s3_def by (rule watch_drops) (simp_all add: states)
  moreover have "watch_step s3 s4" unfolding s4_def by (rule watch_acts) (simp_all add: states drop)
  moreover have "watch_step s4 s5" unfolding s5_def by (rule watch_acts) (simp_all add: states)
  moreover have "watch_step s5 s6" unfolding s6_def by (rule watch_acts) (simp_all add: states)
  moreover have "watch_step s6 s7" unfolding s7_def by (rule watch_acts) (simp_all add: states)
  ultimately have "watch_step\<^sup>*\<^sup>* watch_init s7"
    using demo_held_reached by (meson rtranclp.rtrancl_into_rtrancl)
  then show ?thesis by (simp add: demo_watch_def states)
qed

theorem callback_context_alive_witness:
  "(\<exists>l. changed (wm_live demo_held) (wm_receivers demo_held) (wm_latest demo_held) 4 9 = Some l \<and> l 4 = Some 9) \<and>
   changed (wm_live demo_watch) (wm_receivers demo_watch) (wm_latest demo_watch) 4 9 = Some (wm_latest demo_watch)"
  using callback_context_alive [OF demo_held_reached, of 7 4 9] callback_context_alive [OF demo_watch_reached, of 7 4 9]
  by (auto simp: demo_held_def demo_watch_def watch_init_def)

end
