(* ===== verification/WinShell.thy ===== *)
theory WinShell
  imports Session Manage
begin

text \<open>
  The default shell of a session on Windows (\<open>session.rs\<close>): the first of three programs that the
  search path has. \<open>split_paths\<close> is the standard library's for Windows, where quotes protect
  semicolons.
\<close>

fun split_paths_loop :: "bool \<Rightarrow> str \<Rightarrow> str \<Rightarrow> path list" where
  "split_paths_loop quoted acc [] = [acc]"
| "split_paths_loop quoted acc (c # cs) =
     (if c = 34 then split_paths_loop (\<not> quoted) acc cs
      else if c = 59 \<and> \<not> quoted then acc # split_paths_loop quoted [] cs
      else split_paths_loop quoted (acc @ [c]) cs)"

definition split_paths :: "str \<Rightarrow> path list" where
  "split_paths s = split_paths_loop False [] s"

fun first_file :: "(path \<Rightarrow> bool) \<Rightarrow> str \<Rightarrow> path list \<Rightarrow> path option" where
  "first_file is_file program [] = None"
| "first_file is_file program (dir # dirs) =
     (let candidate = win_join dir program
      in if is_file candidate then Some candidate else first_file is_file program dirs)"

definition which_on_path :: "os_env \<Rightarrow> (path \<Rightarrow> bool) \<Rightarrow> str \<Rightarrow> path option" where
  "which_on_path os is_file program =
     (case os_var os (lit ''PATH'') of
        None \<Rightarrow> None
      | Some p \<Rightarrow> first_file is_file program (split_paths p))"

definition shell_candidates :: "str list" where
  "shell_candidates = [lit ''pwsh.exe'', lit ''powershell.exe'', lit ''cmd.exe'']"

fun first_shell :: "os_env \<Rightarrow> (path \<Rightarrow> bool) \<Rightarrow> str list \<Rightarrow> str list" where
  "first_shell os is_file [] = [lit ''cmd.exe'']"
| "first_shell os is_file (c # cs) = (if which_on_path os is_file c \<noteq> None then [c] else first_shell os is_file cs)"

definition windows_default_shell :: "os_env \<Rightarrow> (path \<Rightarrow> bool) \<Rightarrow> str list" where
  "windows_default_shell os is_file = first_shell os is_file shell_candidates"

lemma first_file_None: "first_file is_file program dirs = None \<longleftrightarrow> (\<forall>d \<in> set dirs. \<not> is_file (win_join d program))"
  by (induction dirs) (auto simp: Let_def)

lemma which_on_path_None:
  "which_on_path os is_file program = None \<longleftrightarrow>
     (\<forall>p. os_var os (lit ''PATH'') = Some p \<longrightarrow> (\<forall>d \<in> set (split_paths p). \<not> is_file (win_join d program)))"
  by (simp add: which_on_path_def first_file_None split: option.splits)

text \<open>
  The default shell of a Windows session is a single program, one of the three candidates; every
  candidate preferred to it is in no directory of the search path; and the flag with which a
  command is run by it is \<open>/C\<close> exactly for \<open>cmd.exe\<close>.
\<close>

theorem windows_default_shell_best:
  "\<exists>before c after. windows_default_shell os is_file = [c] \<and> shell_candidates = before @ c # after \<and>
     (\<forall>b \<in> set before. \<forall>p. os_var os (lit ''PATH'') = Some p \<longrightarrow> (\<forall>d \<in> set (split_paths p). \<not> is_file (win_join d b))) \<and>
     (after \<noteq> [] \<longrightarrow> which_on_path os is_file c \<noteq> None) \<and>
     cmd_args (resolve_command os (windows_default_shell os is_file) (SessExec command pty)) =
       [if c = lit ''cmd.exe'' then lit ''/C'' else lit ''-c'', command]"
proof -
  have flags: "exec_flag (lit ''pwsh.exe'') = lit ''-c''" "exec_flag (lit ''powershell.exe'') = lit ''-c''"
      "exec_flag (lit ''cmd.exe'') = lit ''/C''"
    by (simp_all add: exec_flag_def file_name_def text_eval Let_def)
  have neq: "lit ''pwsh.exe'' \<noteq> lit ''cmd.exe''" "lit ''powershell.exe'' \<noteq> lit ''cmd.exe''"
    by (simp_all add: text_eval)
  consider "which_on_path os is_file (lit ''pwsh.exe'') \<noteq> None"
    | "which_on_path os is_file (lit ''pwsh.exe'') = None" "which_on_path os is_file (lit ''powershell.exe'') \<noteq> None"
    | "which_on_path os is_file (lit ''pwsh.exe'') = None" "which_on_path os is_file (lit ''powershell.exe'') = None"
    by blast
  then show ?thesis
  proof cases
    case 1
    then show ?thesis
      by (intro exI [of _ "[]"] exI [of _ "lit ''pwsh.exe''"]
          exI [of _ "[lit ''powershell.exe'', lit ''cmd.exe'']"])
        (simp add: windows_default_shell_def shell_candidates_def shell_program_def flags neq)
  next
    case 2
    then show ?thesis
      by (intro exI [of _ "[lit ''pwsh.exe'']"] exI [of _ "lit ''powershell.exe''"]
          exI [of _ "[lit ''cmd.exe'']"])
        (simp add: windows_default_shell_def shell_candidates_def shell_program_def flags neq
          which_on_path_None [symmetric])
  next
    case 3
    then show ?thesis
      by (intro exI [of _ "[lit ''pwsh.exe'', lit ''powershell.exe'']"] exI [of _ "lit ''cmd.exe''"] exI [of _ "[]"])
        (simp add: windows_default_shell_def shell_candidates_def shell_program_def flags
          which_on_path_None [symmetric])
  qed
qed

end
