(* ===== verification/Spec2Isabelle.thy ===== *)
theory Spec2Isabelle
  imports Saved Watch WinShell
begin

text \<open>
  A verification development for sshdt, an SSH server that runs as an ordinary user, and its Dev
  Tunnel companion. The sources are under \<open>src/src/\<close>; theories follow its modules.

  \<^bold>\<open>The program.\<close> \<open>main.rs\<close> turns arguments and a configuration file (\<open>config.rs\<close>,
  \<open>sshd_config.rs\<close>) into a \<open>Config\<close>, builds a server from it (\<open>server.rs\<close>, with host keys from
  \<open>hostkey.rs\<close> and the policy of \<open>auth.rs\<close>) and serves connections. Each connection is a
  \<open>ConnectionHandler\<close> (\<open>handler.rs\<close>) that starts sessions (\<open>session.rs\<close>), file transfers (\<open>sftp.rs\<close>) and
  forwards (\<open>forward.rs\<close>). With a tunnel configured, a supervisor (\<open>devtunnel/host.rs\<close>) keeps the
  server reachable; on the other side a proxy reaches it through a broker per tunnel
  (\<open>devtunnel/client.rs\<close>, with \<open>ipc.rs\<close>, \<open>process.rs\<close>, \<open>logs.rs\<close>, \<open>retry.rs\<close>, \<open>network.rs\<close>). \<open>service.rs\<close>
  starts the server at login.

  \<^bold>\<open>The theories.\<close> Each function of the code is one definition, of the same name where HOL allows it.
  \<^item> \<open>Prelude\<close>: widths of machine integers, results as sums, fallible actions on a state, runs of
    guarded steps (locales \<open>step_system\<close>, \<open>monotone_system\<close>), the states of processes that take turns (locale
    \<open>reachable_system\<close>, which the three protocols below instantiate) and the contract of a comparison of
    secrets (locale \<open>byte_equality\<close>).
  \<^item> \<open>Text\<close>, \<open>Utf8\<close>, \<open>Net\<close>, \<open>Paths\<close>: what the code uses of Rust's standard library: strings as lists of
    Unicode scalar values, encoding and lossy decoding, address parsing, Unix paths.
  \<^item> \<open>Util\<close>, \<open>Errors\<close>, \<open>Config\<close>, \<open>SshdConfig\<close>, \<open>Auth\<close>: \<open>util.rs\<close>, \<open>error.rs\<close>, \<open>config.rs\<close>, \<open>sshd_config.rs\<close>,
    \<open>auth.rs\<close>. The parser is a loop over lines with the mutable variables of \<open>parse\<close> as its state.
  \<^item> \<open>Session\<close>: \<open>session.rs\<close>. The three runners are step functions on the events their \<open>select!\<close> loops
    and tasks can see, in any order; the copies of standard output and error have their own steps,
    from the process that writes to the client that receives, and may fail.
  \<^item> \<open>Handler\<close>: \<open>handler.rs\<close> and \<open>forward.rs\<close>. Every callback maps the connection to its new state and its
    actions, the answers to authentication requests among them; \<open>conn_step\<close> is the connection over any
    sequence of callbacks, \<open>spec_step\<close> the abstract protocol of one channel that it refines.
  \<^item> \<open>Sftp\<close>: \<open>sftp.rs\<close>, every request over a file system given by its calls; the handle table meets the
    locale \<open>handle_table\<close>.
  \<^item> \<open>Hostkey\<close>, \<open>Server\<close>, \<open>Serving\<close>: \<open>hostkey.rs\<close>, \<open>server.rs\<close>. \<open>Server\<close> has the builder, \<open>Serving\<close> the accept loop
    with its connection tasks as the inductive relation \<open>serve_step\<close> over all interleavings: each
    connection has the machine of \<open>Handler\<close>, which holds the startup permit and the authenticated flag,
    and a clock with timers that may fire late drives the login grace.
  \<^item> \<open>Retry\<close>, \<open>Watch\<close>: \<open>retry.rs\<close> and \<open>network.rs\<close> with an explicit clock; \<open>Watch\<close> has the registration for
    network changes, its context and the system's callbacks as the relation \<open>watch_step\<close>.
  \<^item> \<open>Logs\<close>, \<open>Ipc\<close>, \<open>Process\<close>, \<open>Guardian\<close>: \<open>logs.rs\<close>, \<open>ipc.rs\<close>, \<open>process.rs\<close>; \<open>Guardian\<close> has the process between
    the owner and its child on both systems.
  \<^item> \<open>Broker\<close>, \<open>Client\<close>, \<open>Lifecycle\<close>, \<open>Proxy\<close>: \<open>client.rs\<close>. \<open>broker_step\<close> is the select loop of the broker, \<open>Client\<close>
    has \<open>serve\<close> and, on the proxy's side, \<open>acquire\<close>; \<open>Lifecycle\<close> is the broker from its lock to its clean-up
    and all the processes around one lock (\<open>machine_step\<close>), \<open>Proxy\<close> the bytes: \<open>run_stdio\<close>, the relays and both
    ends of a connection together.
  \<^item> \<open>Host\<close>: \<open>host.rs\<close>. \<open>attempt\<close> is one setup with every command it runs, \<open>host_step\<close> the supervision loop.
  \<^item> \<open>Utf16\<close>, \<open>WinSecurity\<close>: wide strings, and the access lists of \<open>ipc.rs\<close> and \<open>service.rs\<close> with every handle and
    allocation they take and give back.
  \<^item> \<open>Cli\<close>, \<open>Service\<close>, \<open>Guard\<close>, \<open>Manage\<close>, \<open>WinShell\<close>, \<open>App\<close>: \<open>main.rs\<close> and \<open>service.rs\<close>. \<open>Guard\<close> has the run guard and
    the processes around its named events (\<open>ev_step\<close>), \<open>Manage\<close> the service commands, \<open>WinShell\<close> the default
    shell on Windows, \<open>App\<close> the log and \<open>run_server\<close>, in service mode and outside it.
  \<^item> \<open>Saved\<close>: the options of the launch at login from \<open>startup_args\<close> through the registry and an argument
    parser to the service; the tables of the fields of \<open>Args\<close> say which option fills which field.

  \<^bold>\<open>What is shown.\<close> Who gets in and what a connection may do: the decision is the policy, nothing
  is served before a request that the policy accepts, every action respects the policy, a channel is used once
  (\<open>Handler\<close>), the policy is the configuration's (\<open>Auth\<close>), an authentication switch in the file turns
  anonymous access off for good (\<open>SshdConfig\<close>), and from the file to the wire below. The startup cap
  and the login grace hold over all interleavings (\<open>Serving\<close>). A session ends once; the client gets the
  output of the process in order, all of it unless a copy fails (\<open>Session\<close>). A jailed file transfer asks the operating system about paths under its root only, but
  can leave the jail through a link among the parents of a path that does not exist yet; handles
  are never reused; a directory is listed completely (\<open>Sftp\<close>). Host keys are stable (\<open>Hostkey\<close>). The
  broker only routes to loopback addresses, keeps routes within a generation and serves only the
  holder of its capability (\<open>Broker\<close>); an answer precedes the bytes and brokers are started at most
  once a second (\<open>Client\<close>). At most one broker serves a tunnel, over all interleavings of processes
  that start, end and are killed, it publishes the port it listens on and the capability it checks,
  and that has all 256 bits of what was drawn (\<open>Lifecycle\<close>);
  a proxy that finds a serving broker is let in, and carries bytes as they are (\<open>Proxy\<close>). A guardian
  that ends has ended its child, it ends when its owner is gone, and the owner hears the lines
  of the child's output and its exit status (\<open>Guardian\<close>). A log is kept for a week and followed exactly within one file, but the follower misses
  the rest of a day's file when the day changes, and control characters hide any text from the
  search for secrets (\<open>Logs\<close>). Handles and allocations are given back on
  every path (\<open>WinSecurity\<close>), and no notification finds its context freed (\<open>Watch\<close>). A tunnel is only
  announced when it is set up as configured, nothing is created without permission, the reported
  status is the supervisor's phase and pauses are
  bounded (\<open>Host\<close>). At most one service runs per user and a stop request reaches it, but a request
  that is still waited for also stops the next service (\<open>Guard\<close>); the program in service mode is the
  process of that protocol (\<open>App\<close>); the status is what the last command did, the log is shown exactly,
  and the notice that there is none never appears (\<open>Manage\<close>); the service runs with the options it was
  enabled with, unless one is empty, when the next option is taken for its value, and logs where
  the log command looks (\<open>Saved\<close>); a background start that fails ends and leaves no process
  (\<open>Service\<close>). Round trips:
  command lines, client paths, broker messages, wide strings, saved launch options.

  \<^bold>\<open>Bounds and fuel.\<close> \<open>readdir_all\<close> and \<open>take_events\<close> take fuel, and the theorems show that one more than
  the number of entries, two more than the number of queued events, is enough. Loops that wait for
  the outside world take the list of what they observe and are \<open>None\<close> while it has not ended them;
  the theorems that they end say which observation is enough. Instants are milliseconds. Integers
  keep their width where the code can wrap (\<open>u16\<close> casts of terminal sizes and ports, the handle
  counter, the generation of the forwarding, checked products of durations).

  \<^bold>\<open>Parameters.\<close> The SSH and SFTP protocol libraries deliver callbacks: \<open>conn_adm\<close> states that channels are
  only opened for a client whose authentication request the handler answered with \<open>Accept\<close>, an
  answer to the offer of a key not being one, and dropping a session closes its connection. Key
  parsing and key data, argument parsing, JSON, the registry, the file system, the key store and
  Windows paths are arguments, with named hypotheses where a theorem relies on them:
  \<open>canonical_results\<close> and \<open>same_inside\<close> of the file system, \<open>key_store_ok\<close> of the key files (whose paths
  then have no \<open>..\<close>), \<open>registry_ok\<close> and \<open>multi_keeps_words\<close> of the registry, \<open>argh_contract\<close> of the argument
  parser. That waiting for a process that was killed returns is a hypothesis where it is needed.

  \<^bold>\<open>Not modelled.\<close> The texts of the library's errors (one needs the standard library's tables of
  printable characters, another the display of IPv6 addresses), the help texts of the argument
  parser and its subcommands, the log subscriber itself, the JSON text of the tunnel's status file and
  failures to write that file, which the code ignores, module declarations. Paths are text: the code's lossy conversions of paths that are not Unicode are
  left out. The server side (\<open>Session\<close>, \<open>Sftp\<close>, \<open>Hostkey\<close>, \<open>Paths\<close>) is the Unix configuration of the code,
  apart from \<open>WinShell\<close>; \<open>Service\<close>, \<open>Guard\<close>, \<open>Manage\<close> and \<open>WinSecurity\<close> exist on Windows only; the tunnel's
  files and processes are modelled for both. What would come next is \<open>Sftp\<close> over Windows paths.
\<close>

section \<open>From the configuration file to the connection\<close>

lemma file_switch_not_anonymous:
  assumes "build_config read exists home a = Inr c"
    and "select_config_path exists (arg_config a) (arg_no_config a) home = Some p"
    and "read p = Inr input" and "raw \<in> set (str_lines input)"
    and "auth_switch ''passwordauthentication'' b raw \<or> auth_switch ''pubkeyauthentication'' b raw"
  shows "\<not> cfg_allow_anonymous c"
proof -
  obtain c0 where c0: "base_config read exists home a = Inr c0"
    using build_config_Inr [OF assms(1)] by blast
  then have "load_file read home p = Inr c0" using assms(2) by (simp add: base_config_def)
  then obtain c1 where "parse_config read input = Inr c1" "cfg_allow_anonymous c0 \<longleftrightarrow> cfg_allow_anonymous c1"
    using assms(3) by (auto simp: load_file_def parse_for_user_def split: if_splits sum.splits)
  then show ?thesis
    using parse_config_line [OF _ assms(4)] auth_switch_line [OF assms(5)] restricts_anonymous
      build_config_anonymous [OF assms(1) c0] by metis
qed

text \<open>The credential an accepted request carried, for a server without a hook.\<close>

definition presented :: "('k \<Rightarrow> 'd) \<Rightarrow> 'k auth_config \<Rightarrow> str \<Rightarrow> 'k conn_event \<Rightarrow> bool" where
  "presented kd auth user e =
     (case e of
        EAuthPassword u pw \<Rightarrow> u = user \<and> map_option as_bytes (ac_password auth) = Some (as_bytes pw)
      | EAuthKey u k \<Rightarrow> u = user \<and> kd k \<in> kd ` set (ac_authorized_keys auth)
      | _ \<Rightarrow> False)"

lemma accepted_presented:
  assumes "accepted kd inner e" and "si_authenticator inner = None" and "\<not> ac_anonymous (si_auth inner)"
  shows "\<exists>user. user_allowed inner user \<and> presented kd (si_auth inner) user e"
  using assms
  by (cases e) (auto simp: decide_Accept builtin_ok_def presented_def check_publickey_iff check_password_def
      constant_time_eq_iff split: option.splits)

text \<open>
  C9. From the file to the wire: when the configuration file the program selects contains an
  authentication switch, whatever the other lines and the command line say, the server started
  from it does nothing for a client (no channel, session, file transfer or forward) unless an
  allowed user presented the configured password or an authorized key on that connection. The protocol
  library is assumed to let a client on to channels only after the handler answered a request
  with \<open>Accept\<close>.
\<close>

theorem switched_server_needs_credential:
  assumes "build_config read exists home a = Inr c"
    and "select_config_path exists (arg_config a) (arg_no_config a) home = Some p"
    and "read p = Inr input" and "raw \<in> set (str_lines input)"
    and "auth_switch ''passwordauthentication'' b raw \<or> auth_switch ''pubkeyauthentication'' b raw"
    and "server_from_config ks os read fo c w = (Inr sv, w')"
    and "run_ok conn_adm (conn_step kd (sv_inner sv)) (machine_new permit) es"
    and "list_ex serves (mc_log (foldl (conn_step kd (sv_inner sv)) (machine_new permit) es))"
  shows "\<exists>e \<in> set es. \<exists>user. user_allowed (sv_inner sv) user \<and> presented kd (si_auth (sv_inner sv)) user e"
proof -
  have sv: "from_config read fo c = Inr (si_auth (sv_inner sv))" "si_authenticator (sv_inner sv) = None"
    using build_Inr [OF assms(6) [unfolded server_from_config_def]] by (auto simp: builder_from_config_def)
  have "\<not> ac_anonymous (si_auth (sv_inner sv))"
    using from_config_Inr(1) [OF sv(1)] file_switch_not_anonymous [OF assms(1-5)] by simp
  moreover have "\<exists>e \<in> set es. accepted kd (sv_inner sv) e"
    using first_accept_new [OF assms(7,8)] by auto
  ultimately show ?thesis using accepted_presented [OF _ sv(2)] by blast
qed

definition locked_args :: args where
  "locked_args = no_args\<lparr>arg_config := Some (lit ''/c''), arg_no_config := False, arg_password := Some (lit ''pw'')\<rparr>"

definition locked_read :: read_file where
  "locked_read p = Inr (lit ''PasswordAuthentication No'')"

definition locked_events :: "nat conn_event list" where
  "locked_events = [EAuthNone (lit ''ann''), EAuthPassword (lit ''ann'') (lit ''pw''), EOpenSession 0]"

definition locked_os :: os_env where
  "locked_os = \<lparr>os_var = Map.empty, os_home_dir = Some (lit ''/h''), os_is_dir = \<lambda>_. True\<rparr>"

lemma locked_base:
  "base_config locked_read (\<lambda>_. True) None locked_args =
     Inr (config_default\<lparr>cfg_allow_anonymous := False\<rparr>)"
  by (simp add: base_config_def select_config_path_def locked_args_def no_args_def locked_read_def
      load_file_def parse_for_user_def parse_config_def parse_line_def strip_comment_def
      split_directive_def directive_def parse_yes_no_def parse_init_def parse_finish_def text_eval Let_def
      validate_dev_tunnel_def config_default_def dev_tunnel_default_def) blast

lemma locked_config:
  "build_config locked_read (\<lambda>_. True) None locked_args =
     Inr (config_default\<lparr>cfg_allow_anonymous := False, cfg_password := Some (lit ''pw''),
            cfg_allow_tcp_forwarding := False\<rparr>)"
  by (simp add: build_config_def locked_base)
     (simp add: locked_args_def no_args_def apply_tunnel_flags_def apply_server_flags_def map_error_def
        Let_def validate_dev_tunnel_def config_default_def dev_tunnel_default_def)

lemma locked_server:
  "\<exists>sv w'. server_from_config demo_keys locked_os locked_read (\<lambda>_. Inl [] :: str + nat)
      (config_default\<lparr>cfg_allow_anonymous := False, cfg_password := Some (lit ''pw''),
            cfg_allow_tcp_forwarding := False\<rparr>) ([], 0) = (Inr sv, w') \<and>
     si_auth (sv_inner sv) = \<lparr>ac_anonymous = False, ac_password = Some (lit ''pw''), ac_authorized_keys = []\<rparr> \<and>
     si_authenticator (sv_inner sv) = None \<and> si_allowed_users (sv_inner sv) = []"
  by (simp add: server_from_config_def build_def load_or_generate_def default_host_key_path_def
      load_or_generate_one_def generate_and_persist_def prepare_dir_def demo_keys_def from_config_def
      builder_from_config_def config_default_def resolve_allowed_users_def locked_os_def
      has_explicit_auth_def text_eval Let_def)

theorem switched_server_needs_credential_witness:
  "\<exists>sv. \<exists>e \<in> set locked_events. \<exists>user.
     user_allowed (sv_inner (sv :: (nat, nat) server)) user \<and> presented (\<lambda>k. k) (si_auth (sv_inner sv)) user e"
proof -
  obtain sv w' where sv: "server_from_config demo_keys locked_os locked_read (\<lambda>_. Inl [] :: str + nat)
      (config_default\<lparr>cfg_allow_anonymous := False, cfg_password := Some (lit ''pw''),
            cfg_allow_tcp_forwarding := False\<rparr>) ([], 0) = (Inr sv, w')"
    and inner: "si_auth (sv_inner sv) = \<lparr>ac_anonymous = False, ac_password = Some (lit ''pw''), ac_authorized_keys = []\<rparr>"
      "si_authenticator (sv_inner sv) = None" "si_allowed_users (sv_inner sv) = []"
    using locked_server by blast
  note run_defs = locked_events_def machine_new_def conn_new_def conn_adm_def let_in_def conn_step_def handler_defs
    decide_def user_allowed_def builtin_ok_def check_password_def constant_time_eq_iff reject_def inner
  have run: "run_ok conn_adm (conn_step (\<lambda>k. k) (sv_inner sv)) (machine_new True) locked_events"
      "list_ex serves (mc_log (foldl (conn_step (\<lambda>k. k) (sv_inner sv)) (machine_new True) locked_events))"
    by (simp_all add: run_defs)
  have switch: "auth_switch ''passwordauthentication'' False (lit ''PasswordAuthentication No'') \<or>
      auth_switch ''pubkeyauthentication'' False (lit ''PasswordAuthentication No'')"
    by (simp add: auth_switch_def line_directive_def strip_comment_def split_directive_def
         parse_yes_no_def text_eval Let_def)
  have chosen: "select_config_path (\<lambda>_. True) (arg_config locked_args) (arg_no_config locked_args) None = Some (lit ''/c'')"
      "locked_read (lit ''/c'') = Inr (lit ''PasswordAuthentication No'')"
      "lit ''PasswordAuthentication No'' \<in> set (str_lines (lit ''PasswordAuthentication No''))"
    by (simp_all add: select_config_path_def locked_args_def locked_read_def text_eval)
  show ?thesis
    by (rule exI) (rule switched_server_needs_credential [OF locked_config chosen switch sv run])
qed

end
